(* ===== verification/Prelude.thy ===== *)
theory Prelude
  imports Main "HOL-Library.AList" "HOL-Library.Multiset" "HOL-Library.Code_Target_Numeral"
begin

text \<open>
  What every component shares.

  \<^item> \<open>outcome\<close>: the three ways a Rust call ends. \<open>Ok\<close> and \<open>Err\<close> are the two variants of
    \<open>Result\<close>; \<open>Panic\<close> is a panic, which aborts the process (\<open>panic = "abort"\<close> and
    \<open>overflow-checks = true\<close> in the release profile of Cargo.toml, so an arithmetic overflow
    is a panic and never a wrap-around).
  \<^item> \<open>u128\<close> arithmetic on \<open>nat\<close>, one function per Rust operator or method the code uses, with the
    behaviour at the 128-bit boundary written out.
  \<^item> The part of \<open>str\<close> the code uses: \<open>contains\<close>, \<open>split\<close>, \<open>strip_prefix\<close>, \<open>parse\<close> and the decimal
    rendering of integers. A string is the list of its UTF-8 bytes.
\<close>

named_theorems u128_arith \<open>the defining equations of the u128 operators\<close>
named_theorems outcome_elims \<open>case analysis of a finished outcome\<close>

section \<open>Results and panics\<close>

datatype ('e, 'a) outcome = Ok 'a | Err 'e | Panic

primrec obind :: "('e, 'a) outcome \<Rightarrow> ('a \<Rightarrow> ('e, 'b) outcome) \<Rightarrow> ('e, 'b) outcome" where
  "obind (Ok a) f = f a"
| "obind (Err e) f = Err e"
| "obind Panic f = Panic"

primrec map_err :: "('e \<Rightarrow> 'f) \<Rightarrow> ('e, 'a) outcome \<Rightarrow> ('f, 'a) outcome" where
  "map_err g (Ok a) = Ok a"
| "map_err g (Err e) = Err (g e)"
| "map_err g Panic = Panic"

text \<open>\<open>lift_res\<close> is the \<open>?\<close> operator on a foreign call that cannot panic, \<open>or_panic\<close> a call that
  panics when it has no value (an operator of a checked numeric type).\<close>

primrec lift_res :: "'e + 'a \<Rightarrow> ('e, 'a) outcome" where
  "lift_res (Inl e) = Err e"
| "lift_res (Inr a) = Ok a"

primrec or_panic :: "'a option \<Rightarrow> ('e, 'a) outcome" where
  "or_panic None = Panic"
| "or_panic (Some a) = Ok a"

lemma obind_eq_Ok [simp]: "obind m f = Ok b \<longleftrightarrow> (\<exists>a. m = Ok a \<and> f a = Ok b)"
  by (cases m) auto

lemma obind_eq_Err: "obind m f = Err e \<longleftrightarrow> m = Err e \<or> (\<exists>a. m = Ok a \<and> f a = Err e)"
  by (cases m) auto

lemma obind_eq_Panic: "obind m f = Panic \<longleftrightarrow> m = Panic \<or> (\<exists>a. m = Ok a \<and> f a = Panic)"
  by (cases m) auto

lemma obind_assoc: "obind (obind m f) g = obind m (\<lambda>x. obind (f x) g)"
  by (cases m) auto

lemma map_err_eq_Ok [simp]: "map_err g m = Ok a \<longleftrightarrow> m = Ok a"
  by (cases m) auto

lemma map_err_eq_Err [simp]: "map_err g m = Err e \<longleftrightarrow> (\<exists>e'. m = Err e' \<and> e = g e')"
  by (cases m) auto

lemma obind_ErrE:
  assumes "obind m f = Err e"
  obtains "m = Err e" | a where "m = Ok a" "f a = Err e"
  using assms by (cases m) auto

lemma map_err_eq_Panic [simp]: "map_err g m = Panic \<longleftrightarrow> m = Panic"
  by (cases m) auto

lemma lift_res_simps [simp]:
  "lift_res r = Ok a \<longleftrightarrow> r = Inr a" "lift_res r = Err e \<longleftrightarrow> r = Inl e" "lift_res r \<noteq> Panic"
  by (cases r; auto)+

lemma or_panic_simps [simp]:
  "or_panic r = Ok a \<longleftrightarrow> r = Some a" "or_panic r \<noteq> Err e" "or_panic r = Panic \<longleftrightarrow> r = None"
  by (cases r; auto)+

lemmas outcome_cases [outcome_elims] = obind_eq_Err obind_eq_Panic

section \<open>u128 arithmetic\<close>

type_synonym u128 = nat

definition u128_max :: nat where
  "u128_max = 340282366920938463463374607431768211455"

definition u64_max :: nat where
  "u64_max = 18446744073709551615"

definition u32_max :: nat where
  "u32_max = 4294967295"

definition i128_max :: int where
  "i128_max = 170141183460469231731687303715884105727"

lemma u128_max_pow: "u128_max = 2 ^ 128 - 1"
  by (simp add: u128_max_def)

definition add_u128 :: "nat \<Rightarrow> nat \<Rightarrow> ('e, nat) outcome" where
  "add_u128 a b = (if a + b \<le> u128_max then Ok (a + b) else Panic)"

definition mul_u128 :: "nat \<Rightarrow> nat \<Rightarrow> ('e, nat) outcome" where
  "mul_u128 a b = (if a * b \<le> u128_max then Ok (a * b) else Panic)"

definition sat_add :: "nat \<Rightarrow> nat \<Rightarrow> nat" where
  "sat_add a b = min (a + b) u128_max"

definition sat_sub :: "nat \<Rightarrow> nat \<Rightarrow> nat" where
  "sat_sub a b = a - b"

definition sat_mul :: "nat \<Rightarrow> nat \<Rightarrow> nat" where
  "sat_mul a b = min (a * b) u128_max"

definition checked_mul :: "nat \<Rightarrow> nat \<Rightarrow> nat option" where
  "checked_mul a b = (if a * b \<le> u128_max then Some (a * b) else None)"

definition div_ceil :: "nat \<Rightarrow> nat \<Rightarrow> nat" where
  "div_ceil a b = (if a mod b = 0 then a div b else a div b + 1)"

lemmas u128_ops [u128_arith] =
  add_u128_def mul_u128_def sat_add_def sat_sub_def sat_mul_def checked_mul_def

lemma mul_u128_eq_Ok [simp]: "mul_u128 a b = Ok c \<longleftrightarrow> c = a * b \<and> a * b \<le> u128_max"
  by (auto simp: mul_u128_def)

lemma add_u128_eq_Ok [simp]: "add_u128 a b = Ok c \<longleftrightarrow> c = a + b \<and> a + b \<le> u128_max"
  by (auto simp: add_u128_def)

lemma mul_u128_not_Err [simp]: "mul_u128 a b \<noteq> Err e"
  by (simp add: mul_u128_def)

lemma add_u128_not_Err [simp]: "add_u128 a b \<noteq> Err e"
  by (simp add: add_u128_def)

lemma mul_u128_eq_Panic: "mul_u128 a b = Panic \<longleftrightarrow> u128_max < a * b"
  by (auto simp: mul_u128_def)

lemma sat_add_le_max: "sat_add a b \<le> u128_max"
  by (simp add: sat_add_def)

lemma sat_add_ge: "a \<le> u128_max \<Longrightarrow> a \<le> sat_add a b"
  by (simp add: sat_add_def)

lemma sat_sub_le [simp]: "sat_sub a b \<le> a"
  by (simp add: sat_sub_def)

text \<open>\<open>div_ceil\<close> is the least quotient that covers the dividend: the fact a ceiling gate rests on.\<close>

lemma div_ceil_le_iff:
  assumes "0 < b"
  shows "div_ceil a b \<le> n \<longleftrightarrow> a \<le> n * b"
proof (cases "a mod b = 0")
  case True
  then have "a div b * b = a" by (simp add: mod_eq_0_iff_dvd)
  then show ?thesis
    using assms mult_le_cancel2 [of "a div b" b n] True by (simp add: div_ceil_def)
next
  case False
  then have "a \<noteq> n * b" by auto
  moreover have "n \<le> a div b \<longleftrightarrow> n * b \<le> a"
    using assms by (rule less_eq_div_iff_mult_less_eq)
  ultimately show ?thesis using False by (auto simp: div_ceil_def)
qed

section \<open>Strings\<close>

text \<open>\<open>str::contains\<close> with a string pattern.\<close>

fun is_prefix :: "string \<Rightarrow> string \<Rightarrow> bool" where
  "is_prefix [] s = True"
| "is_prefix (p # ps) [] = False"
| "is_prefix (p # ps) (c # s) = (p = c \<and> is_prefix ps s)"

fun contains :: "string \<Rightarrow> string \<Rightarrow> bool" where
  "contains [] pat = is_prefix pat []"
| "contains (c # s) pat = (is_prefix pat (c # s) \<or> contains s pat)"

definition strip_prefix :: "string \<Rightarrow> string \<Rightarrow> string option" where
  "strip_prefix pat s = (if is_prefix pat s then Some (drop (length pat) s) else None)"

definition ends_with :: "string \<Rightarrow> string \<Rightarrow> bool" where
  "ends_with pat s = is_prefix (rev pat) (rev s)"

definition strip_suffix :: "string \<Rightarrow> string \<Rightarrow> string option" where
  "strip_suffix pat s = (if ends_with pat s then Some (take (length s - length pat) s) else None)"

text \<open>\<open>str::split\<close> with a predicate: every separator ends a segment, empty segments included.\<close>

fun split_on :: "(char \<Rightarrow> bool) \<Rightarrow> string \<Rightarrow> string list" where
  "split_on p [] = [[]]"
| "split_on p (c # s) =
     (if p c then [] # split_on p s
      else (case split_on p s of [] \<Rightarrow> [[c]] | x # xs \<Rightarrow> (c # x) # xs))"

lemma split_on_nonempty [simp]: "split_on p s \<noteq> []"
  by (cases s) (auto split: list.splits)

lemma split_on_all: "(\<And>c. c \<in> set s \<Longrightarrow> \<not> p c) \<Longrightarrow> split_on p s = [s]"
  by (induction s) auto

lemma split_on_append:
  "(\<And>c. c \<in> set s \<Longrightarrow> \<not> p c) \<Longrightarrow> p d \<Longrightarrow> split_on p (s @ d # t) = s # split_on p t"
  by (induction s) auto

definition byte :: "char \<Rightarrow> nat" where
  "byte c = of_char c"

definition is_digit :: "char \<Rightarrow> bool" where
  "is_digit c \<longleftrightarrow> 48 \<le> byte c \<and> byte c \<le> 57"

definition to_lower_char :: "char \<Rightarrow> char" where
  "to_lower_char c = (if 65 \<le> byte c \<and> byte c \<le> 90 then char_of (byte c + 32) else c)"

definition to_upper_char :: "char \<Rightarrow> char" where
  "to_upper_char c = (if 97 \<le> byte c \<and> byte c \<le> 122 then char_of (byte c - 32) else c)"

definition to_lower :: "string \<Rightarrow> string" where
  "to_lower s = map to_lower_char s"

definition to_upper :: "string \<Rightarrow> string" where
  "to_upper s = map to_upper_char s"

definition is_alnum :: "char \<Rightarrow> bool" where
  "is_alnum c \<longleftrightarrow> is_digit c \<or> (65 \<le> byte c \<and> byte c \<le> 90) \<or> (97 \<le> byte c \<and> byte c \<le> 122)"

definition is_space :: "char \<Rightarrow> bool" where
  "is_space c \<longleftrightarrow> byte c = 32 \<or> (9 \<le> byte c \<and> byte c \<le> 13)"

definition trim :: "string \<Rightarrow> string" where
  "trim s = rev (dropWhile is_space (rev (dropWhile is_space s)))"

text \<open>Decimal rendering of an unsigned integer, and \<open>str::parse\<close> at an unsigned integer type whose
  largest value is \<open>mx\<close>: an optional plus sign, at least one digit, no overflow.\<close>

definition digit_char :: "nat \<Rightarrow> char" where
  "digit_char d = char_of (48 + d)"

fun show_nat :: "nat \<Rightarrow> string" where
  "show_nat n = (if n < 10 then [digit_char n] else show_nat (n div 10) @ [digit_char (n mod 10)])"

declare show_nat.simps [simp del]

definition show_int :: "int \<Rightarrow> string" where
  "show_int i = (if i < 0 then ''-'' @ show_nat (nat (- i)) else show_nat (nat i))"

definition digits_value :: "string \<Rightarrow> nat" where
  "digits_value s = foldl (\<lambda>a c. a * 10 + (byte c - 48)) 0 s"

definition parse_uint :: "nat \<Rightarrow> string \<Rightarrow> nat option" where
  "parse_uint mx s =
     (let ds = (case strip_prefix ''+'' s of Some r \<Rightarrow> r | None \<Rightarrow> s)
      in if ds \<noteq> [] \<and> list_all is_digit ds \<and> digits_value ds \<le> mx then Some (digits_value ds) else None)"

lemma byte_digit_char: "d < 10 \<Longrightarrow> byte (digit_char d) = 48 + d"
  by (simp add: byte_def digit_char_def of_char_of)

lemma is_digit_digit_char: "d < 10 \<Longrightarrow> is_digit (digit_char d)"
  by (simp add: is_digit_def byte_digit_char)

lemma digits_value_snoc: "digits_value (s @ [c]) = digits_value s * 10 + (byte c - 48)"
  by (simp add: digits_value_def)

lemma show_nat_props:
  "show_nat n \<noteq> [] \<and> list_all is_digit (show_nat n) \<and> digits_value (show_nat n) = n"
proof (induction n rule: show_nat.induct)
  case (1 n)
  show ?case
  proof (cases "n < 10")
    case True
    then show ?thesis
      by (subst (1 2 3) show_nat.simps)
         (simp add: digits_value_def byte_digit_char is_digit_digit_char)
  next
    case False
    have "n mod 10 < 10" by simp
    with False 1 show ?thesis
      by (subst (1 2 3) show_nat.simps)
         (simp add: digits_value_snoc byte_digit_char is_digit_digit_char)
  qed
qed

lemma show_nat_digit: "c \<in> set (show_nat n) \<Longrightarrow> is_digit c"
  using show_nat_props [of n] by (auto simp: list_all_iff)

lemma parse_uint_show_nat: "n \<le> mx \<Longrightarrow> parse_uint mx (show_nat n) = Some n"
proof -
  assume n: "n \<le> mx"
  have "strip_prefix ''+'' (show_nat n) = None"
  proof (cases "show_nat n")
    case Nil
    then show ?thesis using show_nat_props [of n] by simp
  next
    case (Cons c cs)
    then have "is_digit c" using show_nat_digit [of c n] by simp
    then have "c \<noteq> CHR ''+''" by (auto simp: is_digit_def byte_def)
    with Cons show ?thesis by (simp add: strip_prefix_def)
  qed
  with n show_nat_props [of n] show ?thesis by (simp add: parse_uint_def)
qed

text \<open>\<open>str::replace\<close> with a one-character pattern.\<close>

definition replace_char :: "char \<Rightarrow> string \<Rightarrow> string \<Rightarrow> string" where
  "replace_char c rep s = concat (map (\<lambda>x. if x = c then rep else [x]) s)"

lemma replace_char_simps [simp]:
  "replace_char c rep [] = []"
  "replace_char c rep (x # s) = (if x = c then rep else [x]) @ replace_char c rep s"
  "replace_char c rep (s @ t) = replace_char c rep s @ replace_char c rep t"
  by (simp_all add: replace_char_def)

definition newline :: string where "newline = [CHR 0x0A]"

section \<open>Association lists\<close>

text \<open>A \<open>HashMap\<close> is an association list with distinct keys, in the (arbitrary) order an iteration
  visits it; \<open>AList.update\<close> writes a key in place or adds it.\<close>

lemma map_of_update [simp]: "map_of (AList.update k v al) = (map_of al)(k \<mapsto> v)"
  by (rule update_conv')

lemma map_of_update_other: "k' \<noteq> k \<Longrightarrow> map_of (AList.update k v al) k' = map_of al k'"
  by simp

lemma distinct_keys_update: "distinct (map fst al) \<Longrightarrow> distinct (map fst (AList.update k v al))"
  by (rule distinct_update)

lemma set_keys_update: "fst ` set (AList.update k v al) = insert k (fst ` set al)"
  using dom_update [of k v al] by (simp add: dom_map_of_conv_image_fst)

end
