(* ===== verification/F64.thy ===== *)
theory F64
  imports Complex_Main Prelude "HOL-Library.Log_Nat"
begin

text \<open>
  Rust's \<open>f64\<close> as far as the code uses it: IEEE 754 binary64 with round-to-nearest, ties to even.
  A finite value is the rational number it denotes (so exactly the numbers \<open>round_f64\<close> returns);
  the sign of zero is not kept, because no division of the code can have a negative zero as its
  divisor (every divisor is a power of ten or was checked to be positive).
  Every operation computes the exact rational result and rounds once, as the standard asks.
  \<open>10f64.powi(n)\<close> has no entry here: the documentation of \<open>powi\<close> leaves its precision
  unspecified, so the models that use it take it as the argument \<open>pow10\<close>.
\<close>

datatype f64 = NaN | PInf | NInf | Fin rat

section \<open>Rounding\<close>

definition pow2 :: "int \<Rightarrow> rat" where
  "pow2 e = 2 powi e"

definition ilog2 :: "rat \<Rightarrow> int" where
  "ilog2 a =
     (let (n, d) = quotient_of a; e = int (floorlog 2 (nat n)) - int (floorlog 2 (nat d))
      in if a < pow2 e then e - 1 else e)"

definition round_half_even :: "rat \<Rightarrow> int" where
  "round_half_even x =
     (let f = \<lfloor>x\<rfloor>; d = x - of_int f
      in if d < 1 / 2 then f else if 1 / 2 < d then f + 1 else if even f then f else f + 1)"

text \<open>The exponent of the last place: 52 bits below the leading bit, at least that of the subnormals.\<close>

definition ulp_exp :: "rat \<Rightarrow> int" where
  "ulp_exp a = max (ilog2 a - 52) (- 1074)"

definition round_f64 :: "rat \<Rightarrow> f64" where
  "round_f64 r =
     (if r = 0 then Fin 0
      else let q = pow2 (ulp_exp \<bar>r\<bar>); v = of_int (round_half_even (\<bar>r\<bar> / q)) * q
           in if v < pow2 1024 then Fin (if r < 0 then - v else v)
              else if r < 0 then NInf else PInf)"

section \<open>Operations\<close>

definition f64_of_int :: "int \<Rightarrow> f64" where
  "f64_of_int i = round_f64 (of_int i)"

definition f64_of_nat :: "nat \<Rightarrow> f64" where
  "f64_of_nat n = round_f64 (of_nat n)"

definition inf_sign :: "bool \<Rightarrow> f64" where
  "inf_sign neg = (if neg then NInf else PInf)"

fun f64_mul :: "f64 \<Rightarrow> f64 \<Rightarrow> f64" where
  "f64_mul (Fin a) (Fin b) = round_f64 (a * b)"
| "f64_mul NaN y = NaN"
| "f64_mul x NaN = NaN"
| "f64_mul (Fin a) PInf = (if a = 0 then NaN else inf_sign (a < 0))"
| "f64_mul (Fin a) NInf = (if a = 0 then NaN else inf_sign (0 < a))"
| "f64_mul PInf (Fin b) = (if b = 0 then NaN else inf_sign (b < 0))"
| "f64_mul NInf (Fin b) = (if b = 0 then NaN else inf_sign (0 < b))"
| "f64_mul PInf PInf = PInf"
| "f64_mul NInf NInf = PInf"
| "f64_mul PInf NInf = NInf"
| "f64_mul NInf PInf = NInf"

fun f64_div :: "f64 \<Rightarrow> f64 \<Rightarrow> f64" where
  "f64_div (Fin a) (Fin b) =
     (if b = 0 then (if a = 0 then NaN else inf_sign (a < 0)) else round_f64 (a / b))"
| "f64_div NaN y = NaN"
| "f64_div x NaN = NaN"
| "f64_div (Fin a) y = Fin 0"
| "f64_div PInf (Fin b) = inf_sign (b < 0)"
| "f64_div NInf (Fin b) = inf_sign (0 \<le> b)"
| "f64_div x y = NaN"

fun f64_sub :: "f64 \<Rightarrow> f64 \<Rightarrow> f64" where
  "f64_sub (Fin a) (Fin b) = round_f64 (a - b)"
| "f64_sub NaN y = NaN"
| "f64_sub x NaN = NaN"
| "f64_sub (Fin a) PInf = NInf"
| "f64_sub (Fin a) NInf = PInf"
| "f64_sub PInf NInf = PInf"
| "f64_sub NInf PInf = NInf"
| "f64_sub PInf (Fin b) = PInf"
| "f64_sub NInf (Fin b) = NInf"
| "f64_sub PInf PInf = NaN"
| "f64_sub NInf NInf = NaN"

fun f64_lt :: "f64 \<Rightarrow> f64 \<Rightarrow> bool" where
  "f64_lt (Fin a) (Fin b) = (a < b)"
| "f64_lt NInf (Fin b) = True"
| "f64_lt NInf PInf = True"
| "f64_lt (Fin a) PInf = True"
| "f64_lt x y = False"

fun f64_le :: "f64 \<Rightarrow> f64 \<Rightarrow> bool" where
  "f64_le NaN y = False"
| "f64_le x NaN = False"
| "f64_le (Fin a) (Fin b) = (a \<le> b)"
| "f64_le NInf y = True"
| "f64_le x PInf = True"
| "f64_le x y = False"

fun is_finite :: "f64 \<Rightarrow> bool" where
  "is_finite (Fin a) = True"
| "is_finite x = False"

text \<open>The cast \<open>as uN\<close>: truncation, saturating at both ends, 0 for a NaN.\<close>

fun f64_to_uint :: "nat \<Rightarrow> f64 \<Rightarrow> nat" where
  "f64_to_uint mx (Fin a) = (if a < 0 then 0 else min (nat \<lfloor>a\<rfloor>) mx)"
| "f64_to_uint mx PInf = mx"
| "f64_to_uint mx NInf = 0"
| "f64_to_uint mx NaN = 0"

text \<open>Fixed-precision rendering, \<open>{:.p}\<close> and \<open>{:+.p}\<close>: the exact value rounded to \<open>p\<close> places, ties to even.\<close>

definition pad_left :: "nat \<Rightarrow> string \<Rightarrow> string" where
  "pad_left w s = replicate (w - length s) (CHR ''0'') @ s"

definition show_fixed :: "nat \<Rightarrow> rat \<Rightarrow> string" where
  "show_fixed p a =
     (let n = nat (round_half_even (a * 10 ^ p))
      in show_nat (n div 10 ^ p) @ (if p = 0 then [] else ''.'' @ pad_left p (show_nat (n mod 10 ^ p))))"

fun fmt_fixed :: "bool \<Rightarrow> nat \<Rightarrow> f64 \<Rightarrow> string" where
  "fmt_fixed show_plus p (Fin a) =
     (if a < 0 then ''-'' else if show_plus then ''+'' else []) @ show_fixed p \<bar>a\<bar>"
| "fmt_fixed show_plus p PInf = (if show_plus then ''+inf'' else ''inf'')"
| "fmt_fixed show_plus p NInf = ''-inf''"
| "fmt_fixed show_plus p NaN = ''NaN''"

section \<open>Facts\<close>

lemma pow2_pos [simp]: "0 < pow2 e"
  by (simp add: pow2_def zero_less_power_int)

lemma pow2_nonzero [simp]: "pow2 e \<noteq> 0"
  using pow2_pos [of e] by linarith

lemma pow2_add: "pow2 (a + b) = pow2 a * pow2 b"
  by (simp add: pow2_def power_int_add)

lemma pow2_diff: "pow2 (a - b) = pow2 a / pow2 b"
  by (simp add: pow2_def power_int_diff)

lemma pow2_nat: "pow2 (int n) = 2 ^ n"
  by (simp add: pow2_def)

lemma pow2_less_iff [simp]: "pow2 a < pow2 b \<longleftrightarrow> a < b"
proof -
  have mono: "x < y \<Longrightarrow> pow2 x < pow2 y" for x y
    unfolding pow2_def by (rule power_int_strict_increasing) simp_all
  show ?thesis using mono [of a b] mono [of b a] by (cases a b rule: linorder_cases) auto
qed

lemma pow2_le_iff [simp]: "pow2 a \<le> pow2 b \<longleftrightarrow> a \<le> b"
  using pow2_less_iff [of b a] by linarith

text \<open>\<open>ilog2\<close> is the position of the leading bit, and the only number with that property.\<close>

lemma ilog2_correct:
  assumes "0 < a" shows "pow2 (ilog2 a) \<le> a \<and> a < pow2 (ilog2 a + 1)"
proof -
  obtain n d where nd: "quotient_of a = (n, d)" by fastforce
  have d: "0 < d" using nd by (rule quotient_of_denom_pos)
  have a: "a = of_int n / of_int d" using nd by (rule quotient_of_div)
  have n: "0 < n" using assms a d by (simp add: zero_less_divide_iff)
  let ?N = "floorlog 2 (nat n)" and ?D = "floorlog 2 (nat d)"
  have bounds: "x > 0 \<Longrightarrow> pow2 (int (floorlog 2 (nat x)) - 1) \<le> of_int x \<and> of_int x < pow2 (int (floorlog 2 (nat x)))"
    for x :: int
  proof -
    assume x: "x > 0"
    then have b: "2 ^ (floorlog 2 (nat x) - 1) \<le> nat x \<and> nat x < 2 ^ floorlog 2 (nat x)"
      using floorlog_bounds [of "nat x" 2] by simp
    have k: "0 < floorlog 2 (nat x)" using x by (simp add: floorlog_def)
    have e: "of_int x = (of_nat (nat x) :: rat)" using x by simp
    have "(2 :: rat) ^ (floorlog 2 (nat x) - 1) \<le> of_nat (nat x)"
      using b by (metis of_nat_le_iff of_nat_numeral of_nat_power)
    moreover have "of_nat (nat x) < (2 :: rat) ^ floorlog 2 (nat x)"
      using b by (metis of_nat_less_iff of_nat_numeral of_nat_power)
    moreover have "int (floorlog 2 (nat x)) - 1 = int (floorlog 2 (nat x) - 1)" using k by simp
    ultimately show ?thesis unfolding e pow2_nat by (metis pow2_nat)
  qed
  have lo: "pow2 (int ?N - int ?D - 1) < a"
  proof -
    have "pow2 (int ?N - 1) / pow2 (int ?D) < of_int n / of_int d"
      using bounds [OF n] bounds [OF d] d n by (intro frac_less2) auto
    then show ?thesis using a by (simp add: pow2_diff [symmetric] algebra_simps)
  qed
  have hi: "a < pow2 (int ?N - int ?D + 1)"
  proof -
    have "of_int n / of_int d < pow2 (int ?N) / pow2 (int ?D - 1)"
      using bounds [OF n] bounds [OF d] d n by (intro frac_less) auto
    then show ?thesis using a by (simp add: pow2_diff [symmetric] algebra_simps)
  qed
  show ?thesis using lo hi by (auto simp: ilog2_def nd Let_def less_imp_le)
qed

lemma ilog2_unique:
  assumes "pow2 e \<le> a" "a < pow2 (e + 1)" shows "ilog2 a = e"
proof -
  have "0 < a" using assms(1) pow2_pos [of e] by linarith
  then have c: "pow2 (ilog2 a) \<le> a" "a < pow2 (ilog2 a + 1)" using ilog2_correct by auto
  have "pow2 e < pow2 (ilog2 a + 1)" "pow2 (ilog2 a) < pow2 (e + 1)" using c assms by linarith+
  then show ?thesis by simp
qed

lemma round_half_even_nonneg: "0 \<le> x \<Longrightarrow> 0 \<le> round_half_even x"
  by (simp add: round_half_even_def Let_def)

lemma round_half_even_int [simp]: "round_half_even (of_int i) = i"
  by (simp add: round_half_even_def)

lemma round_half_even_nearest: "\<bar>x - of_int m\<bar> < 1 / 2 \<Longrightarrow> round_half_even x = m"
proof -
  assume h: "\<bar>x - of_int m\<bar> < 1 / 2"
  show ?thesis
  proof (cases "of_int m \<le> x")
    case True
    with h have "\<lfloor>x\<rfloor> = m" by (intro floor_unique) (auto simp: abs_less_iff)
    with h True show ?thesis by (simp add: round_half_even_def)
  next
    case False
    with h have "\<lfloor>x\<rfloor> = m - 1" by (intro floor_unique) (auto simp: abs_less_iff)
    with h False show ?thesis by (auto simp: round_half_even_def abs_less_iff)
  qed
qed

lemma floor_numeral_div [simp]:
  "\<lfloor>(numeral a :: rat) / numeral b\<rfloor> = numeral a div numeral b"
  "\<lfloor>(1 :: rat) / numeral b\<rfloor> = 1 div numeral b"
  by (metis floor_divide_of_int_eq of_int_numeral)
     (metis floor_divide_of_int_eq of_int_numeral of_int_1)

lemma round_half_even_error: "\<bar>of_int (round_half_even x) - x\<bar> \<le> 1 / 2"
proof -
  have "of_int \<lfloor>x\<rfloor> \<le> x" "x < of_int \<lfloor>x\<rfloor> + 1" by linarith+
  then show ?thesis by (auto simp: round_half_even_def Let_def abs_le_iff)
qed

text \<open>Rounding keeps signs: a non-negative number never becomes negative or a NaN.\<close>

lemma round_f64_nonneg:
  assumes "0 \<le> r" shows "round_f64 r = PInf \<or> (\<exists>v. 0 \<le> v \<and> round_f64 r = Fin v)"
proof (cases "r = 0")
  case True
  then show ?thesis by (simp add: round_f64_def)
next
  case False
  let ?q = "pow2 (ulp_exp \<bar>r\<bar>)"
  have "0 \<le> \<bar>r\<bar> / ?q" by (simp add: less_imp_le)
  then have "0 \<le> round_half_even (\<bar>r\<bar> / ?q)" by (rule round_half_even_nonneg)
  then have "0 \<le> of_int (round_half_even (\<bar>r\<bar> / ?q)) * ?q" by (simp add: less_imp_le)
  with False assms show ?thesis by (auto simp: round_f64_def Let_def)
qed

text \<open>Numbers with at most 53 significant bits are represented exactly; in particular small integers.\<close>

lemma round_f64_exact:
  assumes "r = of_int m * pow2 e" "\<bar>m\<bar> < 2 ^ 53" "- 1074 \<le> e" "e \<le> 900"
  shows "round_f64 r = Fin r"
proof (cases "m = 0")
  case True
  then show ?thesis using assms by (simp add: round_f64_def)
next
  case False
  let ?a = "\<bar>r\<bar>" and ?l = "ilog2 \<bar>r\<bar>"
  define u where "u = ulp_exp \<bar>r\<bar>"
  have a: "?a = of_int \<bar>m\<bar> * pow2 e" using assms(1) by (simp add: abs_mult less_imp_le)
  have pos: "0 < ?a" using a False by simp
  have m53: "of_int \<bar>m\<bar> < (2 :: rat) ^ 53"
    using assms(2) by (metis of_int_less_iff of_int_numeral of_int_power)
  have "?a < pow2 53 * pow2 e" using a m53 by (simp add: pow2_def)
  then have hi: "?a < pow2 (e + 53)" by (simp add: pow2_add mult.commute)
  have "pow2 ?l \<le> ?a" using ilog2_correct [OF pos] by simp
  then have "pow2 ?l < pow2 (e + 53)" using hi by linarith
  then have le: "u \<le> e" using assms(3) by (simp add: u_def ulp_exp_def)
  then have k: "pow2 e = of_int (2 ^ nat (e - u)) * pow2 u"
    using pow2_add [of "int (nat (e - u))" u] unfolding pow2_nat by simp
  have q: "?a / pow2 u = of_int (\<bar>m\<bar> * 2 ^ nat (e - u))"
    unfolding a k by simp
  have "e + 53 \<le> 1024" using assms(4) by simp
  then have "pow2 (e + 53) \<le> pow2 1024" by simp
  with hi have fin: "?a < pow2 1024" by linarith
  have "of_int (round_half_even (?a / pow2 u)) * pow2 u = ?a"
    unfolding q round_half_even_int using a k by simp
  then have v: "of_int (round_half_even (?a / pow2 (ulp_exp ?a))) * pow2 (ulp_exp ?a) = ?a"
    by (simp add: u_def)
  from pos have "r \<noteq> 0" by simp
  with fin show ?thesis
    unfolding round_f64_def Let_def v by auto
qed

lemma f64_of_nat_exact: "n < 2 ^ 53 \<Longrightarrow> f64_of_nat n = Fin (of_nat n)"
  unfolding f64_of_nat_def
  by (rule round_f64_exact [of _ "int n" 0]) (simp_all add: pow2_def)

lemma f64_of_int_exact: "\<bar>i\<bar> < 2 ^ 53 \<Longrightarrow> f64_of_int i = Fin (of_int i)"
  unfolding f64_of_int_def
  by (rule round_f64_exact [of _ i 0]) (simp_all add: pow2_def)

text \<open>Evaluation of a rounding whose leading bit is known.\<close>

lemma round_f64_eval:
  assumes "0 < r" "pow2 e \<le> r" "r < pow2 (e + 1)" "- 1022 \<le> e" "e < 1023"
  shows "round_f64 r = Fin (of_int (round_half_even (r / pow2 (e - 52))) * pow2 (e - 52))"
proof -
  let ?m = "round_half_even (r / pow2 (e - 52))"
  have u: "ulp_exp \<bar>r\<bar> = e - 52"
    using assms ilog2_unique [of e r] by (simp add: ulp_exp_def)
  have "r / pow2 (e - 52) < pow2 (e + 1) / pow2 (e - 52)"
    using assms(3) by (simp add: divide_strict_right_mono)
  also have "\<dots> = pow2 53" by (simp add: pow2_diff [symmetric])
  finally have lt: "r / pow2 (e - 52) < 2 ^ 53" by (simp add: pow2_def)
  have "of_int ?m \<le> (2 :: rat) ^ 53 + 1 / 2"
    using round_half_even_error [of "r / pow2 (e - 52)"] lt by linarith
  then have "of_int ?m < (of_int (2 ^ 53 + 1) :: rat)" by simp
  then have "?m \<le> 2 ^ 53" by (simp only: of_int_less_iff)
  then have "of_int ?m \<le> (2 :: rat) ^ 53" by (metis of_int_le_iff of_int_numeral of_int_power)
  then have "of_int ?m * pow2 (e - 52) \<le> pow2 53 * pow2 (e - 52)"
    by (simp add: pow2_def)
  also have "\<dots> = pow2 (e + 1)" by (simp add: pow2_add [symmetric] add.commute)
  also have "\<dots> < pow2 1024" using assms(5) by simp
  finally show ?thesis using assms(1) u by (simp add: round_f64_def Let_def)
qed

lemma round_f64_not_NaN [simp]: "round_f64 r \<noteq> NaN"
  by (simp add: round_f64_def Let_def)

lemma f64_to_uint_le: "f64_to_uint mx x \<le> mx"
  by (cases x) auto

lemma f64_lt_irrefl [simp]: "\<not> f64_lt x x"
  by (cases x) auto

lemma f64_lt_finite: "f64_lt (Fin 0) (Fin v) \<longleftrightarrow> 0 < v"
  by simp

end
