(* ===== verification/Market.thy ===== *)
theory Market
  imports F64
begin

text \<open>
  The market data the bot reads and the market library it calls.

  The types of \<open>templar_common\<close> (not under src/) appear with exactly the fields the code reads. Its
  functions are the fields of the parameter record \<open>market_lib\<close>: the fixed-point type \<open>Decimal\<close>
  (\<open>'d\<close>) with its operators, the price pair (\<open>'p\<close>) and the calculations of the market contract. An
  operator of \<open>Decimal\<close> that may panic returns \<open>None\<close> for the panic. Nothing is assumed about any of
  them unless a lemma says so.

  The second part is the NEP-330 version of src/scanner.rs (\<open>MarketVersion\<close>), which selects full or
  partial liquidation.
\<close>

section \<open>Data of the market library\<close>

type_synonym account_id = string
type_synonym asset = string \<comment> \<open>a \<open>FungibleAsset\<close>, named by its rendering\<close>
type_synonym price_id = string \<comment> \<open>the 32 bytes of a \<open>PriceIdentifier\<close>\<close>

record price =
  price_mantissa :: int
  price_expo :: int

text \<open>A whole \<open>pyth::Price\<close>: the fetchers fill all of it, the liquidator reads the first two fields.\<close>

record pyth_price = price +
  price_conf :: nat
  publish_time :: int \<comment> \<open>seconds\<close>

text \<open>\<open>OracleResponse\<close> is a \<open>HashMap<PriceIdentifier, Option<Price>>\<close>.\<close>

type_synonym oracle_response = "price_id \<rightharpoonup> price option"

record oracle_configuration =
  oracle_account_id :: account_id
  collateral_asset_price_id :: price_id
  collateral_asset_decimals :: int
  borrow_asset_price_id :: price_id
  borrow_asset_decimals :: int
  price_maximum_age_s :: nat

record 'd market_configuration =
  price_oracle_configuration :: oracle_configuration
  borrow_asset :: asset
  collateral_asset :: asset
  borrow_mcr_maintenance :: 'd
  borrow_mcr_liquidation :: 'd
  borrow_range_minimum :: nat
  liquidation_maximum_spread :: 'd

record borrow_position =
  collateral_asset_deposit :: nat
  total_borrow_asset_liability :: nat
  started_at_block_timestamp_ms :: "nat option"

datatype borrow_status = Healthy | MaintenanceRequired | Liquidation string

record ('d, 'p) market_lib =
  dec_one :: 'd
  dec_from_u128 :: "nat \<Rightarrow> 'd"
  dec_sub :: "'d \<Rightarrow> 'd \<Rightarrow> 'd option"
  dec_mul :: "'d \<Rightarrow> 'd \<Rightarrow> 'd option"
  dec_div :: "'d \<Rightarrow> 'd \<Rightarrow> 'd option"
  dec_to_u128_floor :: "'d \<Rightarrow> nat option"
  dec_to_u128_ceil :: "'d \<Rightarrow> nat option"
  convert_collateral :: "'p \<Rightarrow> nat \<Rightarrow> 'd"
  create_price_pair :: "oracle_configuration \<Rightarrow> oracle_response \<Rightarrow> string + 'p"
  liquidatable_collateral :: "borrow_position \<Rightarrow> 'p \<Rightarrow> 'd \<Rightarrow> 'd \<Rightarrow> nat"
  collateralization_ratio :: "borrow_position \<Rightarrow> 'p \<Rightarrow> 'd option"
  config_borrow_status :: "'d market_configuration \<Rightarrow> 'd option \<Rightarrow> nat option \<Rightarrow> nat \<Rightarrow> borrow_status"

section \<open>Contract versions (src/scanner.rs)\<close>

datatype market_version = MarketVersion (major: nat) (minor: nat) (patch: nat)

instantiation market_version :: linorder
begin
definition less_eq_market_version :: "market_version \<Rightarrow> market_version \<Rightarrow> bool" where
  "less_eq_market_version a b \<longleftrightarrow>
     major a < major b \<or> major a = major b \<and>
       (minor a < minor b \<or> minor a = minor b \<and> patch a \<le> patch b)"
definition less_market_version :: "market_version \<Rightarrow> market_version \<Rightarrow> bool" where
  "less_market_version a b \<longleftrightarrow> a \<le> b \<and> \<not> b \<le> (a :: market_version)"
instance
  by standard (auto simp: less_eq_market_version_def less_market_version_def market_version.expand)
end

definition MIN_SUPPORTED :: market_version where
  "MIN_SUPPORTED = MarketVersion 1 0 0"

definition MIN_PARTIAL_LIQUIDATION :: market_version where
  "MIN_PARTIAL_LIQUIDATION = MarketVersion 1 1 0"

definition market_version_parse :: "string \<Rightarrow> market_version option" where
  "market_version_parse version =
     (case split_on (\<lambda>c. c = CHR ''.'') version of
        a # b # c # rest \<Rightarrow>
          (case parse_uint u32_max a of None \<Rightarrow> None
           | Some ma \<Rightarrow> (case parse_uint u32_max b of None \<Rightarrow> None
           | Some mi \<Rightarrow> (case parse_uint u32_max c of None \<Rightarrow> None
           | Some pa \<Rightarrow> if rest \<noteq> [] then None else Some (MarketVersion ma mi pa))))
      | _ \<Rightarrow> None)"

definition market_version_display :: "market_version \<Rightarrow> string" where
  "market_version_display v =
     show_nat (major v) @ ''.'' @ show_nat (minor v) @ ''.'' @ show_nat (patch v)"

definition version_supports_partial_liquidation :: "market_version \<Rightarrow> bool" where
  "version_supports_partial_liquidation v \<longleftrightarrow> MIN_PARTIAL_LIQUIDATION \<le> v"

definition supports_partial_liquidation :: "market_version option \<Rightarrow> bool" where
  "supports_partial_liquidation version =
     (case version of None \<Rightarrow> False | Some v \<Rightarrow> version_supports_partial_liquidation v)"

text \<open>Every \<open>u32\<close> version survives a round trip through its rendering.\<close>

lemma digit_not_dot: "c \<in> set (show_nat n) \<Longrightarrow> c \<noteq> CHR ''.''"
  by (drule show_nat_digit) (auto simp: is_digit_def byte_def)

lemma split_version:
  "split_on (\<lambda>c. c = CHR ''.'') (show_nat a @ CHR ''.'' # show_nat b @ CHR ''.'' # show_nat c) =
     [show_nat a, show_nat b, show_nat c]"
  by (simp add: split_on_append split_on_all digit_not_dot)

lemma parse_display:
  assumes "major v \<le> u32_max" "minor v \<le> u32_max" "patch v \<le> u32_max"
  shows "market_version_parse (market_version_display v) = Some v"
  using assms by (simp add: market_version_parse_def market_version_display_def split_version
      parse_uint_show_nat)

text \<open>A version that parses has exactly three segments, each within \<open>u32\<close>.\<close>

lemma parse_uint_le: "parse_uint mx s = Some n \<Longrightarrow> n \<le> mx"
  by (auto simp: parse_uint_def Let_def split: if_splits)

lemma parse_in_range:
  "market_version_parse s = Some v \<Longrightarrow>
   major v \<le> u32_max \<and> minor v \<le> u32_max \<and> patch v \<le> u32_max
   \<and> length (split_on (\<lambda>c. c = CHR ''.'') s) = 3"
  by (auto simp: market_version_parse_def dest!: parse_uint_le
      split: list.splits option.splits if_splits)

lemma supports_partial_None [simp]: "\<not> supports_partial_liquidation None"
  by (simp add: supports_partial_liquidation_def)

end
