(* ===== verification/Errors.thy ===== *)
theory Errors
  imports Prelude
begin

text \<open>
  The error taxonomy: src/rpc.rs (\<open>RpcError\<close>, \<open>AppError\<close>, the token matchers and the conversion of
  a gateway error) and the error half of src/liquidator.rs (\<open>LiquidatorError\<close>, its phase, its
  notification bucket and its rendering). A foreign error (a gateway error, a JSON-RPC error, a
  serde error) is the text it renders to, which is all the code reads of it, except the contract
  execution failure of a view call, whose \<open>vm_error\<close> the code inspects. Case folding is ASCII; a
  non-ASCII byte is no alphanumeric character, so it separates tokens.
\<close>

section \<open>RPC errors (src/rpc.rs)\<close>

datatype query_error =
    ContractExecutionError string string \<comment> \<open>\<open>vm_error\<close> and the rendering of the whole error\<close>
  | OtherQueryError string

datatype rpc_error =
    ViewMethodError query_error
  | AccessKeyDataRpcError query_error
  | WrongResponseKind string
  | SendTransactionError string
  | DeserializeError string
  | TimeoutError string
  | NoOutcome string

datatype app_error =
    RpcFailure rpc_error
  | ValidationError string
  | SerializationError string

definition has_error_token :: "string \<Rightarrow> string \<Rightarrow> bool" where
  "has_error_token text token \<longleftrightarrow>
     token \<in> set (split_on (\<lambda>c. \<not> is_alnum c) (to_lower (trim text)))"

definition message_indicates_rate_limit :: "string \<Rightarrow> bool" where
  "message_indicates_rate_limit message \<longleftrightarrow>
     has_error_token message ''429''
     \<or> has_error_token message ''toomanyrequests''
     \<or> contains (to_lower message) ''rate limit''"

fun is_method_not_found :: "rpc_error \<Rightarrow> bool" where
  "is_method_not_found (ViewMethodError (ContractExecutionError vm_error _)) \<longleftrightarrow>
     has_error_token vm_error ''methodnotfound'' \<or> has_error_token vm_error ''methodresolveerror''"
| "is_method_not_found _ \<longleftrightarrow> False"

definition gateway_is_method_not_found :: "string \<Rightarrow> bool" where
  "gateway_is_method_not_found message \<longleftrightarrow>
     has_error_token message ''methodnotfound'' \<or> has_error_token message ''methodresolveerror''"

definition rpc_error_from_gateway :: "string \<Rightarrow> rpc_error" where
  "rpc_error_from_gateway message =
     (let lowered = to_lower message
      in if contains lowered ''timeout'' \<or> contains lowered ''timed out''
         then TimeoutError message else WrongResponseKind message)"

fun query_error_to_string :: "query_error \<Rightarrow> string" where
  "query_error_to_string (ContractExecutionError _ r) = r"
| "query_error_to_string (OtherQueryError r) = r"

fun rpc_error_to_string :: "rpc_error \<Rightarrow> string" where
  "rpc_error_to_string (ViewMethodError e) = ''Failed to query view method: '' @ query_error_to_string e"
| "rpc_error_to_string (AccessKeyDataRpcError e) = ''Failed to get access key data: '' @ query_error_to_string e"
| "rpc_error_to_string (WrongResponseKind m) = ''Got wrong response kind from RPC: '' @ m"
| "rpc_error_to_string (SendTransactionError m) = ''Failed to send transaction: '' @ m"
| "rpc_error_to_string (DeserializeError m) = ''Failed to deserialize response: '' @ m"
| "rpc_error_to_string (TimeoutError m) = ''Timeout exceeded: '' @ m"
| "rpc_error_to_string (NoOutcome m) = ''No outcome for transaction: '' @ m"

fun app_error_to_string :: "app_error \<Rightarrow> string" where
  "app_error_to_string (RpcFailure e) = ''RPC error: '' @ rpc_error_to_string e"
| "app_error_to_string (ValidationError m) = ''Validation error: '' @ m"
| "app_error_to_string (SerializationError m) = ''Serialization error: '' @ m"

section \<open>Liquidator errors (src/liquidator.rs)\<close>

datatype liquidator_error =
    FetchBorrowStatus rpc_error
  | SerializeError string
  | PricePairError string
  | SwapProviderError app_error
  | GetConfigurationError rpc_error
  | PriceFetchError rpc_error
  | OracleUpdateError string
  | AccessKeyDataError rpc_error
  | LiquidationTransactionError rpc_error
  | TransactionFailed string
  | MissingTransactionHash string
  | ListBorrowPositionsError rpc_error
  | FetchBalanceError rpc_error
  | ListDeploymentsError rpc_error
  | StrategyError string
  | InsufficientBalance
  | NoMarkets

datatype error_phase = Scan | Preparation | Execution

fun error_phase_as_str :: "error_phase \<Rightarrow> string" where
  "error_phase_as_str Scan = ''scan''"
| "error_phase_as_str Preparation = ''preparation''"
| "error_phase_as_str Execution = ''execution''"

fun phase :: "liquidator_error \<Rightarrow> error_phase" where
  "phase (FetchBorrowStatus _) = Scan"
| "phase (PricePairError _) = Scan"
| "phase (PriceFetchError _) = Scan"
| "phase (ListBorrowPositionsError _) = Scan"
| "phase (ListDeploymentsError _) = Scan"
| "phase (GetConfigurationError _) = Scan"
| "phase (FetchBalanceError _) = Scan"
| "phase NoMarkets = Scan"
| "phase (AccessKeyDataError _) = Preparation"
| "phase (SerializeError _) = Preparation"
| "phase (StrategyError _) = Preparation"
| "phase InsufficientBalance = Preparation"
| "phase (OracleUpdateError _) = Preparation"
| "phase (LiquidationTransactionError _) = Execution"
| "phase (TransactionFailed _) = Execution"
| "phase (MissingTransactionHash _) = Execution"
| "phase (SwapProviderError _) = Execution"

datatype notification_kind =
    KExcessiveLiquidation | KOfferTooLow | KNotEligible | KValueCalcFailure | KTxTimeout
  | KTxFailedOther | KTxSubmissionError | KSwapError | KFetchBorrowStatus | KPricePair
  | KPriceFetch | KListPositions | KListDeployments | KGetConfiguration | KFetchBalance
  | KAccessKey | KSerialize | KStrategy | KInsufficientBalance | KOracleUpdate | KNoMarkets

fun notification_kind_as_str :: "notification_kind \<Rightarrow> string" where
  "notification_kind_as_str KExcessiveLiquidation = ''excessive_liquidation''"
| "notification_kind_as_str KOfferTooLow = ''offer_too_low''"
| "notification_kind_as_str KNotEligible = ''not_eligible''"
| "notification_kind_as_str KValueCalcFailure = ''value_calc_failure''"
| "notification_kind_as_str KTxTimeout = ''tx_timeout''"
| "notification_kind_as_str KTxFailedOther = ''tx_failed_other''"
| "notification_kind_as_str KTxSubmissionError = ''tx_submission_error''"
| "notification_kind_as_str KSwapError = ''swap_error''"
| "notification_kind_as_str KFetchBorrowStatus = ''fetch_borrow_status''"
| "notification_kind_as_str KPricePair = ''price_pair''"
| "notification_kind_as_str KPriceFetch = ''price_fetch''"
| "notification_kind_as_str KListPositions = ''list_positions''"
| "notification_kind_as_str KListDeployments = ''list_deployments''"
| "notification_kind_as_str KGetConfiguration = ''get_configuration''"
| "notification_kind_as_str KFetchBalance = ''fetch_balance''"
| "notification_kind_as_str KAccessKey = ''access_key''"
| "notification_kind_as_str KSerialize = ''serialize''"
| "notification_kind_as_str KStrategy = ''strategy''"
| "notification_kind_as_str KInsufficientBalance = ''insufficient_balance''"
| "notification_kind_as_str KOracleUpdate = ''oracle_update''"
| "notification_kind_as_str KNoMarkets = ''no_markets''"

definition classify_transaction_failure :: "string \<Rightarrow> notification_kind" where
  "classify_transaction_failure msg =
     (if contains msg ''Attempt to liquidate more collateral'' then KExcessiveLiquidation
      else if contains msg ''Liquidation offer too low'' then KOfferTooLow
      else if contains msg ''not eligible for liquidation'' then KNotEligible
      else if contains msg ''Failed to calculate value of collateral'' then KValueCalcFailure
      else if contains msg ''Timeout'' \<or> contains msg ''timeout'' then KTxTimeout
      else KTxFailedOther)"

fun notification_kind_of :: "liquidator_error \<Rightarrow> notification_kind" where
  "notification_kind_of (TransactionFailed msg) = classify_transaction_failure msg"
| "notification_kind_of (LiquidationTransactionError (TimeoutError _)) = KTxTimeout"
| "notification_kind_of (LiquidationTransactionError _) = KTxSubmissionError"
| "notification_kind_of (MissingTransactionHash _) = KTxSubmissionError"
| "notification_kind_of (SwapProviderError _) = KSwapError"
| "notification_kind_of (FetchBorrowStatus _) = KFetchBorrowStatus"
| "notification_kind_of (PricePairError _) = KPricePair"
| "notification_kind_of (PriceFetchError _) = KPriceFetch"
| "notification_kind_of (ListBorrowPositionsError _) = KListPositions"
| "notification_kind_of (ListDeploymentsError _) = KListDeployments"
| "notification_kind_of (GetConfigurationError _) = KGetConfiguration"
| "notification_kind_of (FetchBalanceError _) = KFetchBalance"
| "notification_kind_of (AccessKeyDataError _) = KAccessKey"
| "notification_kind_of (SerializeError _) = KSerialize"
| "notification_kind_of (StrategyError _) = KStrategy"
| "notification_kind_of InsufficientBalance = KInsufficientBalance"
| "notification_kind_of (OracleUpdateError _) = KOracleUpdate"
| "notification_kind_of NoMarkets = KNoMarkets"

fun liquidator_error_to_string :: "liquidator_error \<Rightarrow> string" where
  "liquidator_error_to_string (FetchBorrowStatus e) = ''Failed to fetch borrow status: '' @ rpc_error_to_string e"
| "liquidator_error_to_string (SerializeError m) = ''Failed to serialize data: '' @ m"
| "liquidator_error_to_string (PricePairError m) = ''Price pair retrieval error: '' @ m"
| "liquidator_error_to_string (SwapProviderError e) = ''Swap provider error: '' @ app_error_to_string e"
| "liquidator_error_to_string (GetConfigurationError e) = ''Failed to get market configuration: '' @ rpc_error_to_string e"
| "liquidator_error_to_string (PriceFetchError e) = ''Failed to fetch oracle prices: '' @ rpc_error_to_string e"
| "liquidator_error_to_string (OracleUpdateError m) = ''Failed to update on-chain oracle prices: '' @ m"
| "liquidator_error_to_string (AccessKeyDataError e) = ''Failed to get access key data: '' @ rpc_error_to_string e"
| "liquidator_error_to_string (LiquidationTransactionError e) = ''Liquidation transaction error: '' @ rpc_error_to_string e"
| "liquidator_error_to_string (TransactionFailed m) = ''Transaction failed: '' @ m"
| "liquidator_error_to_string (MissingTransactionHash m) = ''Operation completed without a transaction hash: '' @ m"
| "liquidator_error_to_string (ListBorrowPositionsError e) = ''Failed to list borrow positions: '' @ rpc_error_to_string e"
| "liquidator_error_to_string (FetchBalanceError e) = ''Failed to fetch balance: '' @ rpc_error_to_string e"
| "liquidator_error_to_string (ListDeploymentsError e) = ''Failed to list deployments: '' @ rpc_error_to_string e"
| "liquidator_error_to_string (StrategyError m) = ''Strategy error: '' @ m"
| "liquidator_error_to_string InsufficientBalance = ''Insufficient balance for liquidation''"
| "liquidator_error_to_string NoMarkets = ''Registry refresh yielded zero supported markets''"

section \<open>Facts\<close>

text \<open>An alphanumeric text is one token: a code inside a longer id is not found.\<close>

lemma is_alnum_lower [simp]: "is_alnum (to_lower_char c) = is_alnum c"
  by (auto simp: to_lower_char_def is_alnum_def is_digit_def byte_def)

lemma not_space_alnum: "is_alnum c \<Longrightarrow> \<not> is_space c"
  by (auto simp: is_alnum_def is_space_def is_digit_def)

lemma trim_alnum: "list_all is_alnum s \<Longrightarrow> trim s = s"
proof -
  assume a: "list_all is_alnum s"
  have d: "list_all is_alnum t \<Longrightarrow> dropWhile is_space t = t" for t
    by (cases t) (auto dest: not_space_alnum)
  have "dropWhile is_space (rev s) = rev s" using a by (intro d) (simp add: list_all_iff)
  with d [OF a] show ?thesis by (simp add: trim_def)
qed

lemma has_error_token_alnum:
  assumes "list_all is_alnum s" shows "has_error_token s t \<longleftrightarrow> to_lower s = t"
proof -
  have "split_on (\<lambda>c. \<not> is_alnum c) (to_lower s) = [to_lower s]"
    using assms by (intro split_on_all) (auto simp: to_lower_def list_all_iff)
  then show ?thesis using trim_alnum [OF assms] by (auto simp: has_error_token_def)
qed

lemma notification_kind_as_str_inj: "notification_kind_as_str a = notification_kind_as_str b \<Longrightarrow> a = b"
  by (cases a; cases b; simp)

end
