(* ===== verification/Inventory.thy ===== *)
theory Inventory
  imports Market Errors
begin

text \<open>
  src/inventory.rs: the balances the bot may spend, the amounts reserved for liquidations in flight,
  and the reservation tokens that settle them.

  \<open>Instant\<close> is a number of milliseconds; the instants one refresh reads are the values of \<open>clk\<close>, in
  order. The gateway's balance query is the argument \<open>fetch\<close> (a gateway error is its rendering). The
  metrics sink is the gauge it holds: the last published reserved amount per asset.
  A Rust \<open>Reservation\<close> is affine (it moves into the one call that settles it); the step relation
  at the end keeps the multiset of tokens that are still unsettled.
\<close>

section \<open>Entries\<close>

record inventory_entry =
  ie_balance :: nat
  ie_reserved :: nat
  ie_last_updated :: nat

datatype inventory_error =
    InvFetchBalanceError rpc_error
  | InvInsufficientBalance nat nat \<comment> \<open>required, available\<close>
  | AssetNotTracked string
  | InvalidAsset string

fun inventory_error_to_string :: "inventory_error \<Rightarrow> string" where
  "inventory_error_to_string (InvFetchBalanceError e) = ''Failed to fetch balance: '' @ rpc_error_to_string e"
| "inventory_error_to_string (InvInsufficientBalance required av) =
     ''Insufficient available balance: required '' @ show_nat required @ '', available '' @ show_nat av"
| "inventory_error_to_string (AssetNotTracked a) = ''Asset not tracked: '' @ a"
| "inventory_error_to_string (InvalidAsset a) = ''Invalid asset specification: '' @ a"

fun liquidator_error_from_inventory :: "inventory_error \<Rightarrow> liquidator_error" where
  "liquidator_error_from_inventory (InvInsufficientBalance _ _) = InsufficientBalance"
| "liquidator_error_from_inventory e = StrategyError (inventory_error_to_string e)"

definition entry_available :: "inventory_entry \<Rightarrow> nat" where
  "entry_available e = sat_sub (ie_balance e) (ie_reserved e)"

definition entry_reserve :: "inventory_entry \<Rightarrow> nat \<Rightarrow> inventory_error + inventory_entry" where
  "entry_reserve e amount =
     (let available = entry_available e
      in if available < amount then Inl (InvInsufficientBalance amount available)
         else Inr (e\<lparr>ie_reserved := sat_add (ie_reserved e) amount\<rparr>))"

definition entry_release :: "inventory_entry \<Rightarrow> nat \<Rightarrow> inventory_entry" where
  "entry_release e amount = e\<lparr>ie_reserved := sat_sub (ie_reserved e) amount\<rparr>"

definition entry_consume :: "inventory_entry \<Rightarrow> nat \<Rightarrow> inventory_entry" where
  "entry_consume e amount = entry_release (e\<lparr>ie_balance := sat_sub (ie_balance e) amount\<rparr>) amount"

definition entry_update_balance :: "nat \<Rightarrow> inventory_entry \<Rightarrow> nat \<Rightarrow> inventory_entry" where
  "entry_update_balance now e new_balance = e\<lparr>ie_balance := new_balance, ie_last_updated := now\<rparr>"

definition empty_entry :: "nat \<Rightarrow> inventory_entry" where
  "empty_entry now = \<lparr>ie_balance = 0, ie_reserved = 0, ie_last_updated = now\<rparr>"

section \<open>The manager\<close>

record inventory_manager =
  inventory :: "(asset \<times> inventory_entry) list"
  collateral_inventory :: "(asset \<times> inventory_entry) list"
  min_refresh_interval :: nat
  last_full_refresh :: "nat option"
  manager_id :: nat
  metrics_gauge :: "(string \<rightharpoonup> nat) option"

record reservation =
  res_asset :: asset
  res_amount :: nat
  res_manager_id :: nat

text \<open>\<open>new\<close> draws the identity from the process-wide counter, which it returns incremented.\<close>

definition inventory_new :: "nat \<Rightarrow> inventory_manager \<times> nat" where
  "inventory_new next_manager_id =
     (\<lparr>inventory = [], collateral_inventory = [], min_refresh_interval = 30000,
       last_full_refresh = None, manager_id = next_manager_id, metrics_gauge = None\<rparr>,
      (next_manager_id + 1) mod (u64_max + 1))"

definition with_min_refresh_interval :: "inventory_manager \<Rightarrow> nat \<Rightarrow> inventory_manager" where
  "with_min_refresh_interval m interval = m\<lparr>min_refresh_interval := interval\<rparr>"

definition vacant_insert :: "nat \<Rightarrow> asset \<Rightarrow> (asset \<times> inventory_entry) list \<Rightarrow> (asset \<times> inventory_entry) list" where
  "vacant_insert now a ents =
     (case map_of ents a of Some _ \<Rightarrow> ents | None \<Rightarrow> AList.update a (empty_entry now) ents)"

definition discover_assets :: "nat \<Rightarrow> 'd market_configuration list \<Rightarrow> inventory_manager \<Rightarrow> inventory_manager" where
  "discover_assets now configs m =
     m\<lparr>inventory := fold (\<lambda>c. vacant_insert now (borrow_asset c)) configs (inventory m)\<rparr>"

definition discover_collateral_assets :: "nat \<Rightarrow> 'd market_configuration list \<Rightarrow> inventory_manager \<Rightarrow> inventory_manager" where
  "discover_collateral_assets now configs m =
     m\<lparr>collateral_inventory :=
         fold (\<lambda>c. vacant_insert now (collateral_asset c)) configs (collateral_inventory m)\<rparr>"

text \<open>The loop of \<open>refresh\<close> over the collected keys; \<open>i\<close> counts the instants already read.\<close>

fun refresh_loop :: "(nat \<Rightarrow> nat) \<Rightarrow> (asset \<Rightarrow> string + nat) \<Rightarrow> nat \<Rightarrow> asset list
    \<Rightarrow> (asset \<times> inventory_entry) list \<Rightarrow> nat \<Rightarrow> (asset \<times> inventory_entry) list \<times> nat" where
  "refresh_loop clk fetch i [] ents refreshed = (ents, refreshed)"
| "refresh_loop clk fetch i (a # rest) ents refreshed =
     (case fetch a of
        Inl _ \<Rightarrow> refresh_loop clk fetch (i + 1) rest ents refreshed
      | Inr bal \<Rightarrow>
          (case map_of ents a of
             None \<Rightarrow> refresh_loop clk fetch (i + 1) rest ents refreshed
           | Some e \<Rightarrow>
               refresh_loop clk fetch (i + 1) rest
                 (AList.update a (entry_update_balance (clk i) e bal) ents) (refreshed + 1)))"

definition refresh_throttled :: "nat \<Rightarrow> inventory_manager \<Rightarrow> bool" where
  "refresh_throttled now m =
     (case last_full_refresh m of None \<Rightarrow> False | Some t \<Rightarrow> now - t < min_refresh_interval m)"

definition refresh :: "(nat \<Rightarrow> nat) \<Rightarrow> (asset \<Rightarrow> string + nat) \<Rightarrow> inventory_manager \<Rightarrow> nat \<times> inventory_manager" where
  "refresh clk fetch m =
     (if refresh_throttled (clk 0) m then (0, m)
      else let keys = map fst (inventory m);
               (ents, refreshed) = refresh_loop clk fetch 1 keys (inventory m) 0
           in (refreshed, m\<lparr>inventory := ents, last_full_refresh := Some (clk (length keys + 1))\<rparr>))"

definition refresh_asset ::
    "nat \<Rightarrow> (asset \<Rightarrow> string + nat) \<Rightarrow> asset \<Rightarrow> inventory_manager
     \<Rightarrow> (inventory_error, unit) outcome \<times> inventory_manager" where
  "refresh_asset now fetch a m =
     (case fetch a of
        Inl e \<Rightarrow> (Err (InvFetchBalanceError (rpc_error_from_gateway e)), m)
      | Inr bal \<Rightarrow>
          (case map_of (inventory m) a of
             None \<Rightarrow> (Err (AssetNotTracked a), m)
           | Some e \<Rightarrow>
               (Ok (), m\<lparr>inventory := AList.update a (entry_update_balance now e bal) (inventory m)\<rparr>)))"

definition get_available_balance :: "inventory_manager \<Rightarrow> asset \<Rightarrow> nat" where
  "get_available_balance m a =
     (case map_of (inventory m) a of None \<Rightarrow> 0 | Some e \<Rightarrow> entry_available e)"

definition get_total_balance :: "inventory_manager \<Rightarrow> asset \<Rightarrow> nat" where
  "get_total_balance m a = (case map_of (inventory m) a of None \<Rightarrow> 0 | Some e \<Rightarrow> ie_balance e)"

definition get_reserved_balance :: "inventory_manager \<Rightarrow> asset \<Rightarrow> nat" where
  "get_reserved_balance m a = (case map_of (inventory m) a of None \<Rightarrow> 0 | Some e \<Rightarrow> ie_reserved e)"

definition set_metrics :: "(string \<rightharpoonup> nat) \<Rightarrow> inventory_manager \<Rightarrow> inventory_manager" where
  "set_metrics sink m = m\<lparr>metrics_gauge := Some sink\<rparr>"

definition publish_reserved :: "inventory_manager \<Rightarrow> asset \<Rightarrow> inventory_manager" where
  "publish_reserved m a =
     (case metrics_gauge m of
        None \<Rightarrow> m
      | Some g \<Rightarrow> m\<lparr>metrics_gauge := Some (g(a \<mapsto> get_reserved_balance m a))\<rparr>)"

definition reserve ::
    "inventory_manager \<Rightarrow> asset \<Rightarrow> nat \<Rightarrow> (inventory_error, reservation) outcome \<times> inventory_manager" where
  "reserve m a amount =
     (case map_of (inventory m) a of
        None \<Rightarrow> (Err (AssetNotTracked a), m)
      | Some e \<Rightarrow>
          (case entry_reserve e amount of
             Inl err \<Rightarrow> (Err err, m)
           | Inr e' \<Rightarrow>
               (Ok \<lparr>res_asset = a, res_amount = amount, res_manager_id = manager_id m\<rparr>,
                publish_reserved (m\<lparr>inventory := AList.update a e' (inventory m)\<rparr>) a)))"

definition issued :: "inventory_manager \<Rightarrow> reservation \<Rightarrow> bool" where
  "issued m r \<longleftrightarrow> res_manager_id r = manager_id m"

definition accept_token :: "inventory_manager \<Rightarrow> reservation \<Rightarrow> (asset \<times> nat) option" where
  "accept_token m r =
     (if res_manager_id r \<noteq> manager_id m then None else Some (res_asset r, res_amount r))"

definition release :: "inventory_manager \<Rightarrow> reservation \<Rightarrow> inventory_manager" where
  "release m r =
     (case accept_token m r of
        None \<Rightarrow> m
      | Some (a, amount) \<Rightarrow>
          publish_reserved
            (case map_of (inventory m) a of
               None \<Rightarrow> m
             | Some e \<Rightarrow> m\<lparr>inventory := AList.update a (entry_release e amount) (inventory m)\<rparr>) a)"

definition consume :: "inventory_manager \<Rightarrow> reservation \<Rightarrow> inventory_manager" where
  "consume m r =
     (case accept_token m r of
        None \<Rightarrow> m
      | Some (a, amount) \<Rightarrow>
          publish_reserved
            (case map_of (inventory m) a of
               None \<Rightarrow> m
             | Some e \<Rightarrow> m\<lparr>inventory := AList.update a (entry_consume e amount) (inventory m)\<rparr>) a)"

definition covers :: "reservation \<Rightarrow> asset \<Rightarrow> nat \<Rightarrow> bool" where
  "covers r a amount \<longleftrightarrow> res_asset r = a \<and> res_amount r = amount"

definition tracked_assets :: "inventory_manager \<Rightarrow> asset list" where
  "tracked_assets m = map fst (inventory m)"

record snapshot_entry =
  snap_asset :: string
  snap_total :: nat
  snap_available :: nat
  snap_reserved :: nat
  snap_last_updated_ago_ms :: nat

definition inventory_snapshot :: "nat \<Rightarrow> inventory_manager \<Rightarrow> snapshot_entry list" where
  "inventory_snapshot now m =
     map (\<lambda>(a, e). \<lparr>snap_asset = a, snap_total = ie_balance e, snap_available = entry_available e,
                    snap_reserved = ie_reserved e,
                    snap_last_updated_ago_ms = min (now - ie_last_updated e) u64_max\<rparr>) (inventory m)"

text \<open>\<open>refresh_collateral\<close>: never throttled; it also returns the non-zero balances it read.\<close>

fun refresh_collateral_loop :: "(nat \<Rightarrow> nat) \<Rightarrow> (asset \<Rightarrow> string + nat) \<Rightarrow> nat \<Rightarrow> asset list
    \<Rightarrow> (asset \<times> inventory_entry) list \<Rightarrow> (string \<times> nat) list
    \<Rightarrow> (asset \<times> inventory_entry) list \<times> (string \<times> nat) list" where
  "refresh_collateral_loop clk fetch i [] ents non_zero = (ents, non_zero)"
| "refresh_collateral_loop clk fetch i (a # rest) ents non_zero =
     (case fetch a of
        Inl _ \<Rightarrow> refresh_collateral_loop clk fetch (i + 1) rest ents non_zero
      | Inr bal \<Rightarrow>
          (case map_of ents a of
             None \<Rightarrow> refresh_collateral_loop clk fetch (i + 1) rest ents non_zero
           | Some e \<Rightarrow>
               refresh_collateral_loop clk fetch (i + 1) rest
                 (AList.update a (entry_update_balance (clk i) e bal) ents)
                 (if 0 < bal then AList.update a bal non_zero else non_zero)))"

definition refresh_collateral ::
    "(nat \<Rightarrow> nat) \<Rightarrow> (asset \<Rightarrow> string + nat) \<Rightarrow> inventory_manager
     \<Rightarrow> (string \<times> nat) list \<times> inventory_manager" where
  "refresh_collateral clk fetch m =
     (let (ents, non_zero) =
            refresh_collateral_loop clk fetch 0 (map fst (collateral_inventory m)) (collateral_inventory m) []
      in (non_zero, m\<lparr>collateral_inventory := ents\<rparr>))"

definition collateral_holdings :: "inventory_manager \<Rightarrow> (asset \<times> nat) list" where
  "collateral_holdings m =
     map (\<lambda>(a, e). (a, ie_balance e)) (filter (\<lambda>(_, e). 0 < ie_balance e) (collateral_inventory m))"

definition get_collateral_balances :: "inventory_manager \<Rightarrow> string \<rightharpoonup> nat" where
  "get_collateral_balances m = map_of (collateral_holdings m)"

section \<open>What the operations do to the three views\<close>

text \<open>The views of one asset: its balance, its reserved amount, what is available.\<close>

named_theorems ledger_views \<open>the views of a manager after an operation\<close>

lemma available_eq: "get_available_balance m a = get_total_balance m a - get_reserved_balance m a"
  by (simp add: get_available_balance_def get_total_balance_def get_reserved_balance_def
      entry_available_def sat_sub_def split: option.splits)

lemma publish_views [simp]:
  "inventory (publish_reserved m b) = inventory m"
  "collateral_inventory (publish_reserved m b) = collateral_inventory m"
  "manager_id (publish_reserved m b) = manager_id m"
  "get_total_balance (publish_reserved m b) a = get_total_balance m a"
  "get_reserved_balance (publish_reserved m b) a = get_reserved_balance m a"
  by (simp_all add: publish_reserved_def get_total_balance_def get_reserved_balance_def split: option.splits)

lemma views_update [simp]:
  "get_total_balance (m\<lparr>inventory := AList.update a e al\<rparr>) b =
     (if b = a then ie_balance e else get_total_balance (m\<lparr>inventory := al\<rparr>) b)"
  "get_reserved_balance (m\<lparr>inventory := AList.update a e al\<rparr>) b =
     (if b = a then ie_reserved e else get_reserved_balance (m\<lparr>inventory := al\<rparr>) b)"
  by (simp_all add: get_total_balance_def get_reserved_balance_def)

lemma inventory_self [simp]: "m\<lparr>inventory := inventory m\<rparr> = m"
  by simp

lemma reserve_cases:
  "reserve m a n =
     (case map_of (inventory m) a of
        None \<Rightarrow> (Err (AssetNotTracked a), m)
      | Some e \<Rightarrow>
          if get_available_balance m a < n then (Err (InvInsufficientBalance n (get_available_balance m a)), m)
          else (Ok \<lparr>res_asset = a, res_amount = n, res_manager_id = manager_id m\<rparr>,
                publish_reserved
                  (m\<lparr>inventory := AList.update a (e\<lparr>ie_reserved := sat_add (ie_reserved e) n\<rparr>) (inventory m)\<rparr>) a))"
  by (auto simp: reserve_def entry_reserve_def get_available_balance_def Let_def split: option.splits)

lemma reserve_Ok:
  assumes "reserve m a n = (Ok t, m')"
  shows "t = \<lparr>res_asset = a, res_amount = n, res_manager_id = manager_id m\<rparr>"
    and "n \<le> get_available_balance m a"
    and "manager_id m' = manager_id m"
    and "get_total_balance m' b = get_total_balance m b"
    and "get_reserved_balance m' b =
          (if b = a then sat_add (get_reserved_balance m a) n else get_reserved_balance m b)"
    and "map fst (inventory m') = map fst (inventory m)"
    and "a \<in> set (tracked_assets m)"
proof -
  from assms obtain e where e: "map_of (inventory m) a = Some e" "n \<le> get_available_balance m a"
    "t = \<lparr>res_asset = a, res_amount = n, res_manager_id = manager_id m\<rparr>"
    "m' = publish_reserved
       (m\<lparr>inventory := AList.update a (e\<lparr>ie_reserved := sat_add (ie_reserved e) n\<rparr>) (inventory m)\<rparr>) a"
    by (auto simp: reserve_cases split: option.splits if_splits)
  have in_keys: "a \<in> fst ` set (inventory m)" using map_of_SomeD [OF e(1)] by force
  from e show "t = \<lparr>res_asset = a, res_amount = n, res_manager_id = manager_id m\<rparr>"
    "n \<le> get_available_balance m a" "manager_id m' = manager_id m"
    "get_total_balance m' b = get_total_balance m b"
    "get_reserved_balance m' b =
      (if b = a then sat_add (get_reserved_balance m a) n else get_reserved_balance m b)"
    by (simp_all add: get_total_balance_def get_reserved_balance_def)
  show "map fst (inventory m') = map fst (inventory m)"
    using in_keys by (simp add: e(4) update_keys)
  show "a \<in> set (tracked_assets m)" using in_keys by (simp add: tracked_assets_def)
qed

lemma reserve_Err: "reserve m a n = (Err e, m') \<Longrightarrow> m' = m"
  by (auto simp: reserve_cases split: option.splits if_splits)

lemma reserve_not_Panic [simp]: "reserve m a n \<noteq> (Panic, m')"
  by (auto simp: reserve_cases split: option.splits)

lemma issued_keeps [simp]:
  "manager_id (release m t) = manager_id m" "manager_id (consume m t) = manager_id m"
  by (simp_all add: release_def consume_def split: option.splits)

lemma foreign_refused:
  assumes "\<not> issued m t" shows "release m t = m" "consume m t = m"
  using assms by (simp_all add: release_def consume_def accept_token_def issued_def)

lemma release_views:
  assumes "issued m t"
  shows "get_total_balance (release m t) b = get_total_balance m b"
    and "get_reserved_balance (release m t) b =
      (if b = res_asset t then get_reserved_balance m b - res_amount t else get_reserved_balance m b)"
    and "a \<in> set (tracked_assets (release m t)) \<longleftrightarrow> a \<in> set (tracked_assets m)"
  using assms
  by (auto simp: release_def accept_token_def issued_def entry_release_def sat_sub_def
      get_total_balance_def get_reserved_balance_def tracked_assets_def set_keys_update
      split: option.splits dest!: map_of_SomeD intro: rev_image_eqI)

lemma consume_views:
  assumes "issued m t"
  shows "get_total_balance (consume m t) b =
      (if b = res_asset t then get_total_balance m b - res_amount t else get_total_balance m b)"
    and "get_reserved_balance (consume m t) b =
      (if b = res_asset t then get_reserved_balance m b - res_amount t else get_reserved_balance m b)"
    and "a \<in> set (tracked_assets (consume m t)) \<longleftrightarrow> a \<in> set (tracked_assets m)"
  using assms
  by (auto simp: consume_def accept_token_def issued_def entry_consume_def entry_release_def sat_sub_def
      get_total_balance_def get_reserved_balance_def tracked_assets_def set_keys_update
      split: option.splits dest!: map_of_SomeD intro: rev_image_eqI)

lemmas settle_views [ledger_views] = release_views consume_views available_eq

section \<open>Refreshing and discovering\<close>

text \<open>A refresh writes balances it read and nothing else: no reservation is lost or made.\<close>

definition refreshed_from ::
    "(asset \<Rightarrow> string + nat) \<Rightarrow> asset list \<Rightarrow> (asset \<times> inventory_entry) list
     \<Rightarrow> (asset \<times> inventory_entry) list \<Rightarrow> bool" where
  "refreshed_from fetch keys ents ents' \<longleftrightarrow>
     map fst ents' = map fst ents
     \<and> (\<forall>a e'. map_of ents' a = Some e' \<longrightarrow>
          (\<exists>e. map_of ents a = Some e \<and> ie_reserved e' = ie_reserved e
            \<and> (ie_balance e' = ie_balance e \<or> a \<in> set keys \<and> fetch a = Inr (ie_balance e'))))"

lemma refreshed_from_mono:
  "refreshed_from fetch keys ents ents' \<Longrightarrow> set keys \<subseteq> set keys' \<Longrightarrow> refreshed_from fetch keys' ents ents'"
  unfolding refreshed_from_def by (meson subsetD)

lemma refreshed_from_write:
  assumes e: "map_of ents a = Some e" "ie_reserved e1 = ie_reserved e" "fetch a = Inr (ie_balance e1)"
    and r: "refreshed_from fetch rest (AList.update a e1 ents) ents'"
  shows "refreshed_from fetch (a # rest) ents ents'"
proof -
  have k: "map fst (AList.update a e1 ents) = map fst ents"
    using map_of_SomeD [OF e(1)] by (force simp: update_keys)
  have "\<exists>e0. map_of ents x = Some e0 \<and> ie_reserved e' = ie_reserved e0
      \<and> (ie_balance e' = ie_balance e0 \<or> x \<in> set (a # rest) \<and> fetch x = Inr (ie_balance e'))"
    if x: "map_of ents' x = Some e'" for x e'
  proof -
    from r x obtain e2 where e2: "map_of (AList.update a e1 ents) x = Some e2"
      "ie_reserved e' = ie_reserved e2"
      "ie_balance e' = ie_balance e2 \<or> x \<in> set rest \<and> fetch x = Inr (ie_balance e')"
      unfolding refreshed_from_def by blast
    show ?thesis using e e2 by (cases "x = a") auto
  qed
  with r k show ?thesis unfolding refreshed_from_def by simp
qed

lemma refresh_loop_props:
  "refresh_loop clk fetch i keys ents n = (ents', n') \<Longrightarrow>
     refreshed_from fetch keys ents ents' \<and> n \<le> n' \<and> n' \<le> n + length keys"
proof (induction clk fetch i keys ents n arbitrary: ents' n' rule: refresh_loop.induct)
  case (1 clk fetch i ents refreshed)
  then show ?case by (auto simp: refreshed_from_def)
next
  case (2 clk fetch i a rest ents refreshed)
  show ?case
  proof (cases "fetch a")
    case (Inl e)
    with "2.prems" have "refresh_loop clk fetch (i + 1) rest ents refreshed = (ents', n')" by simp
    from "2.IH"(1) [OF Inl this] show ?thesis by (auto elim: refreshed_from_mono)
  next
    case (Inr b)
    show ?thesis
    proof (cases "map_of ents a")
      case None
      with "2.prems" Inr have "refresh_loop clk fetch (i + 1) rest ents refreshed = (ents', n')" by simp
      from "2.IH"(2) [OF Inr None this] show ?thesis by (auto elim: refreshed_from_mono)
    next
      case (Some e)
      let ?e = "entry_update_balance (clk i) e b"
      have "refresh_loop clk fetch (i + 1) rest (AList.update a ?e ents) (refreshed + 1) = (ents', n')"
        using "2.prems" Inr Some by simp
      note IH = "2.IH"(3) [OF Inr Some this]
      from refreshed_from_write [OF Some _ _ conjunct1 [OF IH]] Inr IH
      show ?thesis by (auto simp: entry_update_balance_def)
    qed
  qed
qed

lemma refresh_loop_views:
  assumes "refresh_loop clk fetch i keys (inventory m) n = (ents', n')"
  shows "get_reserved_balance (m\<lparr>inventory := ents', last_full_refresh := l\<rparr>) a = get_reserved_balance m a"
    and "(\<And>b. fetch a = Inr b \<Longrightarrow> b \<le> u128_max) \<Longrightarrow> get_total_balance m a \<le> u128_max \<Longrightarrow>
         get_total_balance (m\<lparr>inventory := ents', last_full_refresh := l\<rparr>) a \<le> u128_max"
proof -
  note p = refresh_loop_props [OF assms]
  have dom: "map_of ents' a = None \<longleftrightarrow> map_of (inventory m) a = None"
    using p unfolding refreshed_from_def by (metis map_of_eq_None_iff set_map)
  have entry: "\<exists>e. map_of (inventory m) a = Some e \<and> ie_reserved e' = ie_reserved e
      \<and> (ie_balance e' = ie_balance e \<or> fetch a = Inr (ie_balance e'))"
    if "map_of ents' a = Some e'" for e'
    using p that unfolding refreshed_from_def by blast
  show "get_reserved_balance (m\<lparr>inventory := ents', last_full_refresh := l\<rparr>) a = get_reserved_balance m a"
    using dom entry by (cases "map_of ents' a") (force simp: get_reserved_balance_def)+
  assume "\<And>b. fetch a = Inr b \<Longrightarrow> b \<le> u128_max" "get_total_balance m a \<le> u128_max"
  then show "get_total_balance (m\<lparr>inventory := ents', last_full_refresh := l\<rparr>) a \<le> u128_max"
    using dom entry by (cases "map_of ents' a") (force simp: get_total_balance_def)+
qed

lemma tracked_iff: "a \<in> set (tracked_assets m) \<longleftrightarrow> map_of (inventory m) a \<noteq> None"
  by (simp add: tracked_assets_def map_of_eq_None_iff)

lemma vacant_insert_reserved:
  "get_reserved_balance (m\<lparr>inventory := vacant_insert now b ents\<rparr>) a
     = get_reserved_balance (m\<lparr>inventory := ents\<rparr>) a"
  "get_total_balance (m\<lparr>inventory := vacant_insert now b ents\<rparr>) a
     = get_total_balance (m\<lparr>inventory := ents\<rparr>) a"
  by (auto simp: vacant_insert_def get_reserved_balance_def get_total_balance_def empty_entry_def
      split: option.splits)

lemma discover_views [ledger_views]:
  "get_reserved_balance (discover_assets now configs m) a = get_reserved_balance m a"
  "get_total_balance (discover_assets now configs m) a = get_total_balance m a"
  "manager_id (discover_assets now configs m) = manager_id m"
proof -
  have "get_reserved_balance (m\<lparr>inventory := fold (\<lambda>c. vacant_insert now (borrow_asset c)) configs ents\<rparr>) a
        = get_reserved_balance (m\<lparr>inventory := ents\<rparr>) a \<and>
      get_total_balance (m\<lparr>inventory := fold (\<lambda>c. vacant_insert now (borrow_asset c)) configs ents\<rparr>) a
        = get_total_balance (m\<lparr>inventory := ents\<rparr>) a" for ents
    by (induction configs arbitrary: ents) (simp_all add: vacant_insert_reserved)
  then show "get_reserved_balance (discover_assets now configs m) a = get_reserved_balance m a"
    "get_total_balance (discover_assets now configs m) a = get_total_balance m a"
    by (simp_all add: discover_assets_def)
qed (simp add: discover_assets_def)

lemma discover_collateral_views [ledger_views]:
  "get_reserved_balance (discover_collateral_assets now configs m) a = get_reserved_balance m a"
  "get_total_balance (discover_collateral_assets now configs m) a = get_total_balance m a"
  "manager_id (discover_collateral_assets now configs m) = manager_id m"
  by (simp_all add: discover_collateral_assets_def get_reserved_balance_def get_total_balance_def)

lemma refresh_views [ledger_views]:
  "get_reserved_balance (snd (refresh clk fetch m)) a = get_reserved_balance m a"
  "manager_id (snd (refresh clk fetch m)) = manager_id m"
  by (auto simp: refresh_def Let_def refresh_loop_views split: prod.splits)

lemma refresh_balance_le:
  "(\<And>b. fetch a = Inr b \<Longrightarrow> b \<le> u128_max) \<Longrightarrow> get_total_balance m a \<le> u128_max \<Longrightarrow>
   get_total_balance (snd (refresh clk fetch m)) a \<le> u128_max"
  by (auto simp: refresh_def Let_def refresh_loop_views(2) split: prod.splits)

lemma refresh_asset_views [ledger_views]:
  "get_reserved_balance (snd (refresh_asset now fetch b m)) a = get_reserved_balance m a"
  "manager_id (snd (refresh_asset now fetch b m)) = manager_id m"
  by (auto simp: refresh_asset_def get_reserved_balance_def entry_update_balance_def
      split: sum.splits option.splits)

lemma refresh_asset_balance:
  "get_total_balance (snd (refresh_asset now fetch b m)) a =
     (if a = b \<and> b \<in> set (tracked_assets m)
      then (case fetch b of Inr v \<Rightarrow> v | Inl _ \<Rightarrow> get_total_balance m a) else get_total_balance m a)"
  by (auto simp: refresh_asset_def get_total_balance_def entry_update_balance_def tracked_iff
      split: sum.splits option.splits)

lemma refresh_collateral_views [ledger_views]:
  "get_reserved_balance (snd (refresh_collateral clk fetch m)) a = get_reserved_balance m a"
  "get_total_balance (snd (refresh_collateral clk fetch m)) a = get_total_balance m a"
  "manager_id (snd (refresh_collateral clk fetch m)) = manager_id m"
  by (simp_all add: refresh_collateral_def get_reserved_balance_def get_total_balance_def
      split: prod.splits)

section \<open>The reservation ledger as an interface\<close>

text \<open>
  What the executor relies on: a reservation adds to the reserved amount without touching the
  balance and never beyond what is available; releasing gives it back; consuming takes it out of
  both. \<open>limit\<close> is the largest amount the ledger can hold.
\<close>

locale reservation_ledger =
  fixes reserve_op :: "'m \<Rightarrow> 'a \<Rightarrow> nat \<Rightarrow> ('e, 't) outcome \<times> 'm"
    and release_op :: "'m \<Rightarrow> 't \<Rightarrow> 'm"
    and consume_op :: "'m \<Rightarrow> 't \<Rightarrow> 'm"
    and issued_by :: "'m \<Rightarrow> 't \<Rightarrow> bool"
    and token_covers :: "'t \<Rightarrow> 'a \<Rightarrow> nat \<Rightarrow> bool"
    and balance_of :: "'m \<Rightarrow> 'a \<Rightarrow> nat"
    and reserved_of :: "'m \<Rightarrow> 'a \<Rightarrow> nat"
    and limit :: nat
  assumes reserve_token: "reserve_op m a n = (Ok t, m') \<Longrightarrow> issued_by m' t \<and> token_covers t a n"
    and reserve_funded: "reserve_op m a n = (Ok t, m') \<Longrightarrow> n \<le> balance_of m a - reserved_of m a"
    and reserve_balance: "reserve_op m a n = (Ok t, m') \<Longrightarrow> balance_of m' = balance_of m"
    and reserve_reserved: "reserve_op m a n = (Ok t, m') \<Longrightarrow> balance_of m a \<le> limit \<Longrightarrow>
          reserved_of m a \<le> limit \<Longrightarrow> reserved_of m' = (reserved_of m)(a := reserved_of m a + n)"
    and release_law: "issued_by m t \<Longrightarrow> token_covers t a n \<Longrightarrow>
          balance_of (release_op m t) = balance_of m
          \<and> reserved_of (release_op m t) = (reserved_of m)(a := reserved_of m a - n)"
    and consume_law: "issued_by m t \<Longrightarrow> token_covers t a n \<Longrightarrow>
          balance_of (consume_op m t) = (balance_of m)(a := balance_of m a - n)
          \<and> reserved_of (consume_op m t) = (reserved_of m)(a := reserved_of m a - n)"
begin

lemma no_overcommit:
  assumes "reserve_op m a n = (Ok t, m')" "balance_of m a \<le> limit" "reserved_of m a \<le> limit" "0 < n"
  shows "reserved_of m' a \<le> balance_of m' a"
  using reserve_funded [OF assms(1)] reserve_balance [OF assms(1)] reserve_reserved [OF assms(1-3)] assms(4)
  by simp

lemma reserve_then_release:
  assumes "reserve_op m a n = (Ok t, m')" "balance_of m a \<le> limit" "reserved_of m a \<le> limit"
  shows "balance_of (release_op m' t) = balance_of m \<and> reserved_of (release_op m' t) = reserved_of m"
proof -
  from reserve_token [OF assms(1)] have "issued_by m' t" "token_covers t a n" by auto
  from release_law [OF this] show ?thesis
    by (simp add: reserve_balance [OF assms(1)] reserve_reserved [OF assms])
qed

lemma reserve_then_consume:
  assumes "reserve_op m a n = (Ok t, m')" "balance_of m a \<le> limit" "reserved_of m a \<le> limit"
  shows "balance_of (consume_op m' t) = (balance_of m)(a := balance_of m a - n)
    \<and> reserved_of (consume_op m' t) = reserved_of m"
proof -
  from reserve_token [OF assms(1)] have "issued_by m' t" "token_covers t a n" by auto
  from consume_law [OF this] show ?thesis
    by (simp add: reserve_balance [OF assms(1)] reserve_reserved [OF assms])
qed

end

interpretation ledger: reservation_ledger reserve release consume issued covers
    get_total_balance get_reserved_balance u128_max
proof unfold_locales
  fix m a n t m' assume r: "reserve m a n = (Ok t, m')"
  note R = reserve_Ok [OF r]
  show "issued m' t \<and> covers t a n" using R(1,3) by (simp add: issued_def covers_def)
  show "n \<le> get_total_balance m a - get_reserved_balance m a" using R(2) by (simp add: available_eq)
  show "get_total_balance m' = get_total_balance m" using R(4) by (simp add: fun_eq_iff)
  assume "get_total_balance m a \<le> u128_max" "get_reserved_balance m a \<le> u128_max"
  then have "get_reserved_balance m a + n \<le> u128_max" using R(2) unfolding available_eq by linarith
  then show "get_reserved_balance m' = (get_reserved_balance m)(a := get_reserved_balance m a + n)"
    using R(5) by (simp add: fun_eq_iff sat_add_def)
next
  fix m t a n assume "issued m t" "covers t a n"
  then show "get_total_balance (release m t) = get_total_balance m
      \<and> get_reserved_balance (release m t) = (get_reserved_balance m)(a := get_reserved_balance m a - n)"
    and "get_total_balance (consume m t) = (get_total_balance m)(a := get_total_balance m a - n)
      \<and> get_reserved_balance (consume m t) = (get_reserved_balance m)(a := get_reserved_balance m a - n)"
    by (auto simp: fun_eq_iff covers_def ledger_views)
qed

section \<open>Every interleaving of the operations\<close>

text \<open>
  The manager sits behind a lock, so its operations are atomic; the tasks that share it interleave
  them in any order. A state is the manager with the multiset of reservation tokens that were issued
  and are not yet settled. (Discovery reads only the asset of a configuration, so its decimal type is \<open>unit\<close>.)
\<close>

type_synonym ledger_state = "inventory_manager \<times> reservation multiset"

definition held :: "reservation multiset \<Rightarrow> asset \<Rightarrow> nat" where
  "held T a = sum_mset (image_mset res_amount (filter_mset (\<lambda>t. res_asset t = a) T))"

inductive mgr_step :: "ledger_state \<Rightarrow> ledger_state \<Rightarrow> bool" where
  step_reserve: "reserve m a n = (Ok t, m') \<Longrightarrow> mgr_step (m, T) (m', add_mset t T)"
| step_reserve_refused: "reserve m a n = (Err e, m') \<Longrightarrow> mgr_step (m, T) (m', T)"
| step_release: "t \<in># T \<Longrightarrow> mgr_step (m, T) (release m t, T - {#t#})"
| step_consume: "t \<in># T \<Longrightarrow> mgr_step (m, T) (consume m t, T - {#t#})"
| step_foreign_release: "\<not> issued m t \<Longrightarrow> mgr_step (m, T) (release m t, T)"
| step_foreign_consume: "\<not> issued m t \<Longrightarrow> mgr_step (m, T) (consume m t, T)"
| step_discover: "mgr_step (m, T) (discover_assets now (configs :: unit market_configuration list) m, T)"
| step_discover_collateral: "mgr_step (m, T) (discover_collateral_assets now (configs :: unit market_configuration list) m, T)"
| step_refresh: "(\<And>a b. fetch a = Inr b \<Longrightarrow> b \<le> u128_max) \<Longrightarrow> mgr_step (m, T) (snd (refresh clk fetch m), T)"
| step_refresh_asset: "(\<And>a b. fetch a = Inr b \<Longrightarrow> b \<le> u128_max) \<Longrightarrow>
    mgr_step (m, T) (snd (refresh_asset now fetch a m), T)"
| step_refresh_collateral: "mgr_step (m, T) (snd (refresh_collateral clk fetch m), T)"
| step_set_metrics: "mgr_step (m, T) (set_metrics sink m, T)"

inductive_cases mgr_stepE: "mgr_step (m, T) s'"

inductive ledger_reachable :: "ledger_state \<Rightarrow> bool" where
  ledger_start: "ledger_reachable (fst (inventory_new k), {#})"
| ledger_next: "ledger_reachable s \<Longrightarrow> mgr_step s s' \<Longrightarrow> ledger_reachable s'"

definition ledger_inv :: "ledger_state \<Rightarrow> bool" where
  "ledger_inv s \<longleftrightarrow>
     (\<forall>t \<in># snd s. issued (fst s) t)
     \<and> (\<forall>a. get_reserved_balance (fst s) a = held (snd s) a)
     \<and> (\<forall>a. get_total_balance (fst s) a \<le> u128_max)
     \<and> (\<forall>a. held (snd s) a \<le> u128_max)"

lemma held_add [simp]: "held (add_mset t T) a = (if res_asset t = a then res_amount t else 0) + held T a"
  by (simp add: held_def)

lemma held_empty [simp]: "held {#} a = 0"
  by (simp add: held_def)

lemma held_remove: "t \<in># T \<Longrightarrow> held (T - {#t#}) a = held T a - (if res_asset t = a then res_amount t else 0)"
proof -
  assume "t \<in># T"
  then obtain U where "T = add_mset t U" by (metis mset_add)
  then show ?thesis by simp
qed

lemma held_remove_le: "t \<in># T \<Longrightarrow> held (T - {#t#}) a \<le> held T a"
  by (simp add: held_remove)

lemma set_metrics_views [ledger_views]:
  "get_reserved_balance (set_metrics sink m) a = get_reserved_balance m a"
  "get_total_balance (set_metrics sink m) a = get_total_balance m a"
  "manager_id (set_metrics sink m) = manager_id m"
  by (simp_all add: set_metrics_def get_reserved_balance_def get_total_balance_def)

lemma ledger_inv_frame:
  assumes "ledger_inv (m, T)" "manager_id m' = manager_id m"
    and "\<And>a. get_reserved_balance m' a = get_reserved_balance m a"
    and "\<And>a. get_total_balance m' a \<le> u128_max"
  shows "ledger_inv (m', T)"
  using assms by (simp add: ledger_inv_def issued_def)

lemma ledger_inv_settle:
  assumes "ledger_inv (m, T)" "t \<in># T"
  shows "ledger_inv (release m t, T - {#t#})" "ledger_inv (consume m t, T - {#t#})"
proof -
  have i: "issued m t" using assms by (simp add: ledger_inv_def)
  have b: "held (T - {#t#}) a \<le> u128_max" for a
    using assms held_remove_le [OF assms(2), of a] by (auto simp: ledger_inv_def intro: le_trans)
  have k: "\<forall>u \<in># T - {#t#}. res_manager_id u = manager_id m"
    using assms(1) by (auto simp: ledger_inv_def issued_def dest: in_diffD)
  have "get_total_balance m a - x \<le> u128_max" for a x
    using assms(1) by (auto simp: ledger_inv_def intro: le_trans [OF diff_le_self])
  then show "ledger_inv (release m t, T - {#t#})" "ledger_inv (consume m t, T - {#t#})"
    using assms i b k by (auto simp: ledger_inv_def issued_def held_remove release_views [OF i] consume_views [OF i])
qed

lemma ledger_inv_reserve:
  assumes "ledger_inv (m, T)" "reserve m a n = (Ok t, m')"
  shows "ledger_inv (m', add_mset t T)"
proof -
  note R = reserve_Ok [OF assms(2)]
  have B: "get_total_balance m a \<le> u128_max" "get_reserved_balance m a \<le> u128_max"
    using assms(1) by (simp_all add: ledger_inv_def)
  note r = ledger.reserve_reserved [OF assms(2) B]
  have "get_reserved_balance m a + n \<le> u128_max" using R(2) B unfolding available_eq by linarith
  with assms(1) R(1,3,4) r show ?thesis
    by (auto simp: ledger_inv_def issued_def)
qed

lemma mgr_step_inv: "mgr_step s s' \<Longrightarrow> ledger_inv s \<Longrightarrow> ledger_inv s'"
proof (induction rule: mgr_step.induct)
  case (step_refresh fetch m T clk)
  then show ?case
    by (intro ledger_inv_frame [OF step_refresh(2)] refresh_balance_le)
       (auto simp: ledger_views ledger_inv_def)
next
  case (step_refresh_asset fetch m T now a)
  then show ?case
    by (intro ledger_inv_frame [OF step_refresh_asset(2)])
       (auto simp: ledger_views ledger_inv_def refresh_asset_balance split: sum.splits)
next
  case (step_discover m T now configs)
  then show ?case by (rule ledger_inv_frame) (use step_discover in \<open>auto simp: ledger_views ledger_inv_def\<close>)
next
  case (step_discover_collateral m T now configs)
  then show ?case
    by (rule ledger_inv_frame) (use step_discover_collateral in \<open>auto simp: ledger_views ledger_inv_def\<close>)
next
  case (step_refresh_collateral m T clk fetch)
  then show ?case
    by (rule ledger_inv_frame) (use step_refresh_collateral in \<open>auto simp: ledger_views ledger_inv_def\<close>)
next
  case (step_set_metrics m T sink)
  then show ?case
    by (rule ledger_inv_frame) (use step_set_metrics in \<open>auto simp: ledger_views ledger_inv_def\<close>)
qed (auto intro: ledger_inv_reserve ledger_inv_settle dest: reserve_Err simp: foreign_refused)

lemma ledger_reachable_inv: "ledger_reachable s \<Longrightarrow> ledger_inv s"
proof (induction rule: ledger_reachable.induct)
  case (ledger_start k)
  then show ?case
    by (simp add: ledger_inv_def inventory_new_def get_reserved_balance_def get_total_balance_def)
next
  case (ledger_next s s')
  then show ?case by (blast intro: mgr_step_inv)
qed

end
