(* ===== verification/Swap_Retry.thy ===== *)
theory Swap_Retry
  imports Errors
begin

text \<open>
  src/swap/retry.rs: swap errors, split at the deposit transfer, and the retry loop.

  \<open>swap_with_retry\<close> runs an operation on a state (whatever the swap touches). Besides the result and
  the state it returns the log of the invocations, each with the pause (in milliseconds) that followed
  it; the loop over \<open>1..=max_attempts\<close> is a recursion over that list.
\<close>

section \<open>Errors\<close>

datatype pre_deposit_error =
    AmountTooLow string
  | QuoteFailed string
  | NetworkError string
  | ServerError nat string
  | RateLimited
  | PreValidationError string
  | PreTimeout string
  | PreUnknown string

datatype post_deposit_error =
    Indeterminate string string \<comment> \<open>message and deposit address\<close>
  | Definitive string string

datatype swap_error_kind = PreDeposit pre_deposit_error | PostDeposit post_deposit_error

record swap_error =
  swap_kind :: swap_error_kind
  swap_context :: string

fun pre_is_retryable :: "pre_deposit_error \<Rightarrow> bool" where
  "pre_is_retryable (NetworkError _) = True"
| "pre_is_retryable (ServerError _ _) = True"
| "pre_is_retryable RateLimited = True"
| "pre_is_retryable (PreTimeout _) = True"
| "pre_is_retryable _ = False"

fun kind_is_retryable :: "swap_error_kind \<Rightarrow> bool" where
  "kind_is_retryable (PreDeposit pre) = pre_is_retryable pre"
| "kind_is_retryable (PostDeposit _) = False"

fun kind_is_amount_too_low :: "swap_error_kind \<Rightarrow> bool" where
  "kind_is_amount_too_low (PreDeposit (AmountTooLow _)) = True"
| "kind_is_amount_too_low _ = False"

definition is_retryable :: "swap_error \<Rightarrow> bool" where
  "is_retryable e = kind_is_retryable (swap_kind e)"

definition is_amount_too_low :: "swap_error \<Rightarrow> bool" where
  "is_amount_too_low e = kind_is_amount_too_low (swap_kind e)"

definition from_oneclick_response :: "nat \<Rightarrow> string \<Rightarrow> pre_deposit_error" where
  "from_oneclick_response status body =
     (if contains body ''Amount is too low for bridge'' then AmountTooLow body
      else if contains body ''Failed to get quote'' then QuoteFailed body
      else if status = 429 then RateLimited
      else if 400 \<le> status \<and> status \<le> 499 then PreValidationError body
      else if 500 \<le> status \<and> status \<le> 599 then ServerError status body
      else PreUnknown body)"

fun pre_error_to_string :: "pre_deposit_error \<Rightarrow> string" where
  "pre_error_to_string (AmountTooLow m) = ''Amount too low: '' @ m"
| "pre_error_to_string (QuoteFailed m) = ''Quote failed: '' @ m"
| "pre_error_to_string (NetworkError m) = ''Network error: '' @ m"
| "pre_error_to_string (ServerError st m) = ''Server error ('' @ show_nat st @ ''): '' @ m"
| "pre_error_to_string RateLimited = ''Rate limited''"
| "pre_error_to_string (PreValidationError m) = ''Validation error: '' @ m"
| "pre_error_to_string (PreTimeout m) = ''Timeout: '' @ m"
| "pre_error_to_string (PreUnknown m) = ''Unknown error: '' @ m"

fun post_error_to_string :: "post_deposit_error \<Rightarrow> string" where
  "post_error_to_string (Indeterminate m addr) =
     ''Swap outcome unknown (deposit address '' @ addr @ ''): '' @ m"
| "post_error_to_string (Definitive m addr) =
     ''Swap failed definitively (deposit address '' @ addr @ ''): '' @ m"

fun kind_to_string :: "swap_error_kind \<Rightarrow> string" where
  "kind_to_string (PreDeposit e) = pre_error_to_string e"
| "kind_to_string (PostDeposit e) = post_error_to_string e"

definition swap_error_to_string :: "swap_error \<Rightarrow> string" where
  "swap_error_to_string e = swap_context e @ '': '' @ kind_to_string (swap_kind e)"

definition swap_error_pre :: "pre_deposit_error \<Rightarrow> string \<Rightarrow> swap_error" where
  "swap_error_pre k ctx = \<lparr>swap_kind = PreDeposit k, swap_context = ctx\<rparr>"

definition swap_error_post :: "post_deposit_error \<Rightarrow> string \<Rightarrow> swap_error" where
  "swap_error_post k ctx = \<lparr>swap_kind = PostDeposit k, swap_context = ctx\<rparr>"

fun from_pre_deposit_app_error :: "string \<Rightarrow> app_error \<Rightarrow> swap_error" where
  "from_pre_deposit_app_error ctx (RpcFailure (TimeoutError m)) =
     swap_error_pre (PreTimeout (app_error_to_string (RpcFailure (TimeoutError m)))) ctx"
| "from_pre_deposit_app_error ctx (RpcFailure e) =
     swap_error_pre (NetworkError (app_error_to_string (RpcFailure e))) ctx"
| "from_pre_deposit_app_error ctx (ValidationError m) = swap_error_pre (PreValidationError m) ctx"
| "from_pre_deposit_app_error ctx (SerializationError m) = swap_error_pre (PreUnknown m) ctx"

definition app_error_from_swap :: "swap_error \<Rightarrow> app_error" where
  "app_error_from_swap e = ValidationError (swap_error_to_string e)"

section \<open>Backoff and retries\<close>

record swap_retry_config =
  max_attempts :: nat
  base_delay_ms :: nat

definition default_retry_config :: swap_retry_config where
  "default_retry_config = \<lparr>max_attempts = 3, base_delay_ms = 2000\<rparr>"

definition MAX_BACKOFF_DELAY :: nat where
  "MAX_BACKOFF_DELAY = 300 * 1000"

text \<open>\<open>1u64.checked_shl(n)\<close> has no value from 64 bits on.\<close>

definition checked_shl_1 :: "nat \<Rightarrow> nat option" where
  "checked_shl_1 n = (if n < 64 then Some (2 ^ n) else None)"

definition delay_for_attempt :: "swap_retry_config \<Rightarrow> nat \<Rightarrow> nat" where
  "delay_for_attempt config attempt =
     (let multiplier = (case checked_shl_1 (attempt - 1) of Some x \<Rightarrow> x | None \<Rightarrow> u64_max)
      in min (min (base_delay_ms config * multiplier) u64_max) MAX_BACKOFF_DELAY)"

type_synonym swap_log = "((swap_error + unit) \<times> nat option) list"

definition retry_exhausted :: "string \<Rightarrow> swap_error" where
  "retry_exhausted swap_name = swap_error_pre (PreUnknown ''Retry loop exhausted'') swap_name"

fun retry_loop :: "swap_retry_config \<Rightarrow> string \<Rightarrow> ('w \<Rightarrow> (swap_error + unit) \<times> 'w)
    \<Rightarrow> nat list \<Rightarrow> swap_error option \<Rightarrow> 'w \<Rightarrow> (swap_error + unit) \<times> 'w \<times> swap_log" where
  "retry_loop config swap_name operation [] last_error w =
     (Inl (case last_error of Some e \<Rightarrow> e | None \<Rightarrow> retry_exhausted swap_name), w, [])"
| "retry_loop config swap_name operation (attempt # rest) last_error w =
     (case operation w of
        (Inr u, w') \<Rightarrow> (Inr (), w', [(Inr (), None)])
      | (Inl e, w') \<Rightarrow>
          if is_retryable e \<and> attempt < max_attempts config
          then let (r, w'', lg) = retry_loop config swap_name operation rest (Some e) w'
               in (r, w'', (Inl e, Some (delay_for_attempt config attempt)) # lg)
          else (Inl e, w', [(Inl e, None)]))"

definition swap_with_retry :: "swap_retry_config \<Rightarrow> string \<Rightarrow> ('w \<Rightarrow> (swap_error + unit) \<times> 'w)
    \<Rightarrow> 'w \<Rightarrow> (swap_error + unit) \<times> 'w \<times> swap_log" where
  "swap_with_retry config swap_name operation w =
     retry_loop config swap_name operation [1..<Suc (max_attempts config)] None w"

section \<open>Facts\<close>

lemma retryable_is_pre_deposit: "is_retryable e \<Longrightarrow> \<exists>pre. swap_kind e = PreDeposit pre \<and> pre_is_retryable pre"
  by (cases "swap_kind e") (auto simp: is_retryable_def)

lemma delay_le_cap: "delay_for_attempt config attempt \<le> MAX_BACKOFF_DELAY"
  by (simp add: delay_for_attempt_def Let_def)

lemma delay_mono: "a \<le> b \<Longrightarrow> delay_for_attempt config a \<le> delay_for_attempt config b"
proof -
  assume ab: "a \<le> b"
  let ?m = "\<lambda>n. case checked_shl_1 (n - 1) of Some x \<Rightarrow> x | None \<Rightarrow> u64_max"
  have big: "(2 :: nat) ^ n \<le> u64_max" if "n < 64" for n
  proof -
    have "(2 :: nat) ^ n \<le> 2 ^ 63" using that by (intro power_increasing) auto
    then show ?thesis by (simp add: u64_max_def)
  qed
  have "?m a \<le> ?m b" using ab big by (auto simp: checked_shl_1_def power_increasing)
  then show ?thesis
    unfolding delay_for_attempt_def Let_def by (intro min.mono mult_le_mono2 order_refl)
qed

text \<open>A run of the loop: a failed, retried attempt at every place of the log but the last.\<close>

definition retry_log_ok :: "nat \<Rightarrow> (swap_error + unit) \<Rightarrow> swap_log \<Rightarrow> bool" where
  "retry_log_ok limit r lg \<longleftrightarrow>
     lg \<noteq> [] \<and> length lg \<le> limit \<and> last lg = (r, None)
     \<and> (\<forall>x \<in> set (butlast lg). \<exists>e d. x = (Inl e, Some d) \<and> is_retryable e \<and> d \<le> MAX_BACKOFF_DELAY)"

lemma retry_loop_log:
  assumes "retry_loop config swap_name operation [i..<Suc n] last_error w = (r, w', lg)"
    and "i \<le> n" and "max_attempts config = n"
  shows "retry_log_ok (Suc n - i) r lg"
  using assms
proof (induction "n - i" arbitrary: i last_error w r lg w')
  case 0
  then have "i = n" by simp
  with 0 show ?case
    by (auto simp: retry_log_ok_def split: prod.splits sum.splits if_splits)
next
  case (Suc k)
  then have i: "i < n" by simp
  then have u: "[i..<Suc n] = i # [Suc i..<Suc n]" by (simp add: upt_rec)
  obtain x w1 where op: "operation w = (x, w1)" by fastforce
  show ?case
  proof (cases x)
    case (Inr y)
    with Suc.prems u op i show ?thesis by (auto simp: retry_log_ok_def)
  next
    case (Inl e)
    show ?thesis
    proof (cases "is_retryable e")
      case False
      with Suc.prems u op Inl i show ?thesis by (auto simp: retry_log_ok_def)
    next
      case True
      obtain r1 w2 lg1 where rec: "retry_loop config swap_name operation [Suc i..<Suc n] (Some e) w1 = (r1, w2, lg1)"
        by (metis prod_cases3)
      have eq: "lg = (Inl e, Some (delay_for_attempt config i)) # lg1" "r = r1"
        using Suc.prems(1,3) u op Inl True i rec by simp_all
      have "retry_log_ok (Suc n - Suc i) r1 lg1"
        using Suc.hyps(1) [of "Suc i"] Suc.hyps(2) rec i Suc.prems(3) by simp
      with eq True i show ?thesis
        by (auto simp: retry_log_ok_def delay_le_cap)
    qed
  qed
qed

lemma swap_with_retry_log:
  assumes "swap_with_retry config swap_name operation w = (r, w', lg)" "0 < max_attempts config"
  shows "retry_log_ok (max_attempts config) r lg"
  using retry_loop_log [of config swap_name operation 1 "max_attempts config" None w r w' lg] assms
  by (simp add: swap_with_retry_def)

section \<open>The contract of an operation that moves funds\<close>

definition pre_only :: "swap_error \<Rightarrow> bool" where
  "pre_only e \<longleftrightarrow> (\<exists>k. swap_kind e = PreDeposit k)"

lemma swap_error_side [simp]:
  "pre_only (swap_error_pre k ctx)" "\<not> pre_only (swap_error_post p ctx)"
  by (simp_all add: pre_only_def swap_error_pre_def swap_error_post_def)

lemma pre_only_from_app_error [simp]: "pre_only (from_pre_deposit_app_error ctx e)"
  by (cases "(ctx, e)" rule: from_pre_deposit_app_error.cases) simp_all

lemma post_iff: "\<not> pre_only e \<longleftrightarrow> (\<exists>k. swap_kind e = PostDeposit k)"
  by (cases "swap_kind e") (simp_all add: pre_only_def)

lemma retryable_pre_only: "is_retryable e \<Longrightarrow> pre_only e"
  by (auto simp: pre_only_def dest: retryable_is_pre_deposit)

lemma pre_only_retry_exhausted [simp]: "pre_only (retry_exhausted name)"
  by (simp add: retry_exhausted_def)

fun spent_by :: "swap_error + unit \<Rightarrow> bool" where
  "spent_by (Inr _) \<longleftrightarrow> True"
| "spent_by (Inl e) \<longleftrightarrow> \<not> pre_only e"

text \<open>
  What the retry loop relies on: an attempt that fails before the deposit has moved nothing, and any
  other attempt has moved funds once. Then so has the whole run.
\<close>

locale deposit_contract =
  fixes operation :: "'w \<Rightarrow> (swap_error + unit) \<times> 'w" and moved :: "'w \<Rightarrow> 'd list"
  assumes unspent: "operation w = (r, w') \<Longrightarrow> \<not> spent_by r \<Longrightarrow> moved w' = moved w"
    and spent: "operation w = (r, w') \<Longrightarrow> spent_by r \<Longrightarrow> \<exists>d. moved w' = d # moved w"
begin

lemma loop_moves:
  assumes "retry_loop config swap_name operation attempts last_error w = (r, w', lg)"
    and "case last_error of None \<Rightarrow> True | Some e \<Rightarrow> pre_only e"
  shows "if spent_by r then \<exists>d. moved w' = d # moved w else moved w' = moved w"
  using assms
proof (induction attempts arbitrary: last_error w r w' lg)
  case Nil
  then show ?case by (auto split: option.splits)
next
  case (Cons attempt rest)
  obtain x w1 where op: "operation w = (x, w1)" by fastforce
  show ?case
  proof (cases "\<exists>e. x = Inl e \<and> is_retryable e \<and> attempt < max_attempts config")
    case True
    then obtain e where e: "x = Inl e" "is_retryable e" "attempt < max_attempts config" by blast
    then have pre: "pre_only e" by (simp add: retryable_pre_only)
    obtain r1 w2 lg1 where rec: "retry_loop config swap_name operation rest (Some e) w1 = (r1, w2, lg1)"
      by (metis prod_cases3)
    from Cons.prems(1) op e rec have eq: "r = r1" "w' = w2" by simp_all
    have "moved w1 = moved w" using unspent [OF op] e(1) pre by simp
    with Cons.IH [OF rec] pre eq show ?thesis by (auto split: if_splits)
  next
    case False
    with Cons.prems(1) op have "r = x" "w' = w1" by (auto split: sum.splits if_splits)
    with op show ?thesis using unspent spent by auto
  qed
qed

lemma retried_moves_once:
  assumes "swap_with_retry config swap_name operation w = (r, w', lg)"
  shows "if spent_by r then \<exists>d. moved w' = d # moved w else moved w' = moved w"
  using loop_moves assms by (fastforce simp: swap_with_retry_def)

end

end
