(* ===== verification/World.thy ===== *)
theory World
  imports Market Inventory Swap_Retry
begin

text \<open>
  The world a liquidation acts on: the shared inventory, and the trace of everything the bot did that
  something outside it can see, latest first.

  The gateway client, the swap venue, the oracle fetcher and the clock are the fields of \<open>env\<close>. Each
  answer is a function of the trace so far, so it may differ from call to call and depend on anything
  the bot did before: a theorem about every \<open>env\<close> is a theorem about every behaviour of the outside.
  A gateway error is the text it renders to. Notifications are events: what the notifier makes of them
  is its own component.
\<close>

datatype swap_issue =
    Unsupported string string string \<comment> \<open>from, to, amount\<close>
  | Failed string string string string \<comment> \<open>from, to, amount, error\<close>

datatype event =
    EvStatusRead account_id
  | EvPositionRead account_id
  | EvPositionsPage nat nat
  | EvLiquidate account_id nat nat \<comment> \<open>a transaction was submitted: borrower, repay, collateral\<close>
  | EvReceiptsRead string
  | EvBalanceRead asset
  | EvSwap asset asset nat
  | EvPricesPushed account_id "price_id list"
  | EvPricesFetched account_id "price_id list"
  | EvNotifyLiquidation account_id account_id string string string bool
  | EvNotifySwap account_id swap_issue
  | EvNotifyFailed account_id account_id notification_kind string
  | EvClearDedup account_id account_id
  | EvNotifyScanFailures account_id nat string
  | EvNotifyScanRecovered account_id nat
  | EvCollateralRefreshed
  | EvBorrowRefreshed
  | EvPause nat

datatype operation_status = OpSucceeded | OpOther string \<comment> \<open>any other status, as \<open>{:?}\<close> shows it\<close>

record operation_result =
  op_id :: string
  op_status :: operation_status
  op_latest_tx_hash :: "string option"
  op_signer :: account_id

record env =
  e_borrow_status :: "event list \<Rightarrow> account_id \<Rightarrow> oracle_response \<Rightarrow> string + borrow_status option"
  e_borrow_position :: "event list \<Rightarrow> account_id \<Rightarrow> string + borrow_position option"
  e_list_positions :: "event list \<Rightarrow> nat \<Rightarrow> nat \<Rightarrow> string + (account_id \<times> borrow_position) list"
  e_liquidate :: "event list \<Rightarrow> account_id \<Rightarrow> nat \<Rightarrow> nat \<Rightarrow> string + operation_result"
  e_failed_receipts :: "event list \<Rightarrow> string \<Rightarrow> account_id \<Rightarrow> string + string list"
  e_balance :: "event list \<Rightarrow> asset \<Rightarrow> string + nat"
  e_swap :: "event list \<Rightarrow> asset \<Rightarrow> asset \<Rightarrow> nat \<Rightarrow> swap_error + unit"
  e_update_onchain_prices :: "event list \<Rightarrow> liquidator_error + bool"
  e_oracle_prices :: "event list \<Rightarrow> liquidator_error + oracle_response"
  e_now :: "event list \<Rightarrow> nat" \<comment> \<open>\<open>Instant::now\<close>, in milliseconds\<close>
  e_unix_ms :: "event list \<Rightarrow> nat option" \<comment> \<open>wall clock, \<open>None\<close> before the epoch\<close>
  e_shutdown :: "event list \<Rightarrow> bool"

record world =
  w_inventory :: inventory_manager
  w_trace :: "event list"

definition emit :: "event \<Rightarrow> world \<Rightarrow> world" where
  "emit ev w = w\<lparr>w_trace := ev # w_trace w\<rparr>"

definition release_in :: "reservation \<Rightarrow> world \<Rightarrow> world" where
  "release_in r w = w\<lparr>w_inventory := release (w_inventory w) r\<rparr>"

definition consume_in :: "reservation \<Rightarrow> world \<Rightarrow> world" where
  "consume_in r w = w\<lparr>w_inventory := consume (w_inventory w) r\<rparr>"

definition refresh_asset_in :: "env \<Rightarrow> asset \<Rightarrow> world \<Rightarrow> world" where
  "refresh_asset_in E a w =
     emit (EvBalanceRead a)
       (w\<lparr>w_inventory :=
            snd (refresh_asset (e_now E (w_trace w)) (e_balance E (w_trace w)) a (w_inventory w))\<rparr>)"

lemma emit_simps [simp]:
  "w_inventory (emit ev w) = w_inventory w" "w_trace (emit ev w) = ev # w_trace w"
  by (simp_all add: emit_def)

lemma settle_simps [simp]:
  "w_inventory (release_in r w) = release (w_inventory w) r" "w_trace (release_in r w) = w_trace w"
  "w_inventory (consume_in r w) = consume (w_inventory w) r" "w_trace (consume_in r w) = w_trace w"
  "w_inventory (refresh_asset_in E a w) =
     snd (refresh_asset (e_now E (w_trace w)) (e_balance E (w_trace w)) a (w_inventory w))"
  "w_trace (refresh_asset_in E a w) = EvBalanceRead a # w_trace w"
  by (simp_all add: release_in_def consume_in_def refresh_asset_in_def)

section \<open>What a trace shows\<close>

text \<open>The transactions submitted, the swaps started and the price pushes of a trace.\<close>

definition submitted :: "event list \<Rightarrow> event list" where
  "submitted tr = filter (\<lambda>ev. case ev of EvLiquidate _ _ _ \<Rightarrow> True | _ \<Rightarrow> False) tr"

definition pushes :: "event list \<Rightarrow> event list" where
  "pushes tr = filter (\<lambda>ev. case ev of EvPricesPushed _ _ \<Rightarrow> True | _ \<Rightarrow> False) tr"

definition swaps :: "event list \<Rightarrow> event list" where
  "swaps tr = filter (\<lambda>ev. case ev of EvSwap _ _ _ \<Rightarrow> True | _ \<Rightarrow> False) tr"

definition is_money_event :: "event \<Rightarrow> bool" where
  "is_money_event ev \<longleftrightarrow>
     (case ev of EvLiquidate _ _ _ \<Rightarrow> True | EvPricesPushed _ _ \<Rightarrow> True | EvSwap _ _ _ \<Rightarrow> True | _ \<Rightarrow> False)"

text \<open>\<open>money tr\<close>: everything in the trace that moves funds or spends gas.\<close>

definition money :: "event list \<Rightarrow> event list" where
  "money tr = filter is_money_event tr"

lemma trace_filters_append [simp]:
  "submitted (a @ b) = submitted a @ submitted b" "pushes (a @ b) = pushes a @ pushes b"
  "swaps (a @ b) = swaps a @ swaps b" "money (a @ b) = money a @ money b"
  by (simp_all add: submitted_def pushes_def swaps_def money_def)

lemma trace_filters_simps [simp]:
  "submitted [] = []" "pushes [] = []" "swaps [] = []" "money [] = []"
  "submitted (ev # tr) = (case ev of EvLiquidate _ _ _ \<Rightarrow> ev # submitted tr | _ \<Rightarrow> submitted tr)"
  "pushes (ev # tr) = (case ev of EvPricesPushed _ _ \<Rightarrow> ev # pushes tr | _ \<Rightarrow> pushes tr)"
  "swaps (ev # tr) = (case ev of EvSwap _ _ _ \<Rightarrow> ev # swaps tr | _ \<Rightarrow> swaps tr)"
  "money (ev # tr) = (if is_money_event ev then ev # money tr else money tr)"
  by (simp_all add: submitted_def pushes_def swaps_def money_def split: event.splits)

text \<open>A step only appends to the trace: \<open>extends w w' new\<close> names what it appended.\<close>

definition extends :: "world \<Rightarrow> world \<Rightarrow> event list \<Rightarrow> bool" where
  "extends w w' new \<longleftrightarrow> w_trace w' = new @ w_trace w"

lemma extends_refl [simp]: "extends w w []"
  by (simp add: extends_def)

lemma extends_trans: "extends w w1 a \<Longrightarrow> extends w1 w2 b \<Longrightarrow> extends w w2 (b @ a)"
  by (simp add: extends_def)

lemma no_money:
  assumes "money tr = []"
  shows "submitted tr = []" "pushes tr = []" "swaps tr = []"
  using assms
  by (auto simp: money_def submitted_def pushes_def swaps_def filter_empty_conv is_money_event_def
      split: event.splits)

text \<open>
  \<open>confirmed E A oracle new old\<close>: every transaction in \<open>new\<close> (which ran after \<open>old\<close>) was against an
  account of \<open>A\<close>, and since the last transaction before it the market itself was asked about that
  account, last answering that the position is liquidatable.
\<close>

fun fresh :: "env \<Rightarrow> account_id \<Rightarrow> oracle_response \<Rightarrow> event list \<Rightarrow> bool" where
  "fresh E a oracle [] = False"
| "fresh E a oracle (EvStatusRead b # tr) =
     (b = a \<and> (case e_borrow_status E tr a oracle of Inr (Some (Liquidation _)) \<Rightarrow> True | _ \<Rightarrow> False))"
| "fresh E a oracle (EvLiquidate b n c # tr) = False"
| "fresh E a oracle (ev # tr) = fresh E a oracle tr"

primrec confirmed :: "env \<Rightarrow> account_id set \<Rightarrow> oracle_response \<Rightarrow> event list \<Rightarrow> event list \<Rightarrow> bool" where
  "confirmed E A oracle [] old = True"
| "confirmed E A oracle (ev # new) old =
     (confirmed E A oracle new old \<and>
      (case ev of EvLiquidate b n c \<Rightarrow> b \<in> A \<and> fresh E b oracle (new @ old) | _ \<Rightarrow> True))"

lemma confirmed_append [simp]:
  "confirmed E A oracle (xs @ ys) old \<longleftrightarrow> confirmed E A oracle ys old \<and> confirmed E A oracle xs (ys @ old)"
  by (induction xs) (auto split: event.splits)

lemma confirmed_quiet: "submitted new = [] \<Longrightarrow> confirmed E A oracle new old"
  by (induction new) (auto split: event.splits if_splits)

lemma confirmed_mono: "confirmed E A oracle new old \<Longrightarrow> A \<subseteq> B \<Longrightarrow> confirmed E B oracle new old"
  by (induction new) (auto split: event.splits)

end
