(* ===== verification/Scanner.thy ===== *)
theory Scanner
  imports World
begin

text \<open>
  The effectful half of src/scanner.rs (\<open>MarketScanner\<close>); the contract version is in the theory Market.
  \<open>get_all_borrows\<close> pages through the market. Its offset is a \<open>u32\<close> that grows with every full page,
  so the loop ends: by a short page, or by the overflow panic.
\<close>

type_synonym borrow_positions = "(account_id \<times> borrow_position) list"

definition get_borrow_status ::
    "env \<Rightarrow> account_id \<Rightarrow> oracle_response \<Rightarrow> world \<Rightarrow> (rpc_error, borrow_status option) outcome \<times> world" where
  "get_borrow_status E account oracle w =
     (map_err rpc_error_from_gateway (lift_res (e_borrow_status E (w_trace w) account oracle)),
      emit (EvStatusRead account) w)"

definition get_borrow_position ::
    "env \<Rightarrow> account_id \<Rightarrow> world \<Rightarrow> (rpc_error, borrow_position option) outcome \<times> world" where
  "get_borrow_position E account w =
     (map_err rpc_error_from_gateway (lift_res (e_borrow_position E (w_trace w) account)),
      emit (EvPositionRead account) w)"

definition PAGE_SIZE :: nat where
  "PAGE_SIZE = 500"

definition extend_positions :: "borrow_positions \<Rightarrow> borrow_positions \<Rightarrow> borrow_positions" where
  "extend_positions all_positions page = fold (\<lambda>(k, v). AList.update k v) page all_positions"

function borrows_loop ::
    "env \<Rightarrow> nat \<Rightarrow> borrow_positions \<Rightarrow> world \<Rightarrow> (liquidator_error, borrow_positions) outcome \<times> world" where
  "borrows_loop E current_offset all_positions w =
     (case e_list_positions E (w_trace w) current_offset PAGE_SIZE of
        Inl e \<Rightarrow> (Err (ListBorrowPositionsError (rpc_error_from_gateway e)),
                  emit (EvPositionsPage current_offset PAGE_SIZE) w)
      | Inr page \<Rightarrow>
          let w' = emit (EvPositionsPage current_offset PAGE_SIZE) w;
              fetched = min (length page) u32_max in
          if fetched = 0 then (Ok all_positions, w')
          else
            let all' = extend_positions all_positions page in
            if u32_max < current_offset + fetched then (Panic, w')
            else if fetched < PAGE_SIZE then (Ok all', w')
            else borrows_loop E (current_offset + fetched) all' w')"
  by pat_completeness auto
termination
  by (relation "measure (\<lambda>(E, off, acc, w). Suc u32_max - off)") (auto simp: u32_max_def PAGE_SIZE_def)

declare borrows_loop.simps [simp del]

definition get_all_borrows :: "env \<Rightarrow> world \<Rightarrow> (liquidator_error, borrow_positions) outcome \<times> world" where
  "get_all_borrows E w = borrows_loop E 0 [] w"

definition is_liquidatable ::
    "env \<Rightarrow> account_id \<Rightarrow> oracle_response \<Rightarrow> world \<Rightarrow> (liquidator_error, string option) outcome \<times> world" where
  "is_liquidatable E account oracle w =
     (let (st, w') = get_borrow_status E account oracle w in
      (obind (map_err FetchBorrowStatus st) (\<lambda>status.
         Ok (case status of Some (Liquidation reason) \<Rightarrow> Some reason | _ \<Rightarrow> None)), w'))"

section \<open>Facts\<close>

lemma scanner_reads [simp]:
  "w_inventory (snd (get_borrow_status E a oracle w)) = w_inventory w"
  "w_trace (snd (get_borrow_status E a oracle w)) = EvStatusRead a # w_trace w"
  "w_inventory (snd (get_borrow_position E a w)) = w_inventory w"
  "w_trace (snd (get_borrow_position E a w)) = EvPositionRead a # w_trace w"
  "fst (get_borrow_status E a oracle w) \<noteq> Panic" "fst (get_borrow_position E a w) \<noteq> Panic"
  by (simp_all add: get_borrow_status_def get_borrow_position_def)

text \<open>One page, by how it ends.\<close>

lemma borrows_loop_last:
  assumes "e_list_positions E (w_trace w) off PAGE_SIZE = Inr page"
    and "length page < PAGE_SIZE" "off + length page \<le> u32_max"
  shows "borrows_loop E off acc w =
     (Ok (if page = [] then acc else extend_positions acc page), emit (EvPositionsPage off PAGE_SIZE) w)"
proof -
  have "min (length page) u32_max = length page" using assms by (simp add: PAGE_SIZE_def u32_max_def)
  with assms show ?thesis by (subst borrows_loop.simps) (simp add: Let_def)
qed

lemma borrows_loop_more:
  assumes "e_list_positions E (w_trace w) off PAGE_SIZE = Inr page"
    and "length page = PAGE_SIZE" "off + PAGE_SIZE \<le> u32_max"
  shows "borrows_loop E off acc w =
     borrows_loop E (off + PAGE_SIZE) (extend_positions acc page) (emit (EvPositionsPage off PAGE_SIZE) w)"
proof -
  have "min (length page) u32_max = PAGE_SIZE" "PAGE_SIZE \<noteq> 0"
    using assms by (simp_all add: PAGE_SIZE_def u32_max_def)
  with assms show ?thesis by (subst borrows_loop.simps) (auto simp: Let_def)
qed

lemma borrows_loop_reads_only:
  "borrows_loop E off acc w = (r, w') \<Longrightarrow>
     w_inventory w' = w_inventory w \<and> (\<exists>new. extends w w' new \<and> money new = [])"
proof (induction E off acc w arbitrary: r w' rule: borrows_loop.induct)
  case (1 E off acc w)
  let ?ev = "EvPositionsPage off PAGE_SIZE"
  have one: "w_inventory (emit ?ev w) = w_inventory w \<and> (\<exists>new. extends w (emit ?ev w) new \<and> money new = [])"
    by (simp add: extends_def is_money_event_def)
  show ?case
  proof (cases "e_list_positions E (w_trace w) off PAGE_SIZE")
    case (Inl e)
    with "1.prems" one show ?thesis by (simp add: borrows_loop.simps [of E off acc w])
  next
    case (Inr page)
    let ?f = "min (length page) u32_max"
    show ?thesis
    proof (cases "?f = 0 \<or> u32_max < off + ?f \<or> ?f < PAGE_SIZE")
      case True
      with Inr "1.prems" have "w' = emit ?ev w"
        by (simp add: borrows_loop.simps [of E off acc w] Let_def split: if_splits)
      with one show ?thesis by simp
    next
      case False
      then have rec: "borrows_loop E (off + ?f) (extend_positions acc page) (emit ?ev w) = (r, w')"
        using Inr "1.prems" unfolding borrows_loop.simps [of E off acc w] Let_def
        by (simp del: min_less_iff_conj split: if_splits)
      have IH: "w_inventory w' = w_inventory (emit ?ev w) \<and> (\<exists>new. extends (emit ?ev w) w' new \<and> money new = [])"
        by (rule "1.IH" [OF Inr refl refl _ refl _ _ rec]) (use False in auto)
      then obtain new where "extends (emit ?ev w) w' new" "money new = []" by blast
      then have "extends w w' (new @ [?ev])" "money (new @ [?ev]) = []"
        by (simp_all add: extends_def is_money_event_def)
      with IH show ?thesis by auto
    qed
  qed
qed

text \<open>A market that serves its pages from one list is read completely, whatever its length: a later
  entry of the list wins over an earlier one of the same account.\<close>

definition serves :: "env \<Rightarrow> borrow_positions \<Rightarrow> bool" where
  "serves E positions \<longleftrightarrow> (\<forall>tr off n. e_list_positions E tr off n = Inr (take n (drop off positions)))"

lemma extend_positions_append:
  "extend_positions acc (xs @ ys) = extend_positions (extend_positions acc xs) ys"
  by (simp add: extend_positions_def)

lemma map_of_extend: "map_of (extend_positions acc page) = map_of acc ++ map_of (rev page)"
proof (induction page arbitrary: acc)
  case (Cons kv page)
  obtain k v where kv: "kv = (k, v)" by fastforce
  have "extend_positions acc (kv # page) = extend_positions (AList.update k v acc) page"
    by (simp add: extend_positions_def kv)
  then show ?case using Cons kv by (auto simp: map_add_def fun_eq_iff split: option.split)
qed (simp add: extend_positions_def)

lemma borrows_loop_complete:
  assumes srv: "serves E positions" and len: "length positions \<le> u32_max" and "off \<le> length positions"
  shows "\<exists>w'. borrows_loop E off acc w = (Ok (extend_positions acc (drop off positions)), w')"
  using assms(3)
proof (induction "length positions - off" arbitrary: off acc w rule: less_induct)
  case less
  let ?rest = "drop off positions"
  have page: "e_list_positions E (w_trace w) off PAGE_SIZE = Inr (take PAGE_SIZE ?rest)"
    using srv by (simp add: serves_def)
  show ?case
  proof (cases "length ?rest < PAGE_SIZE")
    case True
    then have "borrows_loop E off acc w =
        (Ok (if ?rest = [] then acc else extend_positions acc ?rest), emit (EvPositionsPage off PAGE_SIZE) w)"
      using borrows_loop_last [OF page] len less.prems by simp
    then show ?thesis by (auto simp: extend_positions_def)
  next
    case False
    have p: "0 < PAGE_SIZE" by (simp add: PAGE_SIZE_def)
    let ?acc = "extend_positions acc (take PAGE_SIZE ?rest)"
    have fits: "off + PAGE_SIZE \<le> length positions" using False less.prems by simp
    have "borrows_loop E off acc w =
        borrows_loop E (off + PAGE_SIZE) ?acc (emit (EvPositionsPage off PAGE_SIZE) w)"
      using borrows_loop_more [OF page] False fits len by simp
    moreover have "extend_positions ?acc (drop (off + PAGE_SIZE) positions) = extend_positions acc ?rest"
      using extend_positions_append [of acc "take PAGE_SIZE ?rest" "drop PAGE_SIZE ?rest"]
      unfolding append_take_drop_id by (simp add: add.commute)
    moreover have "length positions - (off + PAGE_SIZE) < length positions - off" using fits p by linarith
    ultimately show ?thesis using less.hyps [of "off + PAGE_SIZE"] fits by metis
  qed
qed

end
