(* ===== verification/Format.thy ===== *)
theory Format
  imports F64
begin

text \<open>
  src/format.rs: the amounts, tickers and percentages that notifications and logs show.
  \<open>pow10\<close> stands for \<open>10f64.powi\<close> (see the theory F64). Upper-casing is ASCII: an asset id is
  made of NEAR account ids and token ids.
\<close>

definition display_precision :: "int \<Rightarrow> int \<Rightarrow> nat \<Rightarrow> nat" where
  "display_precision decimals full_up_to fallback =
     (if 0 \<le> decimals \<and> decimals \<le> 2 then 2
      else if 3 \<le> decimals \<and> decimals \<le> full_up_to then nat decimals
      else fallback)"

definition known_assets :: "(string \<times> string) list" where
  "known_assets =
    [(''nep141:btc.omft.near'', ''BTC''),
     (''nep141:zec.omft.near'', ''ZEC''),
     (''nep141:eth-0xa0b86991c6218b36c1d19d4a2e9eb0ce3606eb48.omft.near'', ''USDC''),
     (''nep141:eth-0x2260fac5e5542a773aa44fbcfedf7c193bc2c599.omft.near'', ''WBTC''),
     (''nep141:sol-5ce3bf3a31af18be40ba30f721101b4341690186.omft.near'', ''USDC''),
     (''nep141:wrap.near'', ''wNEAR''),
     (''nep141:meta-pool.near'', ''stNEAR''),
     (''nep141:linear-protocol.near'', ''LiNEAR''),
     (''17208628f84f5d6ad33f0da3bbbeb27ffcb398eac501a31bd6ad2011e36133a1'', ''USDC'')]"

definition stellar_tokens :: "(string \<times> string) list" where
  "stellar_tokens =
    [(''111bzQBB65GxAPAVoxqmMcgYo5oS3txhqs1Uh1cgahKQUeTUq1TJu'', ''USDC''),
     (''111bzQBB5v7AhLyPMDwS8uJgQV24KaAPXtwyVWu2KXbbfQU6NXRCz'', ''XLM''),
     (''111bzQBB62XZkuam1hPr5wsG54FvwhYaPvecKwgZo1ZoKMWEXcE2n'', ''PYUSD''),
     (''111bzQBB5uBD3Wrr7pthp8XhJsreEcwTVnmjQ1wpbzkvHLEQf3ygS'', ''CETES''),
     (''111bzQBB5yT2A5maKJqJQsuNg7BA6VG4S4ZATpqmKYLwYBsfEfh6e'', ''USTRY''),
     (''111bzQBB5y5yhcUCbDKaCx4zNjEHQbwLAdvwucCecVzC5Ub7uNKEb'', ''DEJTRSY''),
     (''111bzQBB66Lr9d7WU1sDna78SqG5x1ZraFjkpPdiYXjHFRnZJUhuV'', ''DEJAAA''),
     (''111bzQBB5xzU1EsXby4ckez2qjWFTBiPoqHzZpPkq1Gr9gB7FQpeZ'', ''SolvBTC'')]"

text \<open>\<open>str::split_once(':')\<close>, and \<open>chars().take(k)\<close> on UTF-8 bytes: a continuation byte stays with
  the character it belongs to.\<close>

definition split_once_colon :: "string \<Rightarrow> (string \<times> string) option" where
  "split_once_colon s =
     (case dropWhile (\<lambda>c. c \<noteq> CHR '':'') s of
        [] \<Rightarrow> None
      | _ # r \<Rightarrow> Some (takeWhile (\<lambda>c. c \<noteq> CHR '':'') s, r))"

definition is_continuation :: "char \<Rightarrow> bool" where
  "is_continuation c \<longleftrightarrow> 128 \<le> byte c \<and> byte c < 192"

fun take_chars :: "nat \<Rightarrow> string \<Rightarrow> string" where
  "take_chars k [] = []"
| "take_chars k (c # s) =
     (if k = 0 then []
      else c # takeWhile is_continuation s @ take_chars (k - 1) (dropWhile is_continuation s))"

definition ellipsis :: string where
  "ellipsis = [CHR 0xE2, CHR 0x80, CHR 0xA6]"

lemma split_once_colon_length: "split_once_colon s = Some (a, b) \<Longrightarrow> length b < length s"
proof -
  assume "split_once_colon s = Some (a, b)"
  then obtain c where c: "dropWhile (\<lambda>c. c \<noteq> CHR '':'') s = c # b"
    by (auto simp: split_once_colon_def split: list.splits)
  have "length (dropWhile (\<lambda>c. c \<noteq> CHR '':'') s) \<le> length s" by (rule length_dropWhile_le)
  with c show ?thesis by simp
qed

definition unwrap_intents :: "string \<Rightarrow> string" where
  "unwrap_intents asset_id =
     (case strip_prefix ''nep245:intents.near:'' asset_id of Some r \<Rightarrow> r | None \<Rightarrow> asset_id)"

definition nep245_token :: "string \<Rightarrow> string option" where
  "nep245_token inner =
     (case strip_prefix ''nep245:'' inner of
        None \<Rightarrow> None
      | Some rest \<Rightarrow> map_option snd (split_once_colon rest))"

lemma strip_prefix_length: "strip_prefix p s = Some r \<Longrightarrow> length r \<le> length s"
  by (auto simp: strip_prefix_def split: if_splits)

lemma nep245_token_length:
  "nep245_token (unwrap_intents s) = Some t \<Longrightarrow> length t < length s"
  by (auto simp: nep245_token_def unwrap_intents_def split: option.splits
      dest!: split_once_colon_length strip_prefix_length)

text \<open>\<open>short_asset_name\<close>: each step of the recursion drops the wrapper of a NEP-245 id.\<close>

function short_asset_name :: "string \<Rightarrow> string" where
  "short_asset_name asset_id =
     (let inner = unwrap_intents asset_id in
      case find (\<lambda>(pattern, _). inner = pattern) known_assets of
        Some (_, name) \<Rightarrow> name
      | None \<Rightarrow>
     (case find (\<lambda>(suffix, _). ends_with suffix inner) stellar_tokens of
        Some (_, name) \<Rightarrow> name
      | None \<Rightarrow>
     (case nep245_token (unwrap_intents asset_id) of
        Some token_id \<Rightarrow>
          if is_prefix ''nep141:'' token_id \<or> is_prefix ''nep245:'' token_id
          then short_asset_name token_id else to_upper token_id
      | None \<Rightarrow>
     (case strip_prefix ''nep141:'' inner of
        Some rest \<Rightarrow>
          (case strip_suffix ''.near'' rest of Some name \<Rightarrow> to_upper name | None \<Rightarrow> rest)
      | None \<Rightarrow>
          if 20 < length inner then take_chars 17 inner @ ellipsis else inner))))"
  by pat_completeness auto
termination
  by (relation "measure length") (auto dest: nep245_token_length)

declare short_asset_name.simps [simp del]

definition format_amount_short :: "(int \<Rightarrow> f64) \<Rightarrow> nat \<Rightarrow> int \<Rightarrow> string \<Rightarrow> string" where
  "format_amount_short pow10 amount decimals asset_id =
     (let divisor = pow10 decimals; val = f64_div (f64_of_nat amount) divisor;
          name = short_asset_name asset_id; prec = display_precision decimals 6 6
      in fmt_fixed False prec val @ '' '' @ name)"

definition profit_pct :: "int \<Rightarrow> nat \<Rightarrow> f64" where
  "profit_pct net_profit liquidation_amount =
     (if 0 < liquidation_amount
      then f64_mul (f64_div (f64_of_int net_profit) (f64_of_nat liquidation_amount)) (Fin 100)
      else Fin 0)"

definition format_profit_short :: "(int \<Rightarrow> f64) \<Rightarrow> int \<Rightarrow> nat \<Rightarrow> int \<Rightarrow> string \<Rightarrow> string" where
  "format_profit_short pow10 net_profit liquidation_amount decimals asset_id =
     (let divisor = pow10 decimals; profit_value = f64_div (f64_of_int net_profit) divisor;
          pct = profit_pct net_profit liquidation_amount;
          name = short_asset_name asset_id; prec = display_precision decimals 6 6
      in fmt_fixed True prec profit_value @ '' '' @ name @ '' ('' @ fmt_fixed True 1 pct @ ''%)'')"

definition format_amount :: "(int \<Rightarrow> f64) \<Rightarrow> nat \<Rightarrow> int \<Rightarrow> string \<Rightarrow> string" where
  "format_amount pow10 amount decimals asset_id =
     (let divisor = pow10 decimals; val = f64_div (f64_of_nat amount) divisor;
          prec = display_precision decimals 10 8
      in fmt_fixed False prec val @ '' ['' @ asset_id @ ''] ('' @ show_nat amount @ '' raw)'')"

definition show_int_signed :: "int \<Rightarrow> string" where
  "show_int_signed i = (if i < 0 then show_int i else ''+'' @ show_int i)"

definition format_profit :: "(int \<Rightarrow> f64) \<Rightarrow> int \<Rightarrow> nat \<Rightarrow> int \<Rightarrow> string \<Rightarrow> string" where
  "format_profit pow10 net_profit liquidation_amount decimals asset_id =
     (let divisor = pow10 decimals; profit_value = f64_div (f64_of_int net_profit) divisor;
          pct = profit_pct net_profit liquidation_amount;
          prec = display_precision decimals 10 8
      in fmt_fixed True prec profit_value @ '' ['' @ asset_id @ ''] ('' @ fmt_fixed True 1 pct
         @ ''%) ['' @ show_int_signed net_profit @ '' raw]'')"

definition format_iteration :: "nat \<Rightarrow> nat \<Rightarrow> string" where
  "format_iteration current max_iter =
     (if max_iter \<le> current
      then show_nat current @ ''/'' @ show_nat max_iter @ '' (final)''
      else show_nat current @ ''/'' @ show_nat max_iter)"

section \<open>Facts\<close>

lemma display_precision_le:
  "full_up_to \<le> int m \<Longrightarrow> 2 \<le> m \<Longrightarrow> fallback \<le> m \<Longrightarrow> display_precision d full_up_to fallback \<le> m"
  by (auto simp: display_precision_def)

text \<open>The wrapper of an intents token does not change the ticker of a known asset.\<close>

lemma strip_prefix_append [simp]: "strip_prefix p (p @ s) = Some s"
proof -
  have "is_prefix p (p @ s)" by (induction p) auto
  then show ?thesis by (simp add: strip_prefix_def)
qed

end
