(* ===== verification/Profitability.thy ===== *)
theory Profitability
  imports Market Errors
begin

text \<open>
  src/profitability.rs: oracle prices as \<open>f64\<close> dollars, gas and collateral in borrow-asset units, and
  the profit metrics. \<open>pow10\<close> is \<open>10f64.powi\<close>; \<open>show_f64\<close> is the \<open>Display\<close> of an \<open>f64\<close>, which only
  appears in the text of an error.
\<close>

definition DEFAULT_GAS_COST_USD :: f64 where
  "DEFAULT_GAS_COST_USD = round_f64 (5 / 100)"

definition times_ten_to :: string where
  "times_ten_to = '' '' @ [CHR 0xC3, CHR 0x97] @ '' 10^''"

definition price_to_usd :: "(int \<Rightarrow> f64) \<Rightarrow> price \<Rightarrow> (liquidator_error, f64) outcome" where
  "price_to_usd pow10 p =
     (let usd = f64_mul (f64_of_int (price_mantissa p)) (pow10 (price_expo p))
      in if \<not> is_finite usd \<or> f64_le usd (Fin 0)
         then Err (StrategyError (''unusable oracle price: '' @ show_int (price_mantissa p)
                    @ times_ten_to @ show_int (price_expo p)))
         else Ok usd)"

definition checked_f64_to_u128 :: "(f64 \<Rightarrow> string) \<Rightarrow> f64 \<Rightarrow> (liquidator_error, nat) outcome" where
  "checked_f64_to_u128 show_f64 val =
     (if \<not> is_finite val \<or> f64_lt val (Fin 0) \<or> f64_le (f64_of_nat u128_max) val
      then Err (StrategyError (''amount not representable as u128: '' @ show_f64 val))
      else Ok (f64_to_uint u128_max val))"

definition borrow_units_to_usd :: "(int \<Rightarrow> f64) \<Rightarrow> nat \<Rightarrow> int \<Rightarrow> f64" where
  "borrow_units_to_usd pow10 val borrow_decimals = f64_div (f64_of_nat val) (pow10 borrow_decimals)"

text \<open>\<open>oracle_response.get(id).and_then(|opt| opt.as_ref())\<close>\<close>

definition oracle_price :: "oracle_response \<Rightarrow> price_id \<Rightarrow> string \<Rightarrow> (liquidator_error, price) outcome" where
  "oracle_price oracle pid missing =
     (case oracle pid of Some (Some p) \<Rightarrow> Ok p | _ \<Rightarrow> Err (StrategyError missing))"

definition convert_gas_cost_to_borrow_asset ::
    "(int \<Rightarrow> f64) \<Rightarrow> (f64 \<Rightarrow> string) \<Rightarrow> f64 \<Rightarrow> oracle_response \<Rightarrow> 'd market_configuration
     \<Rightarrow> (liquidator_error, nat) outcome" where
  "convert_gas_cost_to_borrow_asset pow10 show_f64 gas_cost_usd oracle configuration =
     (let oc = price_oracle_configuration configuration in
      obind (oracle_price oracle (borrow_asset_price_id oc) ''Borrow asset price not found in oracle'') (\<lambda>borrow_price.
      obind (price_to_usd pow10 borrow_price) (\<lambda>borrow_usd.
      let gas_cost_borrow = f64_mul (f64_div gas_cost_usd borrow_usd) (pow10 (borrow_asset_decimals oc)) in
      checked_f64_to_u128 show_f64 gas_cost_borrow)))"

definition convert_collateral_to_borrow_asset ::
    "(int \<Rightarrow> f64) \<Rightarrow> (f64 \<Rightarrow> string) \<Rightarrow> nat \<Rightarrow> oracle_response \<Rightarrow> 'd market_configuration
     \<Rightarrow> (liquidator_error, nat) outcome" where
  "convert_collateral_to_borrow_asset pow10 show_f64 collateral_amount oracle configuration =
     (let oc = price_oracle_configuration configuration in
      obind (oracle_price oracle (collateral_asset_price_id oc) ''Collateral asset price not found in oracle'') (\<lambda>collateral_price.
      obind (oracle_price oracle (borrow_asset_price_id oc) ''Borrow asset price not found in oracle'') (\<lambda>borrow_price.
      obind (price_to_usd pow10 collateral_price) (\<lambda>collateral_usd.
      obind (price_to_usd pow10 borrow_price) (\<lambda>borrow_usd.
      let collateral_value_usd =
            f64_mul (f64_div (f64_of_nat collateral_amount) (pow10 (collateral_asset_decimals oc))) collateral_usd;
          borrow_value =
            f64_mul (f64_div collateral_value_usd borrow_usd) (pow10 (borrow_asset_decimals oc)) in
      checked_f64_to_u128 show_f64 borrow_value)))))"

definition calculate_profit_metrics :: "nat \<Rightarrow> nat \<Rightarrow> nat \<Rightarrow> ('e, nat \<times> nat) outcome" where
  "calculate_profit_metrics liquidation_amount expected_collateral_value gas_cost =
     obind (add_u128 liquidation_amount gas_cost) (\<lambda>total_cost.
     let net_profit = sat_sub expected_collateral_value total_cost;
         profit_percentage =
           (if 0 < total_cost
            then f64_to_uint u64_max
                   (f64_mul (f64_div (f64_of_nat net_profit) (f64_of_nat total_cost)) (Fin 100))
            else 0)
     in Ok (net_profit, profit_percentage))"

section \<open>Facts\<close>

lemma f64_of_u128_max: "f64_of_nat u128_max = Fin (2 ^ 128)"
  unfolding f64_of_nat_def
  by (subst round_f64_eval [of _ 127])
     (simp_all add: u128_max_def pow2_def round_half_even_def Let_def)

lemma price_to_usd_cases:
  "price_to_usd pow10 p =
     (case f64_mul (f64_of_int (price_mantissa p)) (pow10 (price_expo p)) of
        Fin v \<Rightarrow> if 0 < v then Ok (Fin v)
                 else Err (StrategyError (''unusable oracle price: '' @ show_int (price_mantissa p)
                        @ times_ten_to @ show_int (price_expo p)))
      | _ \<Rightarrow> Err (StrategyError (''unusable oracle price: '' @ show_int (price_mantissa p)
                        @ times_ten_to @ show_int (price_expo p))))"
  by (auto simp: price_to_usd_def Let_def split: f64.splits)

lemma price_to_usd_Ok:
  "price_to_usd pow10 p = Ok u \<longleftrightarrow>
     (\<exists>v. 0 < v \<and> u = Fin v \<and> f64_mul (f64_of_int (price_mantissa p)) (pow10 (price_expo p)) = Fin v)"
  by (auto simp: price_to_usd_cases split: f64.splits if_splits)

lemma price_to_usd_not_Panic [simp]: "price_to_usd pow10 p \<noteq> Panic"
  by (auto simp: price_to_usd_cases split: f64.splits)

lemma checked_f64_to_u128_Ok:
  "checked_f64_to_u128 show_f64 x = Ok n \<longleftrightarrow>
     (\<exists>v. x = Fin v \<and> 0 \<le> v \<and> v < 2 ^ 128 \<and> n = nat \<lfloor>v\<rfloor>)"
proof (cases x)
  case (Fin v)
  have "v < 2 ^ 128 \<Longrightarrow> 0 \<le> v \<Longrightarrow> min (nat \<lfloor>v\<rfloor>) u128_max = nat \<lfloor>v\<rfloor>"
  proof -
    assume v: "v < 2 ^ 128" "0 \<le> v"
    have "\<lfloor>v\<rfloor> < 2 ^ 128" using v(1) by (simp add: floor_less_iff)
    then have "nat \<lfloor>v\<rfloor> \<le> u128_max" by (simp add: u128_max_def nat_le_iff)
    then show ?thesis by simp
  qed
  with Fin show ?thesis by (auto simp: checked_f64_to_u128_def f64_of_u128_max)
qed (auto simp: checked_f64_to_u128_def)

lemma checked_f64_to_u128_not_Panic [simp]: "checked_f64_to_u128 show_f64 x \<noteq> Panic"
  by (simp add: checked_f64_to_u128_def)

lemma checked_f64_to_u128_range: "checked_f64_to_u128 show_f64 x = Ok n \<Longrightarrow> n \<le> u128_max"
  by (auto simp: checked_f64_to_u128_def f64_to_uint_le split: if_splits)

lemma oracle_price_Ok [simp]: "oracle_price oracle i m = Ok p \<longleftrightarrow> oracle i = Some (Some p)"
  by (auto simp: oracle_price_def split: option.splits)

lemma oracle_price_not_Panic [simp]: "oracle_price oracle i m \<noteq> Panic"
  by (auto simp: oracle_price_def split: option.splits)

text \<open>Both conversions end in \<open>Ok\<close> or \<open>Err\<close>: they never panic.\<close>

lemma convert_gas_not_Panic [simp]:
  "convert_gas_cost_to_borrow_asset pow10 show_f64 g oracle cfg \<noteq> Panic"
  by (auto simp: convert_gas_cost_to_borrow_asset_def Let_def obind_eq_Panic)

lemma convert_collateral_not_Panic [simp]:
  "convert_collateral_to_borrow_asset pow10 show_f64 c oracle cfg \<noteq> Panic"
  by (auto simp: convert_collateral_to_borrow_asset_def Let_def obind_eq_Panic)

definition usable_price :: "(int \<Rightarrow> f64) \<Rightarrow> oracle_response \<Rightarrow> price_id \<Rightarrow> bool" where
  "usable_price pow10 oracle i \<longleftrightarrow>
     (\<exists>p v. oracle i = Some (Some p) \<and> 0 < v
        \<and> f64_mul (f64_of_int (price_mantissa p)) (pow10 (price_expo p)) = Fin v)"

text \<open>
  The amounts a plan is judged by, written out: a collateral amount as its dollars at \<open>cu\<close>, a dollar amount
  as its borrow-asset units at \<open>bu\<close>, every step rounded to a binary64, and the whole part of the result, which
  has to fit a \<open>u128\<close>.
\<close>

definition dollar_price :: "(int \<Rightarrow> f64) \<Rightarrow> oracle_response \<Rightarrow> price_id \<Rightarrow> rat \<Rightarrow> bool" where
  "dollar_price pow10 oracle i v \<longleftrightarrow>
     (\<exists>p. oracle i = Some (Some p) \<and> 0 < v
        \<and> f64_mul (f64_of_int (price_mantissa p)) (pow10 (price_expo p)) = Fin v)"

definition whole_units :: "f64 \<Rightarrow> nat \<Rightarrow> bool" where
  "whole_units x n \<longleftrightarrow> (\<exists>v. x = Fin v \<and> 0 \<le> v \<and> v < 2 ^ 128 \<and> n = nat \<lfloor>v\<rfloor>)"

definition collateral_dollars :: "(int \<Rightarrow> f64) \<Rightarrow> oracle_configuration \<Rightarrow> nat \<Rightarrow> rat \<Rightarrow> f64" where
  "collateral_dollars pow10 oc amount cu =
     f64_mul (f64_div (f64_of_nat amount) (pow10 (collateral_asset_decimals oc))) (Fin cu)"

definition dollars_in_borrow :: "(int \<Rightarrow> f64) \<Rightarrow> oracle_configuration \<Rightarrow> f64 \<Rightarrow> rat \<Rightarrow> f64" where
  "dollars_in_borrow pow10 oc usd bu = f64_mul (f64_div usd (Fin bu)) (pow10 (borrow_asset_decimals oc))"

lemma convert_collateral_value:
  assumes "convert_collateral_to_borrow_asset pow10 show_f64 c oracle cfg = Ok n"
  shows "\<exists>cu bu. dollar_price pow10 oracle (collateral_asset_price_id (price_oracle_configuration cfg)) cu
    \<and> dollar_price pow10 oracle (borrow_asset_price_id (price_oracle_configuration cfg)) bu
    \<and> whole_units (dollars_in_borrow pow10 (price_oracle_configuration cfg)
         (collateral_dollars pow10 (price_oracle_configuration cfg) c cu) bu) n"
  using assms
  by (fastforce simp: convert_collateral_to_borrow_asset_def Let_def dollar_price_def whole_units_def
      dollars_in_borrow_def collateral_dollars_def price_to_usd_Ok checked_f64_to_u128_Ok)

lemma convert_gas_value:
  assumes "convert_gas_cost_to_borrow_asset pow10 show_f64 g oracle cfg = Ok n"
  shows "\<exists>bu. dollar_price pow10 oracle (borrow_asset_price_id (price_oracle_configuration cfg)) bu
    \<and> whole_units (dollars_in_borrow pow10 (price_oracle_configuration cfg) g bu) n"
  using assms
  by (fastforce simp: convert_gas_cost_to_borrow_asset_def Let_def dollar_price_def whole_units_def
      dollars_in_borrow_def price_to_usd_Ok checked_f64_to_u128_Ok)

lemma dollar_price_unique: "dollar_price pow10 oracle i v \<Longrightarrow> dollar_price pow10 oracle i v' \<Longrightarrow> v = v'"
  by (auto simp: dollar_price_def)

lemma convert_gas_Ok_usable:
  "convert_gas_cost_to_borrow_asset pow10 show_f64 g oracle cfg = Ok n \<Longrightarrow>
   usable_price pow10 oracle (borrow_asset_price_id (price_oracle_configuration cfg)) \<and> n \<le> u128_max"
  by (fastforce simp: convert_gas_cost_to_borrow_asset_def Let_def usable_price_def price_to_usd_Ok
      dest: checked_f64_to_u128_range)

lemma convert_collateral_Ok_usable:
  "convert_collateral_to_borrow_asset pow10 show_f64 c oracle cfg = Ok n \<Longrightarrow>
   usable_price pow10 oracle (collateral_asset_price_id (price_oracle_configuration cfg))
   \<and> usable_price pow10 oracle (borrow_asset_price_id (price_oracle_configuration cfg)) \<and> n \<le> u128_max"
  by (fastforce simp: convert_collateral_to_borrow_asset_def Let_def usable_price_def price_to_usd_Ok
      dest: checked_f64_to_u128_range)

end
