(* ===== verification/Executor.thy ===== *)
theory Executor
  imports Scanner Format Profitability
begin

text \<open>
  src/executor.rs: one liquidation transaction, the settlement of its reservation, and the swap of the
  collateral that follows.

  \<open>settlement\<close> is the enum of the source (the mode and the token in one value). The steps run in the
  source's order: the token checks, the submission, the status, the receipts, the settlement, the swap,
  the refresh. The swap venue is the \<open>SwapProvider\<close> seam: its capability check is a field of the
  executor, its answers come from the environment.
\<close>

datatype liquidation_outcome = Liquidated | OHealthy | Skipped | SkippedUnfunded | Unprofitable

datatype collateral_strategy = Hold | SwapToBorrow

datatype settlement = Live reservation | DryRun

record execution_request =
  liquidation_amount :: nat
  collateral_amount :: nat
  expected_collateral_value :: nat

record executor =
  ex_market :: account_id
  ex_dry_run :: bool
  ex_collateral_strategy :: collateral_strategy
  ex_swap_provider :: "(asset \<Rightarrow> asset \<Rightarrow> bool) option" \<comment> \<open>\<open>supports_assets\<close> of the provider\<close>
  ex_swap_retry_config :: swap_retry_config
  ex_min_swap_value_usd :: f64
  ex_collateral_decimals :: int
  ex_borrow_decimals :: int

definition first_failed_receipt ::
    "env \<Rightarrow> operation_result \<Rightarrow> world \<Rightarrow> (liquidator_error, string option) outcome \<times> world" where
  "first_failed_receipt E result w =
     (case op_latest_tx_hash result of
        None \<Rightarrow>
          (Err (MissingTransactionHash (''liquidation operation '' @ op_id result
             @ '' reported terminal without a transaction hash; cannot inspect receipts'')), w)
      | Some tx_hash \<Rightarrow>
          (case e_failed_receipts E (w_trace w) tx_hash (op_signer result) of
             Inl e \<Rightarrow> (Err (LiquidationTransactionError (rpc_error_from_gateway e)), emit (EvReceiptsRead tx_hash) w)
           | Inr receipts \<Rightarrow>
               (Ok (case receipts of [] \<Rightarrow> None | r # _ \<Rightarrow> Some r), emit (EvReceiptsRead tx_hash) w)))"

text \<open>How a finished swap is reported: one decision per error variant.\<close>

fun jit_swap_issue :: "string \<Rightarrow> string \<Rightarrow> string \<Rightarrow> swap_error \<Rightarrow> swap_error_kind \<Rightarrow> swap_issue option" where
  "jit_swap_issue from_short to_short amount_short e (PreDeposit (AmountTooLow _)) = None"
| "jit_swap_issue from_short to_short amount_short e (PreDeposit (QuoteFailed _)) =
     Some (Failed from_short to_short amount_short ''No swap route available'')"
| "jit_swap_issue from_short to_short amount_short e _ =
     Some (Failed from_short to_short amount_short (swap_error_to_string e))"

definition swap_operation :: "env \<Rightarrow> asset \<Rightarrow> asset \<Rightarrow> nat \<Rightarrow> world \<Rightarrow> (swap_error + unit) \<times> world" where
  "swap_operation E collateral borrow amount w =
     (e_swap E (w_trace w) collateral borrow amount, emit (EvSwap collateral borrow amount) w)"

definition swap_collateral_to_borrow ::
    "(int \<Rightarrow> f64) \<Rightarrow> env \<Rightarrow> executor \<Rightarrow> asset \<Rightarrow> asset \<Rightarrow> nat \<Rightarrow> f64 option \<Rightarrow> world
     \<Rightarrow> (bool \<times> swap_issue option) \<times> world" where
  "swap_collateral_to_borrow pow10 E ex collateral borrow amount usd w =
     (case ex_swap_provider ex of
        None \<Rightarrow> ((False, None), w)
      | Some supports_assets \<Rightarrow>
          if collateral = borrow then ((False, None), w)
          else if \<not> supports_assets collateral borrow then
            ((False, Some (Unsupported (short_asset_name collateral) (short_asset_name borrow)
                (format_amount_short pow10 amount (ex_collateral_decimals ex) collateral))), w)
          else if (case usd of Some v \<Rightarrow> f64_lt v (ex_min_swap_value_usd ex) | None \<Rightarrow> False)
          then ((False, None), w)
          else
            let (result, w', lg) =
                  swap_with_retry (ex_swap_retry_config ex) (''jit:'' @ collateral)
                    (swap_operation E collateral borrow amount) w in
            (case result of
               Inr _ \<Rightarrow> ((True, None), w')
             | Inl e \<Rightarrow>
                 ((False, jit_swap_issue (short_asset_name collateral) (short_asset_name borrow)
                    (format_amount_short pow10 amount (ex_collateral_decimals ex) collateral) e (swap_kind e)), w')))"

definition handle_collateral ::
    "(int \<Rightarrow> f64) \<Rightarrow> env \<Rightarrow> executor \<Rightarrow> asset \<Rightarrow> asset \<Rightarrow> execution_request \<Rightarrow> world
     \<Rightarrow> swap_issue option \<times> world" where
  "handle_collateral pow10 E ex borrow collateral request w =
     (let ((swap_succeeded, issue), w') =
            (case ex_collateral_strategy ex of
               Hold \<Rightarrow> ((False, None), w)
             | SwapToBorrow \<Rightarrow>
                 swap_collateral_to_borrow pow10 E ex collateral borrow (collateral_amount request)
                   (Some (borrow_units_to_usd pow10 (expected_collateral_value request) (ex_borrow_decimals ex))) w)
      in (issue, if swap_succeeded then refresh_asset_in E borrow w' else w'))"

text \<open>The errors of the execution, by what happened.\<close>

abbreviation dry_settlement_error :: liquidator_error where
  "dry_settlement_error \<equiv> StrategyError ''dry-run settlement passed to a live executor; liquidation aborted''"

abbreviation foreign_token_error :: liquidator_error where
  "foreign_token_error \<equiv> StrategyError (''reservation was issued by a different InventoryManager; it cannot settle here ''
     @ ''(the issuing manager keeps its hold), liquidation aborted'')"

abbreviation live_settlement_error :: liquidator_error where
  "live_settlement_error \<equiv>
     StrategyError ''live settlement passed to a dry-run executor; reservation released, liquidation aborted''"

abbreviation uncovered_error :: "reservation \<Rightarrow> asset \<Rightarrow> nat \<Rightarrow> liquidator_error" where
  "uncovered_error r borrow n \<equiv> StrategyError (''reservation (amount '' @ show_nat (res_amount r)
     @ '') does not cover '' @ show_nat n @ '' of '' @ borrow @ ''; reservation released, liquidation aborted'')"

abbreviation failed_status_error :: "operation_result \<Rightarrow> string \<Rightarrow> liquidator_error" where
  "failed_status_error operation failed_status \<equiv> TransactionFailed (''Liquidation operation '' @ op_id operation
     @ '' ended with status '' @ failed_status)"

abbreviation failed_receipt_error :: "operation_result \<Rightarrow> account_id \<Rightarrow> liquidator_error" where
  "failed_receipt_error operation failed_on \<equiv> TransactionFailed (''Liquidation operation '' @ op_id operation
     @ '' succeeded at top level but a receipt on '' @ failed_on @ '' failed (likely rejected and refunded)'')"

definition execute_liquidation ::
    "(int \<Rightarrow> f64) \<Rightarrow> env \<Rightarrow> executor \<Rightarrow> account_id \<Rightarrow> asset \<Rightarrow> asset \<Rightarrow> execution_request \<Rightarrow> settlement
     \<Rightarrow> world \<Rightarrow> (liquidator_error, liquidation_outcome \<times> swap_issue option) outcome \<times> world" where
  "execute_liquidation pow10 E ex borrow_account borrow collateral request settle w =
     (case settle of
        DryRun \<Rightarrow>
          if \<not> ex_dry_run ex then (Err dry_settlement_error, w) else (Ok (Liquidated, None), w)
      | Live r \<Rightarrow>
          if \<not> issued (w_inventory w) r then (Err foreign_token_error, w)
          else if ex_dry_run ex then (Err live_settlement_error, release_in r w)
          else if \<not> covers r borrow (liquidation_amount request) then
            (Err (uncovered_error r borrow (liquidation_amount request)), release_in r w)
          else
            let tx_result = e_liquidate E (w_trace w) borrow_account (liquidation_amount request)
                              (collateral_amount request);
                w1 = emit (EvLiquidate borrow_account (liquidation_amount request) (collateral_amount request)) w
            in
            (case tx_result of
               Inl e \<Rightarrow> (Err (LiquidationTransactionError (rpc_error_from_gateway e)), release_in r w1)
             | Inr operation \<Rightarrow>
                 (case op_status operation of
                    OpOther failed_status \<Rightarrow> (Err (failed_status_error operation failed_status), release_in r w1)
                  | OpSucceeded \<Rightarrow>
                      (case first_failed_receipt E operation w1 of
                         (Panic, w2) \<Rightarrow> (Panic, w2)
                       | (Err err, w2) \<Rightarrow> (Err err, release_in r w2)
                       | (Ok (Some failed_on), w2) \<Rightarrow> (Err (failed_receipt_error operation failed_on), release_in r w2)
                       | (Ok None, w2) \<Rightarrow>
                           let (issue, w3) = handle_collateral pow10 E ex borrow collateral request (consume_in r w2)
                           in (Ok (Liquidated, issue), w3)))))"

section \<open>Facts\<close>

lemma first_failed_receipt_world:
  "first_failed_receipt E op w = (res, w') \<Longrightarrow>
     w_inventory w' = w_inventory w \<and> res \<noteq> Panic \<and> (\<exists>new. extends w w' new \<and> money new = [])"
  by (auto simp: first_failed_receipt_def extends_def is_money_event_def split: option.splits sum.splits)

text \<open>A swap touches the trace only, and only with swaps of this pair.\<close>

lemma retry_loop_swaps:
  "retry_loop config nm (swap_operation E c b n) ks last_error w = (r, w', lg) \<Longrightarrow>
     w_inventory w' = w_inventory w \<and> extends w w' (replicate (length lg) (EvSwap c b n))"
proof (induction ks arbitrary: last_error w r w' lg)
  case Nil
  then show ?case by simp
next
  case (Cons k ks)
  let ?w = "emit (EvSwap c b n) w"
  show ?case
  proof (cases "\<exists>e. e_swap E (w_trace w) c b n = Inl e \<and> is_retryable e \<and> k < max_attempts config")
    case False
    with Cons.prems show ?thesis
      by (auto simp: swap_operation_def extends_def split: sum.splits if_splits)
  next
    case True
    then obtain e where e: "e_swap E (w_trace w) c b n = Inl e" "is_retryable e" "k < max_attempts config" by blast
    obtain r1 w1 lg1 where rec: "retry_loop config nm (swap_operation E c b n) ks (Some e) ?w = (r1, w1, lg1)"
      by (metis prod_cases3)
    moreover have "swap_operation E c b n w = (Inl e, ?w)" using e by (simp add: swap_operation_def)
    ultimately have eq: "r = r1" "w' = w1" "length lg = Suc (length lg1)"
      using Cons.prems e by auto
    have "replicate (length lg1) (EvSwap c b n) @ [EvSwap c b n] = replicate (Suc (length lg1)) (EvSwap c b n)"
      by (simp add: replicate_append_same)
    with Cons.IH [OF rec] eq show ?thesis by (simp add: extends_def)
  qed
qed

definition only_swaps :: "event list \<Rightarrow> bool" where
  "only_swaps tr \<longleftrightarrow> (\<forall>ev \<in> set tr. \<exists>c b n. ev = EvSwap c b n)"

lemma swap_collateral_world:
  assumes "swap_collateral_to_borrow pow10 E ex c b n usd w = ((ok, issue), w')"
  shows "w_inventory w' = w_inventory w \<and> (\<exists>new. extends w w' new \<and> only_swaps new)"
proof -
  have "\<exists>new. extends w w new \<and> only_swaps new"
    by (rule exI [of _ "[]"]) (simp add: only_swaps_def)
  moreover have "w_inventory w1 = w_inventory w \<and> (\<exists>new. extends w w1 new \<and> only_swaps new)"
    if "swap_with_retry cfg nm (swap_operation E c b n) w = (r, w1, lg)" for cfg nm r w1 lg
    using retry_loop_swaps [OF that [unfolded swap_with_retry_def]]
    by (fastforce simp: only_swaps_def)
  ultimately show ?thesis using assms
    by (auto simp: swap_collateral_to_borrow_def split: option.splits if_splits prod.splits sum.splits)
qed

lemma only_swaps_filters: "only_swaps tr \<Longrightarrow> submitted tr = [] \<and> pushes tr = []"
  by (induction tr) (auto simp: only_swaps_def)

text \<open>After the settlement only the balance of the borrow asset can change, by the refresh.\<close>

lemma handle_collateral_world:
  assumes "handle_collateral pow10 E ex b c req w = (issue, w')"
  shows "get_reserved_balance (w_inventory w') a = get_reserved_balance (w_inventory w) a
    \<and> (a \<noteq> b \<longrightarrow> get_total_balance (w_inventory w') a = get_total_balance (w_inventory w) a)
    \<and> (get_total_balance (w_inventory w') b = get_total_balance (w_inventory w) b
        \<or> (\<exists>tr. e_balance E tr b = Inr (get_total_balance (w_inventory w') b)))
    \<and> manager_id (w_inventory w') = manager_id (w_inventory w)
    \<and> (\<exists>new. extends w w' new \<and> submitted new = [] \<and> pushes new = [])"
proof -
  obtain ok w1 where h: "(case ex_collateral_strategy ex of Hold \<Rightarrow> ((False, None), w)
             | SwapToBorrow \<Rightarrow> swap_collateral_to_borrow pow10 E ex c b (collateral_amount req)
                   (Some (borrow_units_to_usd pow10 (expected_collateral_value req) (ex_borrow_decimals ex))) w)
        = ((ok, issue), w1)" "w' = (if ok then refresh_asset_in E b w1 else w1)"
    using assms by (auto simp: handle_collateral_def split: prod.splits)
  have "w_inventory w1 = w_inventory w \<and> (\<exists>new. extends w w1 new \<and> only_swaps new)"
  proof (cases "ex_collateral_strategy ex")
    case Hold
    with h(1) show ?thesis by (auto intro!: exI [of _ "[]"] simp: only_swaps_def)
  next
    case SwapToBorrow
    with h(1) show ?thesis using swap_collateral_world by simp
  qed
  then have w1: "w_inventory w1 = w_inventory w" "\<exists>new. extends w w1 new \<and> submitted new = [] \<and> pushes new = []"
    by (auto dest: only_swaps_filters)
  from w1(2) obtain new where new: "extends w w1 new" "submitted new = []" "pushes new = []" by blast
  show ?thesis
  proof (cases ok)
    case False
    with h(2) w1 show ?thesis by simp
  next
    case True
    have "extends w w' (EvBalanceRead b # new)" using h(2) True new(1) by (simp add: extends_def)
    moreover have "submitted (EvBalanceRead b # new) = [] \<and> pushes (EvBalanceRead b # new) = []"
      using new by simp
    ultimately have "\<exists>new. extends w w' new \<and> submitted new = [] \<and> pushes new = []" by blast
    with h(2) True w1(1) show ?thesis
      by (auto simp: ledger_views refresh_asset_balance split: sum.splits)
  qed
qed

text \<open>
  The two ends of a live execution that owns its token: it failed and released the token, or it
  succeeded, submitted exactly this transaction, and consumed it; the balance of the borrow asset may
  then be the one a refresh read.
\<close>

definition released_only :: "reservation \<Rightarrow> world \<Rightarrow> world \<Rightarrow> bool" where
  "released_only r w w' \<longleftrightarrow> w_inventory w' = release (w_inventory w) r"

definition consumed_only :: "env \<Rightarrow> reservation \<Rightarrow> asset \<Rightarrow> world \<Rightarrow> world \<Rightarrow> bool" where
  "consumed_only E r borrow w w' \<longleftrightarrow>
     manager_id (w_inventory w') = manager_id (w_inventory w)
     \<and> (\<forall>a. get_reserved_balance (w_inventory w') a = get_reserved_balance (consume (w_inventory w) r) a)
     \<and> (\<forall>a. a \<noteq> borrow \<longrightarrow>
            get_total_balance (w_inventory w') a = get_total_balance (consume (w_inventory w) r) a)
     \<and> (get_total_balance (w_inventory w') borrow = get_total_balance (consume (w_inventory w) r) borrow
         \<or> (\<exists>tr. e_balance E tr borrow = Inr (get_total_balance (w_inventory w') borrow)))"

lemma first_failed_receipt_phase:
  "first_failed_receipt E op w = (Err e, w') \<Longrightarrow> phase e = Execution"
  by (auto simp: first_failed_receipt_def split: option.splits sum.splits)

lemma execute_live_cases:
  assumes run: "execute_liquidation pow10 E ex acct b c req (Live r) w = (res, w')"
    and own: "issued (w_inventory w) r"
  obtains (failed) err new where "res = Err err" "released_only r w w'" "extends w w' new" "pushes new = []"
      "submitted new = [] \<or> submitted new = [EvLiquidate acct (liquidation_amount req) (collateral_amount req)]"
      "submitted new \<noteq> [] \<Longrightarrow> \<not> ex_dry_run ex \<and> covers r b (liquidation_amount req)"
      "phase err = Execution \<longleftrightarrow> submitted new \<noteq> []"
      "new = [] \<or> (\<exists>post. new = post @ [EvLiquidate acct (liquidation_amount req) (collateral_amount req)] \<and> submitted post = [])"
  | (landed) issue new operation where "res = Ok (Liquidated, issue)" "consumed_only E r b w w'" "extends w w' new"
      "pushes new = []"
      "submitted new = [EvLiquidate acct (liquidation_amount req) (collateral_amount req)]"
      "\<not> ex_dry_run ex" "covers r b (liquidation_amount req)"
      "e_liquidate E (w_trace w) acct (liquidation_amount req) (collateral_amount req) = Inr operation"
      "op_status operation = OpSucceeded"
      "\<exists>post. new = post @ [EvLiquidate acct (liquidation_amount req) (collateral_amount req)] \<and> submitted post = []"
proof (cases "ex_dry_run ex \<or> \<not> covers r b (liquidation_amount req)")
  case True
  have "extends w w' []" "\<exists>err. res = Err err \<and> phase err \<noteq> Execution" "released_only r w w'"
    using run own True by (auto simp: execute_liquidation_def extends_def released_only_def split: if_splits)
  then show thesis using failed [of _ "[]"] by auto
next
  case False
  let ?ev = "EvLiquidate acct (liquidation_amount req) (collateral_amount req)"
  let ?w1 = "emit ?ev w"
  show thesis
  proof (cases "e_liquidate E (w_trace w) acct (liquidation_amount req) (collateral_amount req)")
    case (Inl e)
    with run own False have "extends w w' [?ev]" "\<exists>err. res = Err err \<and> phase err = Execution" "released_only r w w'"
      by (auto simp: execute_liquidation_def extends_def released_only_def)
    then show thesis using failed [of _ "[?ev]"] False by auto
  next
    case (Inr op)
    obtain rec w2 where rc: "first_failed_receipt E op ?w1 = (rec, w2)" by fastforce
    from first_failed_receipt_world [OF rc] obtain new where
      n: "w_inventory w2 = w_inventory w" "rec \<noteq> Panic" "extends ?w1 w2 new" "money new = []" by auto
    have mon: "submitted xs = [] \<and> pushes xs = []" if "money xs = []" for xs
      using that by (induction xs) (auto simp: is_money_event_def split: event.splits if_splits)
    from n(3) have ext: "extends w w2 (new @ [?ev])" by (simp add: extends_def)
    have sub: "submitted (new @ [?ev]) = [?ev]" "pushes (new @ [?ev]) = []" using mon [OF n(4)] by auto
    show thesis
    proof (cases "op_status op")
      case (OpOther st)
      with Inr run own False have "extends w w' [?ev]" "\<exists>err. res = Err err \<and> phase err = Execution" "released_only r w w'"
        by (auto simp: execute_liquidation_def extends_def released_only_def)
      then show thesis using failed [of _ "[?ev]"] False by auto
    next
      case OpSucceeded
      show thesis
      proof (cases "rec = Ok None")
        case True
        obtain issue w3 where h: "handle_collateral pow10 E ex b c req (consume_in r w2) = (issue, w3)" by fastforce
        note hw = handle_collateral_world [OF h]
        from hw obtain new2 where n2: "extends (consume_in r w2) w3 new2" "submitted new2 = []" "pushes new2 = []"
          by blast
        have r3: "res = Ok (Liquidated, issue)" "w' = w3"
          using Inr OpSucceeded True h run own False rc by (auto simp: execute_liquidation_def)
        have "extends w w' (new2 @ new @ [?ev])" using n2(1) ext r3 by (simp add: extends_def)
        moreover have "consumed_only E r b w w'" using hw r3 n(1) by (simp add: consumed_only_def)
        ultimately show thesis
          using landed [of issue "new2 @ new @ [?ev]" op] r3 False Inr OpSucceeded sub n2 by simp
      next
        case False2: False
        have "phase e = Execution" if "rec = Err e" for e
          using first_failed_receipt_phase rc that by blast
        with False2 have "\<exists>err. res = Err err \<and> phase err = Execution" "w' = release_in r w2"
          using Inr OpSucceeded run own False rc n(2)
          by (auto simp: execute_liquidation_def split: outcome.splits option.splits)
        then show thesis using failed [of _ "new @ [?ev]"] ext sub False n(1)
          by (auto simp: released_only_def extends_def)
      qed
    qed
  qed
qed

lemma execute_clean_receipts:
  assumes run: "execute_liquidation pow10 E ex acct b c req (Live r) w = (Ok res, w')"
    and sub: "e_liquidate E (w_trace w) acct (liquidation_amount req) (collateral_amount req) = Inr operation"
    and own: "issued (w_inventory w) r" "\<not> ex_dry_run ex" "covers r b (liquidation_amount req)"
    and ok: "op_status operation = OpSucceeded"
  shows "\<exists>tx. op_latest_tx_hash operation = Some tx
    \<and> e_failed_receipts E (EvLiquidate acct (liquidation_amount req) (collateral_amount req) # w_trace w) tx
        (op_signer operation) = Inr []"
proof -
  let ?w1 = "emit (EvLiquidate acct (liquidation_amount req) (collateral_amount req)) w"
  obtain got w2 where rec: "first_failed_receipt E operation ?w1 = (got, w2)" by fastforce
  have "got = Ok None"
  proof (cases got)
    case (Ok failed)
    with run sub own ok rec show ?thesis by (cases failed) (simp_all add: execute_liquidation_def)
  qed (use run sub own ok rec in \<open>simp_all add: execute_liquidation_def\<close>)
  with rec show ?thesis
    by (auto simp: first_failed_receipt_def split: option.splits sum.splits list.splits)
qed

lemma execute_dry_run:
  "execute_liquidation pow10 E ex acct b c req DryRun w =
     (if ex_dry_run ex then (Ok (Liquidated, None), w)
      else (Err (StrategyError ''dry-run settlement passed to a live executor; liquidation aborted''), w))"
  by (simp add: execute_liquidation_def)

lemma execute_foreign:
  "\<not> issued (w_inventory w) r \<Longrightarrow>
     \<exists>e. execute_liquidation pow10 E ex acct b c req (Live r) w = (Err (StrategyError e), w)"
  by (simp add: execute_liquidation_def)

end
