(* ===== verification/Strategy.thy ===== *)
theory Strategy
  imports Market Errors
begin

text \<open>
  src/liquidation_strategy.rs: how much of a position to repay and whether the repayment is worth
  making, with the caller-side check of a sizing (\<open>validate_sizing\<close> of src/liquidator.rs).

  The trait object \<open>dyn LiquidationStrategy\<close> is the record \<open>strategy\<close> of its methods; the two
  implementations are \<open>percentage_strategy\<close> and \<open>fixed_strategy\<close>. What the caller relies on is the
  locale \<open>sizing_contract\<close>, interpreted on both. Log lines are left out; every early return is a branch.
  \<open>L\<close> is the market library, \<open>pow10\<close> is \<open>10f64.powi\<close>.
\<close>

section \<open>Constants and conversions\<close>

definition SAFETY_BUFFER_BPS :: nat where "SAFETY_BUFFER_BPS = 50"
definition LIQUIDATABLE_CAP_BUFFER_BPS :: nat where "LIQUIDATABLE_CAP_BUFFER_BPS = 300"

definition apply_liquidatable_cap_buffer :: "nat \<Rightarrow> ('e, nat) outcome" where
  "apply_liquidatable_cap_buffer liquidatable =
     obind (mul_u128 liquidatable (10000 - LIQUIDATABLE_CAP_BUFFER_BPS)) (\<lambda>x. Ok (x div 10000))"

definition min_with_cap_buffer :: "nat \<Rightarrow> nat \<Rightarrow> ('e, nat) outcome" where
  "min_with_cap_buffer desired liquidatable =
     obind (apply_liquidatable_cap_buffer liquidatable) (\<lambda>cap. Ok (min desired cap))"

definition borrow_to_collateral ::
    "('d, 'p) market_lib \<Rightarrow> nat \<Rightarrow> 'p \<Rightarrow> 'd \<Rightarrow> ('e, nat option) outcome" where
  "borrow_to_collateral L borrow_amount price_pair liquidation_spread =
     obind (or_panic (dec_sub L (dec_one L) liquidation_spread)) (\<lambda>spread_multiplier.
     obind (or_panic (dec_div L (dec_from_u128 L borrow_amount) (convert_collateral L price_pair 1))) (\<lambda>q.
     obind (or_panic (dec_div L q spread_multiplier)) (\<lambda>r.
     Ok (dec_to_u128_floor L r))))"

definition collateral_to_borrow ::
    "('d, 'p) market_lib \<Rightarrow> nat \<Rightarrow> 'p \<Rightarrow> 'd \<Rightarrow> ('e, nat option) outcome" where
  "collateral_to_borrow L collateral_amount price_pair liquidation_spread =
     obind (or_panic (dec_sub L (dec_one L) liquidation_spread)) (\<lambda>spread_multiplier.
     obind (or_panic (dec_mul L (dec_from_u128 L collateral_amount) (convert_collateral L price_pair 1))) (\<lambda>q.
     obind (or_panic (dec_mul L q spread_multiplier)) (\<lambda>r.
     Ok (dec_to_u128_ceil L r))))"

section \<open>Decisions\<close>

datatype decline_reason = InsufficientInventory | NotViable

datatype strategy_decision = Sized nat nat | Decline decline_reason

text \<open>The repay plus its safety buffer, as both strategies and the reachability test compute it.\<close>

definition with_safety_buffer :: "nat \<Rightarrow> ('e, nat) outcome" where
  "with_safety_buffer repay =
     obind (mul_u128 repay SAFETY_BUFFER_BPS) (\<lambda>b. Ok (sat_add repay (b div 10000)))"

definition below_minimum_decline_reason ::
    "('d, 'p) market_lib \<Rightarrow> bool \<Rightarrow> nat \<Rightarrow> nat \<Rightarrow> 'p \<Rightarrow> 'd \<Rightarrow> nat \<Rightarrow> ('e, decline_reason) outcome" where
  "below_minimum_decline_reason L requires_full collateral_amount liquidatable price_pair spread contract_minimum =
     obind (apply_liquidatable_cap_buffer liquidatable) (\<lambda>cap_collateral.
     let inventory_bound = (\<not> requires_full \<and> collateral_amount < cap_collateral) in
     obind (collateral_to_borrow L cap_collateral price_pair spread) (\<lambda>cap_borrow.
     obind (case cap_borrow of
              None \<Rightarrow> Ok False
            | Some repay \<Rightarrow> obind (with_safety_buffer repay) (\<lambda>r. Ok (contract_minimum \<le> r)))
       (\<lambda>cap_repay_reaches_minimum.
     Ok (if inventory_bound \<and> cap_repay_reaches_minimum then InsufficientInventory else NotViable))))"

section \<open>The trait\<close>

record 'd strategy =
  calculate_liquidation_amount ::
    "borrow_position \<Rightarrow> oracle_response \<Rightarrow> 'd market_configuration \<Rightarrow> nat \<Rightarrow> market_version option
     \<Rightarrow> (liquidator_error, strategy_decision) outcome"
  should_liquidate :: "nat \<Rightarrow> nat \<Rightarrow> nat \<Rightarrow> (liquidator_error, bool) outcome"
  min_profit_margin_bps :: nat
  max_liquidation_percentage :: nat
  strategy_name :: string

definition default_should_liquidate :: "nat \<Rightarrow> nat \<Rightarrow> nat \<Rightarrow> nat \<Rightarrow> (liquidator_error, bool) outcome" where
  "default_should_liquidate margin_bps liquidation_amount expected_collateral_value gas_cost_estimate =
     (let total_cost = sat_add liquidation_amount gas_cost_estimate in
      case checked_mul total_cost (10000 + margin_bps) of
        None \<Rightarrow> Ok False
      | Some scaled \<Rightarrow> Ok (div_ceil scaled 10000 \<le> expected_collateral_value))"

section \<open>Liquidation percentages\<close>

datatype liquidation_percentage = LiquidationPercentage (percentage_get: nat)

definition percentage_new :: "nat \<Rightarrow> string + liquidation_percentage" where
  "percentage_new val =
     (if val = 0 \<or> 100 < val
      then Inl (''Partial percentage must be between 1 and 100, got '' @ show_nat val)
      else Inr (LiquidationPercentage val))"

definition percentage_full :: liquidation_percentage where
  "percentage_full = LiquidationPercentage 100"

definition percentage_from_str :: "string \<Rightarrow> string + liquidation_percentage" where
  "percentage_from_str s =
     (case parse_uint 255 s of
        None \<Rightarrow> Inl (CHR 0x27 # s @ CHR 0x27 # '' is not a valid number'')
      | Some val \<Rightarrow> percentage_new val)"

definition percentage_display :: "liquidation_percentage \<Rightarrow> string" where
  "percentage_display p = show_nat (percentage_get p)"

section \<open>Percentage of inventory\<close>

record percentage_params =
  target_percentage :: liquidation_percentage
  pct_min_profit_margin_bps :: nat

definition price_pair_of ::
    "('d, 'p) market_lib \<Rightarrow> 'd market_configuration \<Rightarrow> oracle_response \<Rightarrow> (liquidator_error, 'p) outcome" where
  "price_pair_of L configuration oracle =
     map_err PricePairError (lift_res (create_price_pair L (price_oracle_configuration configuration) oracle))"

definition percentage_calculate ::
    "('d, 'p) market_lib \<Rightarrow> percentage_params \<Rightarrow> borrow_position \<Rightarrow> oracle_response
     \<Rightarrow> 'd market_configuration \<Rightarrow> nat \<Rightarrow> market_version option
     \<Rightarrow> (liquidator_error, strategy_decision) outcome" where
  "percentage_calculate L s position oracle configuration available market_version =
     obind (mul_u128 available (10000 - SAFETY_BUFFER_BPS)) (\<lambda>buffered.
     obind (mul_u128 (buffered div 10000) (percentage_get (target_percentage s))) (\<lambda>scaled.
     let target_amount = scaled div 100 in
     if target_amount = 0 then Ok (Decline InsufficientInventory)
     else
     obind (price_pair_of L configuration oracle) (\<lambda>price_pair.
     let liquidatable = collateral_asset_deposit position;
         spread = liquidation_maximum_spread configuration in
     obind (borrow_to_collateral L target_amount price_pair spread) (\<lambda>converted.
     case converted of
       None \<Rightarrow> Ok (Decline NotViable)
     | Some collateral_amount \<Rightarrow>
     let requires_full = (\<not> supports_partial_liquidation market_version) in
     obind (if requires_full then Ok (collateral_asset_deposit position)
            else min_with_cap_buffer collateral_amount liquidatable) (\<lambda>target_collateral.
     if target_collateral = 0 then Ok (Decline NotViable)
     else
     obind (collateral_to_borrow L target_collateral price_pair spread) (\<lambda>converted_back.
     case converted_back of
       None \<Rightarrow> Ok (Decline NotViable)
     | Some theoretical_amount \<Rightarrow>
     obind (with_safety_buffer theoretical_amount) (\<lambda>final_amount.
     if available < final_amount then Ok (Decline InsufficientInventory)
     else
     let contract_minimum = borrow_range_minimum configuration in
     if final_amount < contract_minimum then
       obind (below_minimum_decline_reason L requires_full collateral_amount liquidatable
                price_pair spread contract_minimum) (\<lambda>reason. Ok (Decline reason))
     else Ok (Sized final_amount target_collateral))))))))"

definition percentage_strategy :: "('d, 'p) market_lib \<Rightarrow> percentage_params \<Rightarrow> 'd strategy" where
  "percentage_strategy L s =
     \<lparr>calculate_liquidation_amount = percentage_calculate L s,
      should_liquidate = default_should_liquidate (pct_min_profit_margin_bps s),
      min_profit_margin_bps = pct_min_profit_margin_bps s,
      max_liquidation_percentage = 100,
      strategy_name = ''Percentage Liquidation''\<rparr>"

section \<open>Fixed USD amount\<close>

record fixed_params =
  fixed_amount_usd :: f64
  fix_min_profit_margin_bps :: nat

definition usd_to_raw_units :: "(int \<Rightarrow> f64) \<Rightarrow> f64 \<Rightarrow> int \<Rightarrow> nat" where
  "usd_to_raw_units pow10 usd_amount decimals =
     f64_to_uint u128_max (f64_mul usd_amount (pow10 decimals))"

text \<open>The buffer of this strategy is at least one unit.\<close>

definition with_safety_buffer_min1 :: "nat \<Rightarrow> ('e, nat) outcome" where
  "with_safety_buffer_min1 expected =
     obind (mul_u128 expected SAFETY_BUFFER_BPS) (\<lambda>b. Ok (sat_add expected (max (b div 10000) 1)))"

definition fixed_calculate ::
    "(int \<Rightarrow> f64) \<Rightarrow> ('d, 'p) market_lib \<Rightarrow> fixed_params \<Rightarrow> borrow_position \<Rightarrow> oracle_response
     \<Rightarrow> 'd market_configuration \<Rightarrow> nat \<Rightarrow> market_version option
     \<Rightarrow> (liquidator_error, strategy_decision) outcome" where
  "fixed_calculate pow10 L s position oracle configuration available market_version =
     (let decimals = borrow_asset_decimals (price_oracle_configuration configuration);
          fixed_amount = usd_to_raw_units pow10 (fixed_amount_usd s) decimals in
     if available < fixed_amount then Ok (Decline InsufficientInventory)
     else
     obind (price_pair_of L configuration oracle) (\<lambda>price_pair.
     let liquidatable = collateral_asset_deposit position;
         spread = liquidation_maximum_spread configuration in
     obind (borrow_to_collateral L fixed_amount price_pair spread) (\<lambda>converted.
     case converted of
       None \<Rightarrow> Ok (Decline NotViable)
     | Some max_collateral \<Rightarrow>
     let requires_full = (\<not> supports_partial_liquidation market_version) in
     obind (if requires_full then Ok (collateral_asset_deposit position)
            else obind (mul_u128 max_collateral (10000 - SAFETY_BUFFER_BPS)) (\<lambda>x.
                 min_with_cap_buffer (x div 10000) liquidatable)) (\<lambda>target_collateral.
     if target_collateral = 0 then Ok (Decline NotViable)
     else
     obind (collateral_to_borrow L target_collateral price_pair spread) (\<lambda>converted_back.
     case converted_back of
       None \<Rightarrow> Ok (Decline NotViable)
     | Some expected_minimum \<Rightarrow>
     obind (with_safety_buffer_min1 expected_minimum) (\<lambda>amount_with_buffer.
     if requires_full \<and> fixed_amount < amount_with_buffer then Ok (Decline NotViable)
     else
     let final_amount = min amount_with_buffer fixed_amount;
         contract_minimum = borrow_range_minimum configuration in
     if final_amount < contract_minimum then Ok (Decline NotViable)
     else if requires_full \<and> available < final_amount then Ok (Decline InsufficientInventory)
     else Ok (Sized final_amount target_collateral)))))))"

definition fixed_strategy :: "(int \<Rightarrow> f64) \<Rightarrow> ('d, 'p) market_lib \<Rightarrow> fixed_params \<Rightarrow> 'd strategy" where
  "fixed_strategy pow10 L s =
     \<lparr>calculate_liquidation_amount = fixed_calculate pow10 L s,
      should_liquidate = default_should_liquidate (fix_min_profit_margin_bps s),
      min_profit_margin_bps = fix_min_profit_margin_bps s,
      max_liquidation_percentage = 100,
      strategy_name = ''Fixed Amount Liquidation''\<rparr>"

section \<open>The caller's check (src/liquidator.rs)\<close>

datatype sizing_violation =
    ZeroAmount
  | ExceedsDeclaredMax nat
  | InvalidDeclaredPercentage nat

definition validate_sizing :: "nat \<Rightarrow> nat \<Rightarrow> nat \<Rightarrow> nat \<Rightarrow> (sizing_violation, unit) outcome" where
  "validate_sizing liquidation_amount collateral_amount available_balance max_percentage =
     (if liquidation_amount = 0 \<or> collateral_amount = 0 then Err ZeroAmount
      else if 100 < max_percentage then Err (InvalidDeclaredPercentage max_percentage)
      else
      obind (mul_u128 (available_balance div 100) max_percentage) (\<lambda>whole.
      obind (mul_u128 (available_balance mod 100) max_percentage) (\<lambda>part.
      obind (add_u128 whole (part div 100)) (\<lambda>cap.
      if cap < liquidation_amount then Err (ExceedsDeclaredMax cap) else Ok ()))))"

section \<open>Facts about the pieces\<close>

lemma cap_buffer_Ok:
  "apply_liquidatable_cap_buffer n = Ok c \<longleftrightarrow> n * 9700 \<le> u128_max \<and> c = n * 9700 div 10000"
  by (auto simp: apply_liquidatable_cap_buffer_def LIQUIDATABLE_CAP_BUFFER_BPS_def)

lemma cap_buffer_le: "n * 9700 div 10000 \<le> (n :: nat)"
proof -
  have "n * 9700 \<le> n * 10000" by simp
  then have "n * 9700 div 10000 \<le> n * 10000 div 10000" by (rule div_le_mono)
  then show ?thesis by simp
qed

lemma min_with_cap_buffer_Ok:
  "min_with_cap_buffer d n = Ok c \<longleftrightarrow> n * 9700 \<le> u128_max \<and> c = min d (n * 9700 div 10000)"
  by (auto simp: min_with_cap_buffer_def cap_buffer_Ok)

lemma with_safety_buffer_Ok:
  "with_safety_buffer t = Ok r \<longleftrightarrow> t * 50 \<le> u128_max \<and> r = sat_add t (t * 50 div 10000)"
  by (auto simp: with_safety_buffer_def SAFETY_BUFFER_BPS_def)

lemma with_safety_buffer_min1_Ok:
  "with_safety_buffer_min1 t = Ok r \<longleftrightarrow> t * 50 \<le> u128_max \<and> r = sat_add t (max (t * 50 div 10000) 1)"
  by (auto simp: with_safety_buffer_min1_def SAFETY_BUFFER_BPS_def)

text \<open>A sizing reached \<open>Sized\<close>: no early decline on the way.\<close>

lemma Sized_after_guard [simp]:
  "(if P then Ok (Decline d) else m) = Ok (Sized r c) \<longleftrightarrow> \<not> P \<and> m = Ok (Sized r c)"
  by simp

lemma Sized_after_conversion [simp]:
  "(case x of None \<Rightarrow> Ok (Decline d) | Some y \<Rightarrow> f y) = Ok (Sized r c) \<longleftrightarrow>
     (\<exists>y. x = Some y \<and> f y = Ok (Sized r c))"
  by (cases x) auto

lemma Sized_after_reason [simp]:
  "obind m (\<lambda>d. Ok (Decline d)) = Ok (Sized r c) \<longleftrightarrow> False"
  by simp

lemma Ok_if_full:
  "(if P then Ok a else m) = Ok b \<longleftrightarrow> (P \<and> b = a) \<or> (\<not> P \<and> m = Ok b)"
  by auto

lemmas sizing_pieces = min_with_cap_buffer_Ok with_safety_buffer_Ok with_safety_buffer_min1_Ok

text \<open>The collateral target of a sizing: the whole deposit on a market without partial liquidation,
  otherwise at most the buffered eligibility cap.\<close>

definition target_within_cap :: "market_version option \<Rightarrow> nat \<Rightarrow> nat \<Rightarrow> bool" where
  "target_within_cap version deposit c \<longleftrightarrow>
     (if supports_partial_liquidation version then c \<le> deposit * 9700 div 10000 else c = deposit)"

lemma percentage_calculate_Sized:
  assumes "percentage_calculate L s position oracle cfg available version = Ok (Sized r c)"
  shows "r \<le> available \<and> 0 < c \<and> borrow_range_minimum cfg \<le> r
    \<and> target_within_cap version (collateral_asset_deposit position) c
    \<and> (\<exists>pp t. create_price_pair L (price_oracle_configuration cfg) oracle = Inr pp
        \<and> (collateral_to_borrow L c pp (liquidation_maximum_spread cfg) :: (liquidator_error, nat option) outcome)
            = Ok (Some t)
        \<and> r = sat_add t (t * 50 div 10000))"
  using assms
  by (clarsimp simp: percentage_calculate_def Let_def price_pair_of_def sizing_pieces target_within_cap_def
      Ok_if_full) (auto split: if_splits)

lemma fixed_calculate_Sized:
  assumes "fixed_calculate pow10 L s position oracle cfg available version = Ok (Sized r c)"
  defines "budget \<equiv> usd_to_raw_units pow10 (fixed_amount_usd s)
                      (borrow_asset_decimals (price_oracle_configuration cfg))"
  shows "r \<le> budget \<and> budget \<le> available \<and> 0 < c \<and> borrow_range_minimum cfg \<le> r
    \<and> target_within_cap version (collateral_asset_deposit position) c
    \<and> (\<not> supports_partial_liquidation version \<longrightarrow>
        (\<exists>pp t. create_price_pair L (price_oracle_configuration cfg) oracle = Inr pp
          \<and> (collateral_to_borrow L c pp (liquidation_maximum_spread cfg) :: (liquidator_error, nat option) outcome)
              = Ok (Some t)
          \<and> r = sat_add t (max (t * 50 div 10000) 1)))"
  using assms(1)
  by (clarsimp simp: fixed_calculate_def Let_def price_pair_of_def sizing_pieces target_within_cap_def
      budget_def Ok_if_full) (auto simp: min_def split: if_splits)

text \<open>The quotient-and-remainder cap is the exact share, and computing it cannot overflow.\<close>

lemma share_exact: "(a div 100) * p + (a mod 100) * p div 100 = a * p div (100 :: nat)"
proof -
  have "a * p = (a mod 100) * p + 100 * ((a div 100) * p)"
    by (metis add.commute distrib_right div_mult_mod_eq mult.assoc mult.commute)
  then show ?thesis by simp
qed

lemma validate_sizing_eq:
  assumes "available \<le> u128_max"
  shows "validate_sizing r c available p =
    (if r = 0 \<or> c = 0 then Err ZeroAmount
     else if 100 < p then Err (InvalidDeclaredPercentage p)
     else if available * p div 100 < r then Err (ExceedsDeclaredMax (available * p div 100))
     else Ok ())"
proof (cases "100 < p")
  case True
  then show ?thesis by (simp add: validate_sizing_def)
next
  case False
  then have p: "p \<le> 100" by simp
  have "(available div 100) * p \<le> (available div 100) * 100" using p by (rule mult_le_mono2)
  also have "\<dots> \<le> available" by simp
  finally have w: "(available div 100) * p \<le> u128_max" using assms by simp
  have "(available mod 100) * p \<le> 100 * 100" using p by (intro mult_le_mono) simp_all
  then have q: "(available mod 100) * p \<le> u128_max" by (simp add: u128_max_def)
  have "available * p div 100 \<le> available * 100 div 100" using p by (intro div_le_mono mult_le_mono2)
  then have s: "available * p div 100 \<le> u128_max" using assms by simp
  from w q s False show ?thesis
    unfolding validate_sizing_def mul_u128_def add_u128_def obind.simps share_exact by (simp add: share_exact)
qed

section \<open>The contract of a sizing strategy\<close>

text \<open>
  What the trait asks of \<open>calculate_liquidation_amount\<close> and the caller then checks: a sizing stays
  within the declared share of the balance, requests some collateral, and repays at least the
  market minimum.
\<close>

locale sizing_contract =
  fixes calc :: "borrow_position \<Rightarrow> oracle_response \<Rightarrow> 'd market_configuration \<Rightarrow> nat
      \<Rightarrow> market_version option \<Rightarrow> (liquidator_error, strategy_decision) outcome"
    and max_pct :: nat
  assumes pct_in_range: "max_pct \<le> 100"
    and within_share: "calc position oracle cfg available version = Ok (Sized r c) \<Longrightarrow>
          r \<le> available * max_pct div 100"
    and collateral_positive: "calc position oracle cfg available version = Ok (Sized r c) \<Longrightarrow> 0 < c"
    and at_least_minimum: "calc position oracle cfg available version = Ok (Sized r c) \<Longrightarrow>
          borrow_range_minimum cfg \<le> r"
begin

lemma passes_validation:
  assumes "calc position oracle cfg available version = Ok (Sized r c)"
    and "available \<le> u128_max" and "0 < r"
  shows "validate_sizing r c available max_pct = Ok ()"
  using assms pct_in_range within_share [OF assms(1)] collateral_positive [OF assms(1)]
  by (simp add: validate_sizing_eq)

lemma only_zero_repay_refused:
  assumes "calc position oracle cfg available version = Ok (Sized r c)"
    and "available \<le> u128_max"
  shows "validate_sizing r c available max_pct \<noteq> Ok () \<longleftrightarrow> r = 0"
  using assms passes_validation [OF assms] by (cases "r = 0") (simp_all add: validate_sizing_eq)

lemma validated_when_minimum_positive:
  assumes "calc position oracle cfg available version = Ok (Sized r c)"
    and "available \<le> u128_max" and "0 < borrow_range_minimum cfg"
  shows "validate_sizing r c available max_pct = Ok ()"
  using assms at_least_minimum [OF assms(1)] by (intro passes_validation) auto

end

interpretation pct: sizing_contract "percentage_calculate L s" 100 for L s
  by unfold_locales (auto dest!: percentage_calculate_Sized)

interpretation fixed: sizing_contract "fixed_calculate pow10 L s" 100 for pow10 L s
  by unfold_locales (auto dest!: fixed_calculate_Sized)

end
