(* ===== verification/Liquidator.thy ===== *)
theory Liquidator
  imports Executor Strategy
begin

text \<open>
  src/liquidator.rs: one position from its status to its settlement (\<open>liquidate\<close>). The round over the
  positions of a market is the theory Round.

  \<open>liquidate\<close> is the loop evaluate, execute, notify; its termination proof is the loop bound: an
  evaluation past the last iteration never proceeds. The oracle fetch and the on-chain price push are
  calls of the oracle component, answered by the environment. \<open>params\<close> gathers what the functions
  share: the market library, \<open>10f64.powi\<close>, the rendering of an \<open>f64\<close>, the environment and the order in
  which the map of positions iterates.
\<close>

record ('d, 'p) params =
  p_lib :: "('d, 'p) market_lib"
  p_pow10 :: "int \<Rightarrow> f64"
  p_show_f64 :: "f64 \<Rightarrow> string"
  p_env :: env
  p_hash_order :: "borrow_positions \<Rightarrow> borrow_positions" \<comment> \<open>the iteration order of the map of positions\<close>

record 'd liquidator =
  lq_market :: account_id
  lq_config :: "'d market_configuration"
  lq_strategy :: "'d strategy"
  lq_loop_liquidation :: bool
  lq_max_loop_iterations :: nat
  lq_market_version :: "market_version option"
  lq_executor :: executor

record loop_ctx =
  cx_iteration :: nat
  cx_max_iterations :: nat
  cx_loop_enabled :: bool
  cx_dry_run :: bool

record liquidation_plan =
  pl_liquidation_amount :: nat
  pl_collateral_amount :: nat
  pl_expected_collateral_value :: nat
  pl_gas_cost :: nat

record sized_liquidation =
  sz_liquidation_amount :: nat
  sz_collateral_amount :: nat
  sz_liquidatable_collateral :: nat

datatype status_check = Liquidatable string | SHealthy | SMaintenanceRequired

datatype sizing = SizedOk sized_liquidation | InventoryBelowMinimum | Declined decline_reason

datatype assessment = Plan liquidation_plan | Unpriceable | AUnprofitable

datatype skip_cause = Unfunded | StrategyDeclined | CUnpriceable

datatype evaluation =
    EHealthy
  | SkipTerminal
  | MaxedOut
  | Skip skip_cause
  | EUnprofitable
  | Proceed liquidation_plan

datatype stop_log = NoLog | CompletedHealthy | MaxedOutLog | BudgetExhaustedUnliquidated

record stop =
  st_outcome :: liquidation_outcome
  st_log :: stop_log

section \<open>The table of stops\<close>

text \<open>\<open>Inl\<close> is \<open>Break\<close>, \<open>Inr\<close> is \<open>Continue\<close>.\<close>

fun map_evaluation :: "evaluation \<Rightarrow> bool \<Rightarrow> stop + liquidation_plan" where
  "map_evaluation EHealthy after_success =
     Inl (if after_success then \<lparr>st_outcome = Liquidated, st_log = CompletedHealthy\<rparr>
          else \<lparr>st_outcome = OHealthy, st_log = NoLog\<rparr>)"
| "map_evaluation SkipTerminal after_success =
     Inl \<lparr>st_outcome = (if after_success then Liquidated else Skipped), st_log = NoLog\<rparr>"
| "map_evaluation MaxedOut after_success =
     Inl (if after_success then \<lparr>st_outcome = Liquidated, st_log = MaxedOutLog\<rparr>
          else \<lparr>st_outcome = Skipped, st_log = BudgetExhaustedUnliquidated\<rparr>)"
| "map_evaluation (Skip cause) after_success =
     Inl \<lparr>st_outcome =
            (if after_success then Liquidated
             else (case cause of Unfunded \<Rightarrow> SkippedUnfunded
                   | StrategyDeclined \<Rightarrow> Skipped | CUnpriceable \<Rightarrow> Skipped)),
          st_log = NoLog\<rparr>"
| "map_evaluation EUnprofitable after_success =
     Inl \<lparr>st_outcome = (if after_success then Liquidated else Unprofitable), st_log = NoLog\<rparr>"
| "map_evaluation (Proceed plan) after_success = Inr plan"

definition resolve_evaluation :: "evaluation \<Rightarrow> loop_ctx \<Rightarrow> liquidation_outcome + liquidation_plan" where
  "resolve_evaluation evaluation ctx =
     (case map_evaluation evaluation (1 < cx_iteration ctx) of
        Inr plan \<Rightarrow> Inr plan
      | Inl st \<Rightarrow> Inl (st_outcome st))"

section \<open>Evaluating a position\<close>

definition require_conversions ::
    "(liquidator_error, nat) outcome \<Rightarrow> (liquidator_error, nat) outcome \<Rightarrow> (nat \<times> nat) option" where
  "require_conversions value_result gas_result =
     (case (value_result, gas_result) of
        (Ok val, Ok gas) \<Rightarrow> Some (val, gas)
      | _ \<Rightarrow> None)"

definition record_price_update_attempt :: "liquidator_error + bool \<Rightarrow> bool" where
  "record_price_update_attempt result = (case result of Inr _ \<Rightarrow> True | Inl _ \<Rightarrow> True)"

definition total_cost :: "liquidation_plan \<Rightarrow> nat" where
  "total_cost plan = sat_add (pl_liquidation_amount plan) (pl_gas_cost plan)"

text \<open>\<open>i128::try_from\<close> of a \<open>u128\<close>, with \<open>i128::MAX\<close> for a value that does not fit.\<close>

definition to_i128 :: "nat \<Rightarrow> int" where
  "to_i128 n = (if int n \<le> i128_max then int n else i128_max)"

definition signed_profit :: "nat \<Rightarrow> nat \<Rightarrow> int" where
  "signed_profit revenue cost =
     (if cost \<le> revenue then to_i128 (revenue - cost) else - to_i128 (cost - revenue))"

definition check_status ::
    "('d, 'p) params \<Rightarrow> 'd liquidator \<Rightarrow> account_id \<Rightarrow> borrow_position \<Rightarrow> oracle_response \<Rightarrow> loop_ctx
     \<Rightarrow> world \<Rightarrow> (liquidator_error, status_check) outcome \<times> world" where
  "check_status P lq borrow_account position oracle ctx w =
     (let (st, w') = get_borrow_status (p_env P) borrow_account oracle w in
      (obind (map_err FetchBorrowStatus st) (\<lambda>status.
         case status of
           Some (Liquidation reason) \<Rightarrow>
             if cx_iteration ctx = 1
             then obind (price_pair_of (p_lib P) (lq_config lq) oracle) (\<lambda>_. Ok (Liquidatable reason))
             else Ok (Liquidatable reason)
         | Some MaintenanceRequired \<Rightarrow> Ok SMaintenanceRequired
         | Some Healthy \<Rightarrow> Ok SHealthy
         | None \<Rightarrow> Ok SHealthy), w'))"

definition size_position ::
    "('d, 'p) params \<Rightarrow> 'd liquidator \<Rightarrow> borrow_position \<Rightarrow> oracle_response \<Rightarrow> world
     \<Rightarrow> (liquidator_error, sizing) outcome" where
  "size_position P lq position oracle w =
     obind (price_pair_of (p_lib P) (lq_config lq) oracle) (\<lambda>price_pair.
     let liquidatable = liquidatable_collateral (p_lib P) position price_pair
                          (borrow_mcr_maintenance (lq_config lq)) (liquidation_maximum_spread (lq_config lq));
         available = get_available_balance (w_inventory w) (borrow_asset (lq_config lq));
         contract_minimum = borrow_range_minimum (lq_config lq) in
     if available < contract_minimum then Ok InventoryBelowMinimum
     else
     let adjusted = (if supports_partial_liquidation (lq_market_version lq)
                     then position\<lparr>collateral_asset_deposit := liquidatable\<rparr> else position) in
     obind (calculate_liquidation_amount (lq_strategy lq) adjusted oracle (lq_config lq) available
              (lq_market_version lq)) (\<lambda>decision.
     case decision of
       Decline reason \<Rightarrow> Ok (Declined reason)
     | Sized repay collateral \<Rightarrow>
         (case validate_sizing repay collateral available (max_liquidation_percentage (lq_strategy lq)) of
            Ok _ \<Rightarrow> Ok (SizedOk \<lparr>sz_liquidation_amount = repay, sz_collateral_amount = collateral,
                              sz_liquidatable_collateral = liquidatable\<rparr>)
          | Err _ \<Rightarrow> Ok (Declined NotViable)
          | Panic \<Rightarrow> Panic)))"

definition assess_profitability ::
    "('d, 'p) params \<Rightarrow> 'd liquidator \<Rightarrow> oracle_response \<Rightarrow> sized_liquidation
     \<Rightarrow> (liquidator_error, assessment) outcome" where
  "assess_profitability P lq oracle sized =
     (case require_conversions
             (convert_collateral_to_borrow_asset (p_pow10 P) (p_show_f64 P) (sz_collateral_amount sized)
                oracle (lq_config lq))
             (convert_gas_cost_to_borrow_asset (p_pow10 P) (p_show_f64 P) DEFAULT_GAS_COST_USD
                oracle (lq_config lq)) of
        None \<Rightarrow> Ok Unpriceable
      | Some (expected_value, gas_cost) \<Rightarrow>
          let theoretical = sat_mul (sz_liquidation_amount sized) 10000 div (10000 + SAFETY_BUFFER_BPS) in
          obind (should_liquidate (lq_strategy lq) theoretical expected_value gas_cost) (\<lambda>is_profitable.
          Ok (if is_profitable
              then Plan \<lparr>pl_liquidation_amount = sz_liquidation_amount sized,
                         pl_collateral_amount = sz_collateral_amount sized,
                         pl_expected_collateral_value = expected_value, pl_gas_cost = gas_cost\<rparr>
              else AUnprofitable)))"

definition evaluate_position ::
    "('d, 'p) params \<Rightarrow> 'd liquidator \<Rightarrow> account_id \<Rightarrow> borrow_position \<Rightarrow> oracle_response \<Rightarrow> loop_ctx
     \<Rightarrow> world \<Rightarrow> (liquidator_error, evaluation) outcome \<times> world" where
  "evaluate_position P lq borrow_account position oracle ctx w =
     (let (checked, w') = check_status P lq borrow_account position oracle ctx w in
      (obind checked (\<lambda>status.
         case status of
           SHealthy \<Rightarrow> Ok EHealthy
         | SMaintenanceRequired \<Rightarrow> Ok SkipTerminal
         | Liquidatable reason \<Rightarrow>
             if cx_max_iterations ctx < cx_iteration ctx then Ok MaxedOut
             else
             obind (size_position P lq position oracle w') (\<lambda>sizing.
             case sizing of
               InventoryBelowMinimum \<Rightarrow> Ok (Skip Unfunded)
             | Declined InsufficientInventory \<Rightarrow> Ok (Skip Unfunded)
             | Declined NotViable \<Rightarrow> Ok (Skip StrategyDeclined)
             | SizedOk sized \<Rightarrow>
                 obind (assess_profitability P lq oracle sized) (\<lambda>assessed.
                 case assessed of
                   Plan plan \<Rightarrow> Ok (Proceed plan)
                 | Unpriceable \<Rightarrow> Ok (Skip CUnpriceable)
                 | AUnprofitable \<Rightarrow> Ok EUnprofitable))), w'))"

section \<open>Executing a plan\<close>

definition push_prices :: "('d, 'p) params \<Rightarrow> 'd liquidator \<Rightarrow> world \<Rightarrow> bool \<times> world" where
  "push_prices P lq w =
     (let oc = price_oracle_configuration (lq_config lq) in
      (record_price_update_attempt (e_update_onchain_prices (p_env P) (w_trace w)),
       emit (EvPricesPushed (oracle_account_id oc) [borrow_asset_price_id oc, collateral_asset_price_id oc]) w))"

definition plan_request :: "liquidation_plan \<Rightarrow> execution_request" where
  "plan_request plan =
     \<lparr>liquidation_amount = pl_liquidation_amount plan, collateral_amount = pl_collateral_amount plan,
      expected_collateral_value = pl_expected_collateral_value plan\<rparr>"

text \<open>\<open>Ok None\<close>: the position lost the race for the inventory, nothing moved.\<close>

definition execute_plan ::
    "('d, 'p) params \<Rightarrow> 'd liquidator \<Rightarrow> account_id \<Rightarrow> liquidation_plan \<Rightarrow> bool \<Rightarrow> world
     \<Rightarrow> (liquidator_error, (liquidation_outcome \<times> swap_issue option) option) outcome \<times> bool \<times> world" where
  "execute_plan P lq borrow_account plan pushed w =
     (let ex = lq_executor lq; dry_run = ex_dry_run ex;
          b = borrow_asset (lq_config lq); c = collateral_asset (lq_config lq);
          (settle, w1) =
            (if dry_run then (Ok DryRun, w)
             else case reserve (w_inventory w) b (pl_liquidation_amount plan) of
                    (Ok r, inv') \<Rightarrow> (Ok (Live r), w\<lparr>w_inventory := inv'\<rparr>)
                  | (Err e, inv') \<Rightarrow> (Err e, w\<lparr>w_inventory := inv'\<rparr>)
                  | (Panic, inv') \<Rightarrow> (Panic, w\<lparr>w_inventory := inv'\<rparr>)) in
      case settle of
        Panic \<Rightarrow> (Panic, pushed, w1)
      | Err _ \<Rightarrow> (Ok None, pushed, w1)
      | Ok settlement \<Rightarrow>
          let (pushed', w2) = (if \<not> pushed \<and> \<not> dry_run then push_prices P lq w1 else (pushed, w1));
              (res, w3) = execute_liquidation (p_pow10 P) (p_env P) ex borrow_account b c
                            (plan_request plan) settlement w2 in
          (obind res (\<lambda>x. Ok (Some x)), pushed', w3))"

definition notify_execution ::
    "('d, 'p) params \<Rightarrow> 'd liquidator \<Rightarrow> account_id \<Rightarrow> liquidation_plan \<Rightarrow> liquidation_outcome
     \<Rightarrow> swap_issue option \<Rightarrow> bool \<Rightarrow> world \<Rightarrow> world" where
  "notify_execution P lq borrow_account plan oc issue dry_run w =
     (let cfg = lq_config lq; ocfg = price_oracle_configuration cfg;
          w1 = (if oc = Liquidated then
                  emit (EvNotifyLiquidation (lq_market lq) borrow_account
                    (format_amount_short (p_pow10 P) (pl_liquidation_amount plan)
                       (borrow_asset_decimals ocfg) (borrow_asset cfg))
                    (format_amount_short (p_pow10 P) (pl_collateral_amount plan)
                       (collateral_asset_decimals ocfg) (collateral_asset cfg))
                    (format_profit_short (p_pow10 P)
                       (signed_profit (pl_expected_collateral_value plan) (total_cost plan))
                       (pl_liquidation_amount plan) (borrow_asset_decimals ocfg) (borrow_asset cfg))
                    dry_run) w
                else w) in
      case issue of None \<Rightarrow> w1 | Some i \<Rightarrow> emit (EvNotifySwap (lq_market lq) i) w1)"

section \<open>The loop\<close>

definition dry_run_mode :: "'d liquidator \<Rightarrow> bool" where
  "dry_run_mode lq = ex_dry_run (lq_executor lq)"

definition loop_enabled :: "'d liquidator \<Rightarrow> bool" where
  "loop_enabled lq \<longleftrightarrow> lq_loop_liquidation lq \<and> \<not> dry_run_mode lq"

definition max_iterations :: "'d liquidator \<Rightarrow> nat" where
  "max_iterations lq = (if dry_run_mode lq then 1 else lq_max_loop_iterations lq)"

definition ctx_of :: "'d liquidator \<Rightarrow> nat \<Rightarrow> loop_ctx" where
  "ctx_of lq iteration =
     \<lparr>cx_iteration = iteration, cx_max_iterations = max_iterations lq,
      cx_loop_enabled = loop_enabled lq, cx_dry_run = dry_run_mode lq\<rparr>"

lemma resolve_Inr [simp]: "resolve_evaluation ev ctx = Inr plan \<longleftrightarrow> ev = Proceed plan"
  by (cases ev) (auto simp: resolve_evaluation_def)

text \<open>An evaluation past the last iteration never proceeds: what ends the loop.\<close>

lemma proceed_within_budget:
  assumes "evaluate_position P lq a pos oracle ctx w = (Ok (Proceed plan), w')"
  shows "cx_iteration ctx \<le> cx_max_iterations ctx"
proof (rule ccontr)
  assume over: "\<not> cx_iteration ctx \<le> cx_max_iterations ctx"
  obtain checked w1 where c: "check_status P lq a pos oracle ctx w = (checked, w1)" by fastforce
  show False
  proof (cases checked)
    case (Ok status)
    with assms c over show False by (cases status) (simp_all add: evaluate_position_def)
  qed (use assms c in \<open>simp_all add: evaluate_position_def\<close>)
qed

function liquidate_loop ::
    "('d, 'p) params \<Rightarrow> 'd liquidator \<Rightarrow> account_id \<Rightarrow> oracle_response \<Rightarrow> nat \<Rightarrow> bool \<Rightarrow> nat \<Rightarrow> nat
     \<Rightarrow> borrow_position \<Rightarrow> world \<Rightarrow> (liquidator_error, liquidation_outcome) outcome \<times> world" where
  "liquidate_loop P lq borrow_account oracle done_iterations pushed total_liquidated total_collateral position w =
     (if u32_max < done_iterations + 1 then (Panic, w)
      else
      let iteration = done_iterations + 1 in
      case evaluate_position P lq borrow_account position oracle (ctx_of lq iteration) w of
        (Panic, w1) \<Rightarrow> (Panic, w1)
      | (Err e, w1) \<Rightarrow> (Err e, w1)
      | (Ok evaluation, w1) \<Rightarrow>
     (case resolve_evaluation evaluation (ctx_of lq iteration) of
        Inl oc \<Rightarrow> (Ok oc, w1)
      | Inr plan \<Rightarrow>
     (case execute_plan P lq borrow_account plan pushed w1 of
        (Panic, _, w2) \<Rightarrow> (Panic, w2)
      | (Err e, _, w2) \<Rightarrow> (Err e, w2)
      | (Ok None, _, w2) \<Rightarrow> (Ok (if 1 < iteration then Liquidated else SkippedUnfunded), w2)
      | (Ok (Some (oc, issue)), pushed', w2) \<Rightarrow>
          let w3 = notify_execution P lq borrow_account plan oc issue (dry_run_mode lq) w2;
              total_liquidated' = total_liquidated + pl_liquidation_amount plan;
              total_collateral' = total_collateral + pl_collateral_amount plan in
          if u128_max < total_liquidated' \<or> u128_max < total_collateral' then (Panic, w3)
          else if \<not> loop_enabled lq then (Ok oc, w3)
          else
         (case get_borrow_position (p_env P) borrow_account w3 of
            (Panic, w4) \<Rightarrow> (Panic, w4)
          | (Ok (Some updated), w4) \<Rightarrow>
              liquidate_loop P lq borrow_account oracle iteration pushed' total_liquidated' total_collateral' updated w4
          | (Ok None, w4) \<Rightarrow> (Ok Liquidated, w4)
          | (Err _, w4) \<Rightarrow> (Ok Liquidated, w4)))))"
  by pat_completeness auto
termination
  by (relation "measure (\<lambda>(P, lq, a, oracle, i, _). Suc (max_iterations lq) - i)")
     (fastforce dest: proceed_within_budget [OF sym] simp: ctx_of_def)+

declare liquidate_loop.simps [simp del]

definition liquidate ::
    "('d, 'p) params \<Rightarrow> 'd liquidator \<Rightarrow> account_id \<Rightarrow> borrow_position \<Rightarrow> oracle_response \<Rightarrow> world
     \<Rightarrow> (liquidator_error, liquidation_outcome) outcome \<times> world" where
  "liquidate P lq borrow_account position oracle w =
     liquidate_loop P lq borrow_account oracle 0 False 0 0 position w"

section \<open>What one plan does\<close>

text \<open>The gateway reports a balance as a \<open>u128\<close>; a ledger whose amounts are \<open>u128\<close> values stays one.\<close>

definition env_ok :: "env \<Rightarrow> bool" where
  "env_ok E \<longleftrightarrow> (\<forall>tr a v. e_balance E tr a = Inr v \<longrightarrow> v \<le> u128_max)"

definition ledger_ok :: "inventory_manager \<Rightarrow> bool" where
  "ledger_ok m \<longleftrightarrow> (\<forall>a. get_total_balance m a \<le> u128_max \<and> get_reserved_balance m a \<le> u128_max)"

text \<open>\<open>settled b m m'\<close>: no reservation was left behind or lost, and no balance but that of the borrow
  asset \<open>b\<close> changed.\<close>

definition settled :: "asset \<Rightarrow> inventory_manager \<Rightarrow> inventory_manager \<Rightarrow> bool" where
  "settled b m m' \<longleftrightarrow>
     manager_id m' = manager_id m
     \<and> (\<forall>a. get_reserved_balance m' a = get_reserved_balance m a)
     \<and> (\<forall>a. a \<noteq> b \<longrightarrow> get_total_balance m' a = get_total_balance m a)
     \<and> ledger_ok m'"

lemma settled_refl: "ledger_ok m \<Longrightarrow> settled b m m"
  by (simp add: settled_def)

lemma settled_trans: "settled b m1 m2 \<Longrightarrow> settled b m2 m3 \<Longrightarrow> settled b m1 m3"
  by (simp add: settled_def)

lemma settled_released:
  assumes "ledger_ok m" "reserve m b n = (Ok r, m1)"
  shows "settled b m (release m1 r)"
proof -
  have B: "get_total_balance m b \<le> u128_max" "get_reserved_balance m b \<le> u128_max"
    using assms(1) by (simp_all add: ledger_ok_def)
  from ledger.reserve_then_release [OF assms(2) B] assms show ?thesis
    by (simp add: settled_def ledger_ok_def reserve_Ok(3))
qed

lemma settled_consumed:
  assumes "ledger_ok m" "env_ok E" "reserve m b n = (Ok r, w_inventory w)"
    and c: "consumed_only E r b w w'"
  shows "settled b m (w_inventory w')"
proof -
  have B: "get_total_balance m b \<le> u128_max" "get_reserved_balance m b \<le> u128_max"
    using assms(1) by (simp_all add: ledger_ok_def)
  note rc = ledger.reserve_then_consume [OF assms(3) B]
  have bal: "get_total_balance (w_inventory w') a \<le> u128_max" for a
  proof (cases "a = b")
    case True
    have "get_total_balance (consume (w_inventory w) r) b \<le> u128_max"
      using rc B by (simp add: le_trans [OF diff_le_self])
    with c assms(2) True show ?thesis by (auto simp: consumed_only_def env_ok_def)
  next
    case False
    with c rc assms(1) show ?thesis by (simp add: consumed_only_def ledger_ok_def)
  qed
  with c rc assms show ?thesis
    by (simp add: settled_def ledger_ok_def consumed_only_def reserve_Ok(3))
qed

lemma push_prices_effect:
  "push_prices P lq w = (pushed', w') \<Longrightarrow>
     pushed' \<and> w_inventory w' = w_inventory w
     \<and> (\<exists>b ids. extends w w' [EvPricesPushed b ids])"
  by (auto simp: push_prices_def Let_def record_price_update_attempt_def extends_def split: sum.splits)

lemma confirmed_execution:
  assumes "new = [] \<or> (\<exists>post. new = post @ [EvLiquidate acct n c] \<and> submitted post = [])"
    and "pn = [] \<or> (\<exists>b ids. pn = [EvPricesPushed b ids])" and "fresh E acct oracle old"
  shows "confirmed E {acct} oracle (new @ pn) old"
  using assms by (auto simp: confirmed_quiet)

lemma execute_plan_effect:
  assumes run: "execute_plan P lq acct plan pushed w = (res, pushed', w')"
    and env: "env_ok (p_env P)" and led: "ledger_ok (w_inventory w)"
  obtains (simulated) "dry_run_mode lq" "res = Ok (Some (Liquidated, None))" "w' = w" "pushed' = pushed"
  | (race) "\<not> dry_run_mode lq" "res = Ok None" "w' = w" "pushed' = pushed"
  | (failed) err new where "\<not> dry_run_mode lq" "res = Err err" "pushed'"
      "settled (borrow_asset (lq_config lq)) (w_inventory w) (w_inventory w')"
      "extends w w' new" "length (pushes new) = (if pushed then 0 else 1)" "length (submitted new) \<le> 1"
      "phase err = Execution \<longleftrightarrow> submitted new \<noteq> []"
      "\<And>oracle. fresh (p_env P) acct oracle (w_trace w) \<Longrightarrow> confirmed (p_env P) {acct} oracle new (w_trace w)"
  | (landed) issue new where "\<not> dry_run_mode lq" "res = Ok (Some (Liquidated, issue))" "pushed'"
      "settled (borrow_asset (lq_config lq)) (w_inventory w) (w_inventory w')"
      "extends w w' new" "length (pushes new) = (if pushed then 0 else 1)"
      "submitted new = [EvLiquidate acct (pl_liquidation_amount plan) (pl_collateral_amount plan)]"
      "\<And>oracle. fresh (p_env P) acct oracle (w_trace w) \<Longrightarrow> confirmed (p_env P) {acct} oracle new (w_trace w)"
proof (cases "dry_run_mode lq")
  case True
  with run show thesis
    by (intro simulated) (auto simp: execute_plan_def dry_run_mode_def execute_dry_run Let_def)
next
  case live: False
  let ?b = "borrow_asset (lq_config lq)"
  obtain rv m1 where rv: "reserve (w_inventory w) ?b (pl_liquidation_amount plan) = (rv, m1)" by fastforce
  show thesis
  proof (cases rv)
    case Panic
    with rv show thesis by simp
  next
    case (Err e)
    with rv have "m1 = w_inventory w" using reserve_Err by simp
    with run live rv Err show thesis
      by (intro race) (auto simp: execute_plan_def dry_run_mode_def Let_def)
  next
    case (Ok r)
    let ?w1 = "w\<lparr>w_inventory := m1\<rparr>"
    obtain p2 w2 where p2: "(if \<not> pushed then push_prices P lq ?w1 else (pushed, ?w1)) = (p2, w2)" by fastforce
    obtain r3 w3 where r3: "execute_liquidation (p_pow10 P) (p_env P) (lq_executor lq) acct ?b
        (collateral_asset (lq_config lq)) (plan_request plan) (Live r) w2 = (r3, w3)" by fastforce
    have eq: "res = obind r3 (\<lambda>x. Ok (Some x))" "pushed' = p2" "w' = w3"
      using run live rv Ok p2 r3 by (auto simp: execute_plan_def dry_run_mode_def Let_def split: if_splits)
    obtain pn where w2: "p2" "w_inventory w2 = m1" "extends w w2 pn"
        "length (pushes pn) = (if pushed then 0 else 1)" "submitted pn = []"
        "pn = [] \<or> (\<exists>b ids. pn = [EvPricesPushed b ids])"
    proof (cases pushed)
      case True
      with p2 that [of "[]"] show thesis by (auto simp: extends_def)
    next
      case False
      with p2 have "push_prices P lq ?w1 = (p2, w2)" by simp
      from push_prices_effect [OF this] obtain b ids where "p2" "w_inventory w2 = m1"
        "extends ?w1 w2 [EvPricesPushed b ids]" by auto
      with False that [of "[EvPricesPushed b ids]"] show thesis by (simp add: extends_def)
    qed
    have rk: "reserve (w_inventory w) ?b (pl_liquidation_amount plan) = (Ok r, m1)" using rv Ok by simp
    have own: "issued (w_inventory w2) r"
      using w2(2) ledger.reserve_token [OF rk] by simp
    from r3 own show thesis
    proof (cases rule: execute_live_cases)
      case (failed err new)
      have "settled ?b (w_inventory w) (w_inventory w')"
        using settled_released [OF led rk] failed(2) w2(2) eq by (simp add: released_only_def)
      moreover have "extends w w' (new @ pn)" using extends_trans [OF w2(3) failed(3)] eq by simp
      ultimately show thesis
        using failed(1,4,5,7) confirmed_execution [OF failed(8) w2(6)] w2(1,4,5) live eq
          that(3) [of err "new @ pn"] by auto
    next
      case (landed issue new operation)
      have "settled ?b (w_inventory w) (w_inventory w')"
        using settled_consumed [OF led env, of ?b _ r w2 w3] rk landed(2) w2(2) eq by simp
      moreover have "extends w w' (new @ pn)" using extends_trans [OF w2(3) landed(3)] eq by simp
      ultimately show thesis
        using landed(1,4,5) confirmed_execution [OF disjI2 [OF landed(10)] w2(6)] w2(1,4,5) live eq
          that(4) [of issue "new @ pn"] by (simp add: plan_request_def)
    qed
  qed
qed

section \<open>What one call of \<open>liquidate\<close> does\<close>

lemma check_status_world:
  "check_status P lq a pos oracle ctx w = (r, w') \<Longrightarrow>
     w_inventory w' = w_inventory w \<and> w_trace w' = EvStatusRead a # w_trace w"
  by (auto simp: check_status_def get_borrow_status_def)

lemma evaluate_position_world:
  "evaluate_position P lq a pos oracle ctx w = (r, w') \<Longrightarrow>
     w_inventory w' = w_inventory w \<and> w_trace w' = EvStatusRead a # w_trace w"
  by (auto simp: evaluate_position_def split: prod.splits dest: check_status_world)

lemma notify_execution_world:
  "w_inventory (notify_execution P lq a plan oc issue dry w) = w_inventory w"
  "\<exists>new. extends w (notify_execution P lq a plan oc issue dry w) new \<and> money new = []"
  by (auto simp: notify_execution_def Let_def extends_def is_money_event_def split: option.split)

lemma get_borrow_position_world:
  "get_borrow_position E a w = (r, w') \<Longrightarrow>
     r \<noteq> Panic \<and> w_inventory w' = w_inventory w \<and> w_trace w' = EvPositionRead a # w_trace w"
  by (cases "e_borrow_position E (w_trace w) a") (auto simp: get_borrow_position_def)

text \<open>A strategy reports preparation errors only, never those of a submitted transaction.\<close>

definition strategy_prepares :: "'d strategy \<Rightarrow> bool" where
  "strategy_prepares s \<longleftrightarrow>
     (\<forall>pos oracle cfg available v e.
        calculate_liquidation_amount s pos oracle cfg available v = Err e \<longrightarrow> phase e \<noteq> Execution)
     \<and> (\<forall>n rev gas e. should_liquidate s n rev gas = Err e \<longrightarrow> phase e \<noteq> Execution)"

lemma price_pair_phase: "price_pair_of L cfg oracle = Err e \<Longrightarrow> phase e = Scan"
  by (cases "create_price_pair L (price_oracle_configuration cfg) oracle") (auto simp: price_pair_of_def)

lemma check_status_phase: "check_status P lq a pos oracle ctx w = (Err e, w') \<Longrightarrow> phase e = Scan"
  by (auto simp: check_status_def get_borrow_status_def       split: option.splits borrow_status.splits if_splits elim!: obind_ErrE dest: price_pair_phase)

lemma sized_or_declined:
  "(case d of Sized r c \<Rightarrow> (case v r c of Ok _ \<Rightarrow> Ok (s r c) | Err _ \<Rightarrow> Ok t | Panic \<Rightarrow> Panic)
    | Decline x \<Rightarrow> Ok (u x)) \<noteq> Err e"
  by (simp split: strategy_decision.split outcome.split)

lemma size_position_phase:
  assumes "size_position P lq pos oracle w = Err e" "strategy_prepares (lq_strategy lq)"
  shows "phase e \<noteq> Execution"
  using assms
  by (auto simp: size_position_def strategy_prepares_def Let_def sized_or_declined
      dest: price_pair_phase elim!: obind_ErrE split: if_splits)

lemma assess_profitability_phase:
  assumes "assess_profitability P lq oracle sized = Err e" "strategy_prepares (lq_strategy lq)"
  shows "phase e \<noteq> Execution"
  using assms
  by (auto simp: assess_profitability_def strategy_prepares_def Let_def elim!: obind_ErrE split: option.splits if_splits)

lemma evaluate_position_phase:
  assumes "evaluate_position P lq a pos oracle ctx w = (Err e, w')" and prep: "strategy_prepares (lq_strategy lq)"
  shows "phase e \<noteq> Execution"
proof -
  obtain checked w1 where c: "check_status P lq a pos oracle ctx w = (checked, w1)" by fastforce
  with assms(1) show ?thesis
    by (cases checked)
       (auto simp: evaluate_position_def Let_def
         dest: size_position_phase [OF _ prep] assess_profitability_phase [OF _ prep] check_status_phase
         elim!: obind_ErrE split: status_check.splits if_splits sizing.splits decline_reason.splits assessment.splits)
qed

text \<open>\<open>loop_effect\<close>: what the iterations after the first \<open>i\<close> do, whatever their result.\<close>

definition loop_effect ::
    "('d, 'p) params \<Rightarrow> 'd liquidator \<Rightarrow> account_id \<Rightarrow> oracle_response \<Rightarrow> nat \<Rightarrow> bool \<Rightarrow> world
     \<Rightarrow> (liquidator_error, liquidation_outcome) outcome \<Rightarrow> world \<Rightarrow> event list \<Rightarrow> bool" where
  "loop_effect P lq a resp i pushed w res w' new \<longleftrightarrow>
     extends w w' new
     \<and> settled (borrow_asset (lq_config lq)) (w_inventory w) (w_inventory w')
     \<and> length (pushes new) \<le> (if pushed then 0 else 1)
     \<and> length (submitted new) \<le> max_iterations lq - i
     \<and> (\<not> loop_enabled lq \<longrightarrow> length (submitted new) \<le> 1)
     \<and> (dry_run_mode lq \<longrightarrow> money new = [] \<and> w_inventory w' = w_inventory w)
     \<and> (\<forall>oc. res = Ok oc \<longrightarrow> 0 < i \<or> submitted new \<noteq> [] \<longrightarrow> oc = Liquidated)
     \<and> (res = Ok Liquidated \<longrightarrow> \<not> dry_run_mode lq \<longrightarrow> i = 0 \<longrightarrow> submitted new \<noteq> [])
     \<and> (strategy_prepares (lq_strategy lq) \<longrightarrow>
          (\<forall>e. res = Err e \<longrightarrow> phase e = Execution \<longrightarrow> submitted new \<noteq> []))
     \<and> confirmed (p_env P) {a} resp new (w_trace w)"

lemma resolve_Inl:
  "resolve_evaluation ev ctx = Inl oc \<Longrightarrow>
     (if 1 < cx_iteration ctx then oc = Liquidated else oc \<noteq> Liquidated)"
  by (cases ev) (auto simp: resolve_evaluation_def split: skip_cause.splits if_splits)

text \<open>A step that moves nothing: the reads and the notifications.\<close>

lemma loop_effect_quiet:
  assumes "ledger_ok (w_inventory w)" "w_inventory w' = w_inventory w" "extends w w' new" "money new = []"
    and "\<And>oc. res = Ok oc \<Longrightarrow> 0 < i \<Longrightarrow> oc = Liquidated"
    and "res = Ok Liquidated \<Longrightarrow> \<not> dry_run_mode lq \<Longrightarrow> 0 < i"
    and "\<And>e. res = Err e \<Longrightarrow> strategy_prepares (lq_strategy lq) \<Longrightarrow> phase e \<noteq> Execution"
  shows "loop_effect P lq a resp i pushed w res w' new"
  using assms no_money [OF assms(4)] by (auto simp: loop_effect_def settled_refl confirmed_quiet)

text \<open>Quiet steps before and after do not change what the loop does.\<close>

lemma loop_effect_frame:
  assumes "loop_effect P lq a resp i pushed w1 res w2 new"
    and "extends w w1 pre" "money pre = []" "w_inventory w1 = w_inventory w"
    and "extends w2 w3 post" "money post = []" "w_inventory w3 = w_inventory w2"
  shows "loop_effect P lq a resp i pushed w res w3 (post @ new @ pre)"
  using assms no_money [OF assms(3)] no_money [OF assms(6)]
  by (simp add: loop_effect_def extends_def confirmed_quiet)

lemma loop_effect_landed:
  assumes "\<not> dry_run_mode lq" "settled (borrow_asset (lq_config lq)) (w_inventory w) (w_inventory w')"
    and "extends w w' new" "length (pushes new) = (if pushed then 0 else 1)"
    and "submitted new = [ev]" "confirmed (p_env P) {a} resp new (w_trace w)" "i < max_iterations lq" "\<And>oc. res = Ok oc \<Longrightarrow> oc = Liquidated"
  shows "loop_effect P lq a resp i pushed w res w' new"
  using assms by (simp add: loop_effect_def)

lemma loop_effect_failed:
  assumes "\<not> dry_run_mode lq" "settled (borrow_asset (lq_config lq)) (w_inventory w) (w_inventory w')"
    and "extends w w' new" "length (pushes new) = (if pushed then 0 else 1)"
    and "length (submitted new) \<le> 1" "confirmed (p_env P) {a} resp new (w_trace w)" "phase err = Execution \<longleftrightarrow> submitted new \<noteq> []" "i < max_iterations lq"
  shows "loop_effect P lq a resp i pushed w (Err err) w' new"
  using assms by (simp add: loop_effect_def)

lemma loop_effect_again:
  assumes one: "loop_effect P lq a resp i pushed w (Ok Liquidated) w1 new" "length (submitted new) = 1"
    and rest: "loop_effect P lq a resp (Suc i) True w1 res w2 later"
    and "loop_enabled lq" "i < max_iterations lq"
  shows "loop_effect P lq a resp i pushed w res w2 (later @ new)"
  using assms by (auto simp: loop_effect_def loop_enabled_def extends_def intro: settled_trans)

text \<open>\<open>after_plan\<close>: the rest of an iteration once its plan was executed, the next iterations included.\<close>

definition after_plan where
  "after_plan P lq a resp i tl0 tc0 plan xr p2 w2 =
    (case xr of
       Panic \<Rightarrow> (Panic, w2)
     | Err e \<Rightarrow> (Err e, w2)
     | Ok None \<Rightarrow> (Ok (if 0 < i then Liquidated else SkippedUnfunded), w2)
     | Ok (Some (oc, issue)) \<Rightarrow>
         let w3 = notify_execution P lq a plan oc issue (dry_run_mode lq) w2 in
         if u128_max < tl0 + pl_liquidation_amount plan \<or> u128_max < tc0 + pl_collateral_amount plan
         then (Panic, w3)
         else if \<not> loop_enabled lq then (Ok oc, w3)
         else (case get_borrow_position (p_env P) a w3 of
                 (Ok (Some updated), w4) \<Rightarrow>
                   liquidate_loop P lq a resp (Suc i) p2 (tl0 + pl_liquidation_amount plan)
                     (tc0 + pl_collateral_amount plan) updated w4
               | (Panic, w4) \<Rightarrow> (Panic, w4)
               | (_, w4) \<Rightarrow> (Ok Liquidated, w4)))"

lemma liquidate_loop_planned:
  assumes "evaluate_position P lq a pos resp (ctx_of lq (Suc i)) w = (Ok (Proceed plan), w1)"
    and "Suc i \<le> u32_max" "execute_plan P lq a plan pushed w1 = (xr, p2, w2)"
  shows "liquidate_loop P lq a resp i pushed tl0 tc0 pos w = after_plan P lq a resp i tl0 tc0 plan xr p2 w2"
proof -
  from assms show ?thesis
    by (subst liquidate_loop.simps)
       (auto simp: Let_def after_plan_def resolve_evaluation_def split: outcome.splits option.splits prod.splits)
qed

text \<open>The two ways an evaluation ends the loop.\<close>

lemma liquidate_loop_stopped:
  assumes "evaluate_position P lq a pos resp (ctx_of lq (Suc i)) w = (Ok ev, w1)"
    and "resolve_evaluation ev (ctx_of lq (Suc i)) = Inl oc" "Suc i \<le> u32_max"
  shows "liquidate_loop P lq a resp i pushed tl0 tc0 pos w = (Ok oc, w1)"
  using assms by (subst liquidate_loop.simps) simp

lemma liquidate_loop_error:
  assumes "evaluate_position P lq a pos resp (ctx_of lq (Suc i)) w = (Err e, w1)" "Suc i \<le> u32_max"
  shows "liquidate_loop P lq a resp i pushed tl0 tc0 pos w = (Err e, w1)"
  using assms by (subst liquidate_loop.simps) simp

lemma loop_effect_frame':
  assumes "loop_effect P lq a resp i pushed w1 res w2 new"
    and "extends w2 w3 post" "money post = []" "w_inventory w3 = w_inventory w2"
  shows "loop_effect P lq a resp i pushed w1 res w3 (post @ new)"
  using loop_effect_frame [OF assms(1) _ _ refl assms(2-4), of "[]"] by simp

text \<open>A landed liquidation and what follows, the later iterations by assumption.\<close>

lemma after_landed_effect:
  assumes run: "after_plan P lq a resp i tl0 tc0 plan (Ok (Some (Liquidated, issue))) True w2 = (res, w')"
    and live: "\<not> dry_run_mode lq" and le: "i < max_iterations lq"
    and one: "\<And>res. (\<And>oc. res = Ok oc \<Longrightarrow> oc = Liquidated) \<Longrightarrow> loop_effect P lq a resp i pushed w1 res w2 new"
    and sub: "submitted new = [ev]"
    and IH: "\<And>updated tl1 tc1 w4.
      liquidate_loop P lq a resp (Suc i) True tl1 tc1 updated w4 = (res, w') \<Longrightarrow>
      ledger_ok (w_inventory w4) \<Longrightarrow> \<exists>new. loop_effect P lq a resp (Suc i) True w4 res w' new"
  shows "\<exists>new. loop_effect P lq a resp i pushed w1 res w' new"
proof -
  let ?w3 = "notify_execution P lq a plan Liquidated issue (dry_run_mode lq) w2"
  obtain post where post: "extends w2 ?w3 post" "money post = []" using notify_execution_world(2) by blast
  note eff = loop_effect_frame' [OF one post notify_execution_world(1)]
  note run' = run [unfolded after_plan_def, simplified, unfolded Let_def]
  show ?thesis
  proof (cases "u128_max < tl0 + pl_liquidation_amount plan \<or> u128_max < tc0 + pl_collateral_amount plan
      \<or> \<not> loop_enabled lq")
    case True
    with run' have "w' = ?w3" "res = Panic \<or> res = Ok Liquidated" by (auto split: if_splits)
    then have "loop_effect P lq a resp i pushed w1 res ?w3 (post @ new)" by (intro eff) auto
    with \<open>w' = ?w3\<close> have "loop_effect P lq a resp i pushed w1 res w' (post @ new)" by simp
    then show ?thesis ..
  next
    case False
    obtain got w4 where got: "get_borrow_position (p_env P) a ?w3 = (got, w4)" by fastforce
    note rd = get_borrow_position_world [OF got]
    have inv4: "w_inventory w4 = w_inventory ?w3" using rd by simp
    have quiet: "extends ?w3 w4 [EvPositionRead a]" "money [EvPositionRead a] = []"
      using rd by (simp_all add: extends_def is_money_event_def)
    note eff4 = loop_effect_frame' [OF eff quiet inv4]
    consider (gone) "res = Ok Liquidated" "w' = w4"
      | (again) updated where "liquidate_loop P lq a resp (Suc i) True (tl0 + pl_liquidation_amount plan)
          (tc0 + pl_collateral_amount plan) updated w4 = (res, w')"
    proof (cases got)
      case Panic
      with rd show thesis by simp
    next
      case (Err e)
      with run' False got gone show thesis by simp
    next
      case (Ok found)
      with run' False got gone again show thesis by (cases found) simp_all
    qed
    then show ?thesis
    proof cases
      case gone
      then have "loop_effect P lq a resp i pushed w1 res w4 ([EvPositionRead a] @ post @ new)" by (intro eff4) auto
      with \<open>w' = w4\<close> show ?thesis by blast
    next
      case again
      have e: "loop_effect P lq a resp i pushed w1 (Ok Liquidated) w4 ([EvPositionRead a] @ post @ new)"
        by (rule eff4) simp
      have led: "ledger_ok (w_inventory w4)" using e by (simp add: loop_effect_def settled_def)
      have "length (submitted ([EvPositionRead a] @ post @ new)) = 1"
        using sub no_money(1) [OF post(2)] no_money(1) [OF quiet(2)] by simp
      with IH [OF again led] loop_effect_again [OF e] False le show ?thesis by blast
    qed
  qed
qed

lemma planned_effect:
  assumes xe: "execute_plan P lq a plan pushed w1 = (xr, p2, w2)"
    and env: "env_ok (p_env P)" and led: "ledger_ok (w_inventory w1)" and le: "i < max_iterations lq"
    and fresh: "fresh (p_env P) a resp (w_trace w1)"
    and run: "after_plan P lq a resp i tl0 tc0 plan xr p2 w2 = (res, w')"
    and IH: "\<And>updated tl1 tc1 w4.
      liquidate_loop P lq a resp (Suc i) True tl1 tc1 updated w4 = (res, w') \<Longrightarrow>
      ledger_ok (w_inventory w4) \<Longrightarrow> \<exists>new. loop_effect P lq a resp (Suc i) True w4 res w' new"
  shows "\<exists>new. loop_effect P lq a resp i pushed w1 res w' new"
  using xe env led
proof (cases rule: execute_plan_effect)
  case simulated
  let ?w3 = "notify_execution P lq a plan Liquidated None True w1"
  have "\<not> loop_enabled lq" using simulated by (simp add: loop_enabled_def)
  with run simulated have w': "w' = ?w3" "res = Panic \<or> res = Ok Liquidated"
    by (auto simp: after_plan_def Let_def split: if_splits)
  obtain new where new: "extends w1 ?w3 new" "money new = []" using notify_execution_world(2) by blast
  have "loop_effect P lq a resp i pushed w1 res w' new"
    by (rule loop_effect_quiet [OF led]) (use w' new simulated notify_execution_world(1) in auto)
  then show ?thesis ..
next
  case race
  with run have "res = Ok (if 0 < i then Liquidated else SkippedUnfunded)" "w' = w1"
    by (auto simp: after_plan_def)
  then have "loop_effect P lq a resp i pushed w1 res w' []"
    by (intro loop_effect_quiet [OF led]) (auto split: if_splits)
  then show ?thesis ..
next
  case (failed err new)
  with run have "res = Err err" "w' = w2" by (auto simp: after_plan_def)
  moreover have "loop_effect P lq a resp i pushed w1 (Err err) w2 new"
    using failed le fresh by (intro loop_effect_failed) auto
  ultimately show ?thesis by auto
next
  case (landed issue new)
  show ?thesis
    by (rule after_landed_effect [OF _ landed(1) le _ _ IH])
       (use run landed loop_effect_landed [OF landed(1,4,5,6,7) landed(8) [OF fresh] le] in auto)
qed

lemma check_status_liquidatable:
  assumes "check_status P lq a pos resp ctx w = (Ok (Liquidatable reason), w1)"
  shows "e_borrow_status (p_env P) (w_trace w) a resp = Inr (Some (Liquidation reason))"
proof -
  obtain status where st: "e_borrow_status (p_env P) (w_trace w) a resp = Inr status"
    using assms by (auto simp: check_status_def get_borrow_status_def)
  have "status = Some (Liquidation reason)"
  proof (cases status)
    case (Some b)
    with assms st show ?thesis
      by (cases b) (auto simp: check_status_def get_borrow_status_def split: if_splits)
  qed (use assms st in \<open>simp add: check_status_def get_borrow_status_def\<close>)
  with st show ?thesis by simp
qed

lemma proceed_fresh:
  assumes "evaluate_position P lq a pos resp ctx w = (Ok (Proceed plan), w1)"
  shows "fresh (p_env P) a resp (w_trace w1)"
proof -
  obtain checked where c: "check_status P lq a pos resp ctx w = (checked, w1)"
    using assms by (auto simp: evaluate_position_def split: prod.splits)
  obtain reason where "checked = Ok (Liquidatable reason)"
  proof (cases checked)
    case (Ok status)
    with assms c that show thesis by (cases status) (simp_all add: evaluate_position_def)
  qed (use assms c in \<open>simp_all add: evaluate_position_def\<close>)
  with c check_status_liquidatable check_status_world [OF c] show ?thesis by fastforce
qed

lemma liquidate_loop_effect:
  assumes "liquidate_loop P lq a resp i pushed tl0 tc0 pos w = (res, w')"
    and "env_ok (p_env P)" "ledger_ok (w_inventory w)"
  shows "\<exists>new. loop_effect P lq a resp i pushed w res w' new"
  using assms
proof (induction "Suc (max_iterations lq) - i" arbitrary: i pushed tl0 tc0 pos w res w' rule: less_induct)
  case less
  let ?ctx = "ctx_of lq (i + 1)"
  note step = less.prems(1) [unfolded liquidate_loop.simps [of P lq a resp i pushed tl0 tc0 pos w] Let_def]
  note still = loop_effect_quiet [OF less.prems(3)]
  show ?case
  proof (cases "u32_max < i + 1")
    case True
    with step have "res = Panic" "w' = w" by auto
    moreover have "loop_effect P lq a resp i pushed w Panic w []" by (rule still) simp_all
    ultimately show ?thesis by blast
  next
    case budget: False
    obtain er w1 where ev: "evaluate_position P lq a pos resp ?ctx w = (er, w1)" by fastforce
    have w1: "w_inventory w1 = w_inventory w" "extends w w1 [EvStatusRead a]" "money [EvStatusRead a] = []"
      using evaluate_position_world [OF ev] by (simp_all add: extends_def is_money_event_def)
    consider (ended) "w' = w1" "res = Panic \<or> (\<exists>e. er = Err e \<and> res = Err e)"
      | (stopped) oc where "w' = w1" "res = Ok oc" "if 0 < i then oc = Liquidated else oc \<noteq> Liquidated"
      | (planned) plan where "er = Ok (Proceed plan)"
    proof (cases er)
      case (Ok evaluation)
      show thesis
      proof (cases "resolve_evaluation evaluation ?ctx")
        case (Inl oc)
        with step ev budget Ok have "res = Ok oc" "w' = w1" by auto
        with stopped resolve_Inl [OF Inl] show thesis by (simp add: ctx_of_def)
      qed (use planned Ok in simp)
    qed (use step ev budget ended in auto)
    then show ?thesis
    proof cases
      case ended
      have "loop_effect P lq a resp i pushed w res w1 [EvStatusRead a]"
        by (rule still [OF w1]) (use ev ended in \<open>auto dest: evaluate_position_phase\<close>)
      with ended show ?thesis by blast
    next
      case stopped
      have "loop_effect P lq a resp i pushed w res w1 [EvStatusRead a]"
        by (rule still [OF w1]) (use stopped in \<open>auto split: if_splits\<close>)
      with stopped show ?thesis by blast
    next
      case planned
      note ev' = ev [unfolded planned]
      have le: "i < max_iterations lq" using proceed_within_budget [OF ev'] by (simp add: ctx_of_def)
      obtain xr p2 w2 where xe: "execute_plan P lq a plan pushed w1 = (xr, p2, w2)" using prod_cases3 by blast
      have led: "ledger_ok (w_inventory w1)" using less.prems(3) w1(1) by simp
      have run: "after_plan P lq a resp i tl0 tc0 plan xr p2 w2 = (res, w')"
        using liquidate_loop_planned [of P lq a pos resp i w plan w1 pushed xr p2 w2 tl0 tc0] ev' budget xe
          less.prems(1) by simp
      have IH: "\<exists>new. loop_effect P lq a resp (Suc i) True w4 res w' new"
        if "liquidate_loop P lq a resp (Suc i) True tl1 tc1 updated w4 = (res, w')"
          "ledger_ok (w_inventory w4)" for updated tl1 tc1 w4
        by (rule less.hyps [OF _ that(1) less.prems(2) that(2)]) (use le in simp)
      have "\<exists>new. loop_effect P lq a resp i pushed w1 res w' new"
        by (rule planned_effect [OF xe less.prems(2) led le proceed_fresh [OF ev'] run]) (rule IH)
      then obtain new where "loop_effect P lq a resp i pushed w1 res w' new" ..
      then have "loop_effect P lq a resp i pushed w res w' ([] @ new @ [EvStatusRead a])"
        by (rule loop_effect_frame [OF _ w1(2,3,1)]) simp_all
      then show ?thesis by blast
    qed
  qed
qed

lemma liquidate_effect:
  assumes "liquidate P lq a pos resp w = (res, w')" "env_ok (p_env P)" "ledger_ok (w_inventory w)"
  shows "\<exists>new. loop_effect P lq a resp 0 False w res w' new"
  using liquidate_loop_effect assms unfolding liquidate_def by blast

section \<open>What a plan guarantees\<close>

lemma size_position_SizedOk:
  assumes "size_position P lq pos resp w = Ok (SizedOk sized)" and "ledger_ok (w_inventory w)"
  shows "0 < sz_liquidation_amount sized \<and> 0 < sz_collateral_amount sized
    \<and> borrow_range_minimum (lq_config lq) \<le> get_available_balance (w_inventory w) (borrow_asset (lq_config lq))
    \<and> max_liquidation_percentage (lq_strategy lq) \<le> 100
    \<and> sz_liquidation_amount sized \<le>
        get_available_balance (w_inventory w) (borrow_asset (lq_config lq)) * max_liquidation_percentage (lq_strategy lq) div 100"
proof -
  let ?available = "get_available_balance (w_inventory w) (borrow_asset (lq_config lq))"
  let ?p = "max_liquidation_percentage (lq_strategy lq)"
  have bal: "?available \<le> u128_max"
    using assms(2) unfolding available_eq ledger_ok_def by (meson diff_le_self le_trans)
  obtain pp decision where d: "price_pair_of (p_lib P) (lq_config lq) resp = Ok pp"
    "\<not> ?available < borrow_range_minimum (lq_config lq)"
    "(case decision of Decline reason \<Rightarrow> Ok (Declined reason)
      | Sized repay collateral \<Rightarrow>
         (case validate_sizing repay collateral ?available ?p of
            Ok _ \<Rightarrow> Ok (SizedOk \<lparr>sz_liquidation_amount = repay, sz_collateral_amount = collateral,
                     sz_liquidatable_collateral = liquidatable_collateral (p_lib P) pos pp
                       (borrow_mcr_maintenance (lq_config lq)) (liquidation_maximum_spread (lq_config lq))\<rparr>)
          | Err _ \<Rightarrow> Ok (Declined NotViable)
          | Panic \<Rightarrow> Panic)) = (Ok (SizedOk sized) :: (liquidator_error, sizing) outcome)"
    using assms(1) by (simp add: size_position_def Let_def split: if_splits) blast+
  then obtain repay collateral where "decision = Sized repay collateral"
      "validate_sizing repay collateral ?available ?p = Ok ()"
      "sz_liquidation_amount sized = repay" "sz_collateral_amount sized = collateral"
    by (cases decision) (auto split: outcome.splits)
  with d(2) show ?thesis
    unfolding validate_sizing_eq [OF bal] by (auto split: if_splits)
qed

lemma assess_profitability_Plan:
  assumes "assess_profitability P lq resp sized = Ok (Plan plan)"
  shows "pl_liquidation_amount plan = sz_liquidation_amount sized
    \<and> pl_collateral_amount plan = sz_collateral_amount sized
    \<and> convert_collateral_to_borrow_asset (p_pow10 P) (p_show_f64 P) (sz_collateral_amount sized) resp (lq_config lq)
        = Ok (pl_expected_collateral_value plan)
    \<and> convert_gas_cost_to_borrow_asset (p_pow10 P) (p_show_f64 P) DEFAULT_GAS_COST_USD resp (lq_config lq)
        = Ok (pl_gas_cost plan)
    \<and> should_liquidate (lq_strategy lq) (sat_mul (sz_liquidation_amount sized) 10000 div (10000 + SAFETY_BUFFER_BPS))
        (pl_expected_collateral_value plan) (pl_gas_cost plan) = Ok True"
  using assms
  by (auto simp: assess_profitability_def require_conversions_def Let_def
      split: option.splits outcome.splits if_splits)

lemma proceed_pieces:
  assumes "evaluate_position P lq a pos resp ctx w = (Ok (Proceed plan), w1)"
  obtains reason sized where
    "check_status P lq a pos resp ctx w = (Ok (Liquidatable reason), w1)"
    "size_position P lq pos resp w1 = Ok (SizedOk sized)"
    "assess_profitability P lq resp sized = Ok (Plan plan)"
proof -
  obtain checked where c: "check_status P lq a pos resp ctx w = (checked, w1)"
    using assms by (auto simp: evaluate_position_def split: prod.splits)
  obtain reason where l: "checked = Ok (Liquidatable reason)"
  proof (cases checked)
    case (Ok status)
    with assms c that show thesis by (cases status) (simp_all add: evaluate_position_def)
  qed (use assms c in \<open>simp_all add: evaluate_position_def\<close>)
  from assms c l have "obind (size_position P lq pos resp w1) (\<lambda>sizing.
      case sizing of InventoryBelowMinimum \<Rightarrow> Ok (Skip Unfunded)
      | Declined InsufficientInventory \<Rightarrow> Ok (Skip Unfunded) | Declined NotViable \<Rightarrow> Ok (Skip StrategyDeclined)
      | SizedOk sized \<Rightarrow> obind (assess_profitability P lq resp sized) (\<lambda>assessed.
          case assessed of Plan plan \<Rightarrow> Ok (Proceed plan) | Unpriceable \<Rightarrow> Ok (Skip CUnpriceable)
          | AUnprofitable \<Rightarrow> Ok EUnprofitable)) = Ok (Proceed plan)"
    by (simp add: evaluate_position_def split: if_splits)
  then obtain sized assessed where "size_position P lq pos resp w1 = Ok (SizedOk sized)"
    "assess_profitability P lq resp sized = Ok assessed"
    "(case assessed of Plan plan \<Rightarrow> Ok (Proceed plan) | Unpriceable \<Rightarrow> Ok (Skip CUnpriceable)
      | AUnprofitable \<Rightarrow> Ok EUnprofitable) = (Ok (Proceed plan) :: (liquidator_error, evaluation) outcome)"
  proof -
    assume *: "obind (size_position P lq pos resp w1) (\<lambda>sizing.
      case sizing of InventoryBelowMinimum \<Rightarrow> Ok (Skip Unfunded)
      | Declined InsufficientInventory \<Rightarrow> Ok (Skip Unfunded) | Declined NotViable \<Rightarrow> Ok (Skip StrategyDeclined)
      | SizedOk sized \<Rightarrow> obind (assess_profitability P lq resp sized) (\<lambda>assessed.
          case assessed of Plan plan \<Rightarrow> Ok (Proceed plan) | Unpriceable \<Rightarrow> Ok (Skip CUnpriceable)
          | AUnprofitable \<Rightarrow> Ok EUnprofitable)) = Ok (Proceed plan)"
    then obtain sz where sz: "size_position P lq pos resp w1 = Ok sz" by auto
    with * that show thesis by (cases sz) (auto split: decline_reason.splits)
  qed
  then show thesis using that c l by (cases assessed) auto
qed

text \<open>Both built-in strategies report preparation errors only.\<close>

lemma not_Err_simps [simp]:
  "mul_u128 x y \<noteq> Err e" "add_u128 x y \<noteq> Err e" "min_with_cap_buffer x y \<noteq> Err e"
  "with_safety_buffer x \<noteq> Err e" "with_safety_buffer_min1 x \<noteq> Err e"
  "apply_liquidatable_cap_buffer x \<noteq> Err e"
  "borrow_to_collateral L x pp sp \<noteq> Err e" "collateral_to_borrow L x pp sp \<noteq> Err e"
  by (auto simp: mul_u128_def add_u128_def min_with_cap_buffer_def apply_liquidatable_cap_buffer_def
      with_safety_buffer_def with_safety_buffer_min1_def borrow_to_collateral_def collateral_to_borrow_def
      elim!: obind_ErrE split: if_splits)

lemma below_minimum_not_Err [simp]:
  "below_minimum_decline_reason L full c l pp sp m \<noteq> Err e"
  by (auto simp: below_minimum_decline_reason_def Let_def elim!: obind_ErrE split: option.splits)

lemma percentage_calculate_phase:
  "percentage_calculate L s pos resp cfg available v = Err e \<Longrightarrow> phase e = Scan"
  by (auto simp: percentage_calculate_def Let_def elim!: obind_ErrE split: option.splits if_splits)
     (rule price_pair_phase)

lemma fixed_calculate_phase:
  "fixed_calculate pow10 L s pos resp cfg available v = Err e \<Longrightarrow> phase e = Scan"
  by (auto simp: fixed_calculate_def Let_def elim!: obind_ErrE split: option.splits if_splits
      dest: price_pair_phase)

lemma default_should_liquidate_Ok: "default_should_liquidate m n r g \<noteq> Err e" "default_should_liquidate m n r g \<noteq> Panic"
  by (auto simp: default_should_liquidate_def Let_def split: option.splits)

lemma builtin_prepare:
  "strategy_prepares (percentage_strategy L s)" "strategy_prepares (fixed_strategy pow10 L f)"
  by (auto simp: strategy_prepares_def percentage_strategy_def fixed_strategy_def default_should_liquidate_Ok
      dest: percentage_calculate_phase fixed_calculate_phase)

end
