(* ===== verification/Round.thy ===== *)
theory Round
  imports Liquidator
begin

text \<open>
  src/liquidator.rs, the round over the positions of a market: \<open>run_liquidations\<close>, its local screen and
  its summary; \<open>covers_all\<close> is from src/oracle.rs.

  The round is modelled at concurrency 1 (the default): the stream starts the next position when the
  previous result was tallied. The theories Task, Concurrent and Schedule have the stream at any
  concurrency, and show that at 1 it is this loop. The counters of a round (\<open>u64\<close>) are natural numbers: a round has
  at most one result per position of the market. \<open>merge\<close> of two summaries keeps the overflow panic.
\<close>

section \<open>The summary of a round\<close>

record round_summary =
  rs_candidates :: nat
  rs_skipped_unfunded :: nat
  rs_attempted :: nat
  rs_succeeded :: nat
  rs_failed :: nat
  rs_markets_scanned_ok :: nat
  rs_markets_failed :: nat

definition round_summary_default :: round_summary where
  "round_summary_default =
     \<lparr>rs_candidates = 0, rs_skipped_unfunded = 0, rs_attempted = 0, rs_succeeded = 0, rs_failed = 0,
      rs_markets_scanned_ok = 0, rs_markets_failed = 0\<rparr>"

definition add_u64 :: "nat \<Rightarrow> nat \<Rightarrow> ('e, nat) outcome" where
  "add_u64 a b = (if a + b \<le> u64_max then Ok (a + b) else Panic)"

definition round_summary_merge :: "round_summary \<Rightarrow> round_summary \<Rightarrow> ('e, round_summary) outcome" where
  "round_summary_merge self other =
     obind (add_u64 (rs_candidates self) (rs_candidates other)) (\<lambda>a.
     obind (add_u64 (rs_skipped_unfunded self) (rs_skipped_unfunded other)) (\<lambda>b.
     obind (add_u64 (rs_attempted self) (rs_attempted other)) (\<lambda>c.
     obind (add_u64 (rs_succeeded self) (rs_succeeded other)) (\<lambda>d.
     obind (add_u64 (rs_failed self) (rs_failed other)) (\<lambda>e.
     obind (add_u64 (rs_markets_scanned_ok self) (rs_markets_scanned_ok other)) (\<lambda>f.
     obind (add_u64 (rs_markets_failed self) (rs_markets_failed other)) (\<lambda>g.
     Ok \<lparr>rs_candidates = a, rs_skipped_unfunded = b, rs_attempted = c, rs_succeeded = d, rs_failed = e,
         rs_markets_scanned_ok = f, rs_markets_failed = g\<rparr>)))))))"

section \<open>The local screen\<close>

datatype local_screen = Candidate | SkipHealthy | SkipMaintenance

definition EXPIRY_SCREEN_MARGIN_MS :: nat where
  "EXPIRY_SCREEN_MARGIN_MS = 15 * 60 * 1000"

definition expiry_screen_timestamp :: "nat \<Rightarrow> nat" where
  "expiry_screen_timestamp now_ms = min (now_ms + EXPIRY_SCREEN_MARGIN_MS) u64_max"

fun screen_status :: "borrow_status \<Rightarrow> local_screen" where
  "screen_status (Liquidation _) = Candidate"
| "screen_status Healthy = SkipHealthy"
| "screen_status MaintenanceRequired = SkipMaintenance"

definition covers_all :: "oracle_response \<Rightarrow> price_id list \<Rightarrow> bool" where
  "covers_all response price_ids =
     list_all (\<lambda>i. case response i of Some (Some _) \<Rightarrow> True | _ \<Rightarrow> False) price_ids"

definition position_screen ::
    "('d, 'p) params \<Rightarrow> 'd liquidator \<Rightarrow> 'p \<Rightarrow> nat \<Rightarrow> borrow_position \<Rightarrow> local_screen" where
  "position_screen P lq price_pair now_ms position =
     screen_status (config_borrow_status (p_lib P) (lq_config lq)
       (collateralization_ratio (p_lib P) position price_pair)
       (started_at_block_timestamp_ms position) (expiry_screen_timestamp now_ms))"

text \<open>The candidates, and the count of the positions screened out.\<close>

fun screen_positions ::
    "('d, 'p) params \<Rightarrow> 'd liquidator \<Rightarrow> 'p \<Rightarrow> nat \<Rightarrow> borrow_positions \<Rightarrow> nat \<Rightarrow> world
     \<Rightarrow> borrow_positions \<times> nat \<times> world" where
  "screen_positions P lq price_pair now_ms [] not_liquidatable w = ([], not_liquidatable, w)"
| "screen_positions P lq price_pair now_ms ((account, position) # rest) not_liquidatable w =
     (case position_screen P lq price_pair now_ms position of
        Candidate \<Rightarrow>
          let (candidates, n, w') = screen_positions P lq price_pair now_ms rest not_liquidatable w in
          ((account, position) # candidates, n, w')
      | SkipHealthy \<Rightarrow>
          screen_positions P lq price_pair now_ms rest (not_liquidatable + 1)
            (emit (EvClearDedup (lq_market lq) account) w)
      | SkipMaintenance \<Rightarrow>
          screen_positions P lq price_pair now_ms rest (not_liquidatable + 1) w)"

section \<open>The tally\<close>

record round_tally =
  t_liquidated :: nat
  t_not_liquidatable :: nat
  t_skipped_unfunded :: nat
  t_unprofitable :: nat
  t_failed :: nat
  t_failed_execution :: nat

definition tally_count :: "(liquidator_error, liquidation_outcome) outcome \<Rightarrow> round_tally \<Rightarrow> round_tally" where
  "tally_count result t =
     (case result of
        Ok Liquidated \<Rightarrow> t\<lparr>t_liquidated := t_liquidated t + 1\<rparr>
      | Ok OHealthy \<Rightarrow> t\<lparr>t_not_liquidatable := t_not_liquidatable t + 1\<rparr>
      | Ok Skipped \<Rightarrow> t\<lparr>t_not_liquidatable := t_not_liquidatable t + 1\<rparr>
      | Ok SkippedUnfunded \<Rightarrow> t\<lparr>t_skipped_unfunded := t_skipped_unfunded t + 1\<rparr>
      | Ok Unprofitable \<Rightarrow> t\<lparr>t_unprofitable := t_unprofitable t + 1\<rparr>
      | Err e \<Rightarrow>
          let t' = (if phase e = Execution then t\<lparr>t_failed_execution := t_failed_execution t + 1\<rparr> else t) in
          t'\<lparr>t_failed := t_failed t' + 1\<rparr>
      | Panic \<Rightarrow> t)"

definition tally_notify ::
    "'d liquidator \<Rightarrow> account_id \<Rightarrow> (liquidator_error, liquidation_outcome) outcome \<Rightarrow> world \<Rightarrow> world" where
  "tally_notify lq account result w =
     (case result of
        Ok Liquidated \<Rightarrow> emit (EvClearDedup (lq_market lq) account) w
      | Ok OHealthy \<Rightarrow> emit (EvClearDedup (lq_market lq) account) w
      | Err e \<Rightarrow>
          if phase e = Execution
          then emit (EvNotifyFailed (lq_market lq) account (notification_kind_of e) (liquidator_error_to_string e)) w
          else w
      | _ \<Rightarrow> w)"

definition round_summary_of :: "round_tally \<Rightarrow> round_summary" where
  "round_summary_of t =
     \<lparr>rs_candidates = t_liquidated t + t_unprofitable t + t_failed_execution t,
      rs_skipped_unfunded = t_skipped_unfunded t,
      rs_attempted = t_liquidated t + t_failed_execution t,
      rs_succeeded = t_liquidated t,
      rs_failed = t_failed_execution t,
      rs_markets_scanned_ok = 0, rs_markets_failed = 0\<rparr>"

section \<open>The round\<close>

fun process_positions ::
    "('d, 'p) params \<Rightarrow> 'd liquidator \<Rightarrow> oracle_response \<Rightarrow> borrow_positions \<Rightarrow> round_tally \<Rightarrow> world
     \<Rightarrow> (liquidator_error, round_tally) outcome \<times> world" where
  "process_positions P lq oracle [] t w = (Ok t, w)"
| "process_positions P lq oracle ((account, position) # rest) t w =
     (if e_shutdown (p_env P) (w_trace w) then (Ok t, w)
      else
      case liquidate P lq account position oracle w of
        (Panic, w1) \<Rightarrow> (Panic, w1)
      | (result, w1) \<Rightarrow>
          let w2 = (if rest \<noteq> [] \<and> \<not> e_shutdown (p_env P) (w_trace w1) then emit (EvPause 1000) w1 else w1)
          in process_positions P lq oracle rest (tally_count result t) (tally_notify lq account result w2))"

text \<open>
  What a round does before it reaches a position: the prices, the scan and the local screen. It ends the
  round, or yields the prices, the candidates and the tally of those screened out.
\<close>

definition scan_market ::
    "('d, 'p) params \<Rightarrow> 'd liquidator \<Rightarrow> world
     \<Rightarrow> ((liquidator_error, round_summary) outcome + oracle_response \<times> borrow_positions \<times> round_tally) \<times> world" where
  "scan_market P lq w =
     (let oc = price_oracle_configuration (lq_config lq);
          price_ids = [borrow_asset_price_id oc, collateral_asset_price_id oc];
          fetched = e_oracle_prices (p_env P) (w_trace w);
          w1 = emit (EvPricesFetched (oracle_account_id oc) price_ids) w in
      case fetched of
        Inl e \<Rightarrow> (Inl (Err e), w1)
      | Inr oracle \<Rightarrow>
      if \<not> covers_all oracle price_ids then
        (Inl (Err (PriceFetchError (WrongResponseKind ''oracle prices missing or stale for the market's feed pair''))), w1)
      else
      case get_all_borrows (p_env P) w1 of
        (Panic, w2) \<Rightarrow> (Inl Panic, w2)
      | (Err e, w2) \<Rightarrow> (Inl (Err e), w2)
      | (Ok borrows, w2) \<Rightarrow>
      if borrows = [] then (Inl (Ok round_summary_default), w2)
      else
      let now_ms = e_unix_ms (p_env P) (w_trace w2);
          ordered = p_hash_order P borrows;
          (candidates, screened, w3) =
            (case (create_price_pair (p_lib P) oc oracle, now_ms) of
               (Inr price_pair, Some now) \<Rightarrow> screen_positions P lq price_pair now ordered 0 w2
             | _ \<Rightarrow> (ordered, 0, w2)) in
      (Inr (oracle, candidates,
         \<lparr>t_liquidated = 0, t_not_liquidatable = screened, t_skipped_unfunded = 0, t_unprofitable = 0,
          t_failed = 0, t_failed_execution = 0\<rparr>), w3))"

definition run_liquidations ::
    "('d, 'p) params \<Rightarrow> 'd liquidator \<Rightarrow> world \<Rightarrow> (liquidator_error, round_summary) outcome \<times> world" where
  "run_liquidations P lq w =
     (case scan_market P lq w of
        (Inl res, w1) \<Rightarrow> (res, w1)
      | (Inr (oracle, candidates, t), w1) \<Rightarrow>
          (case process_positions P lq oracle candidates t w1 of
             (Ok t', w2) \<Rightarrow> (Ok (round_summary_of t'), w2)
           | (Err e, w2) \<Rightarrow> (Err e, w2)
           | (Panic, w2) \<Rightarrow> (Panic, w2)))"

lemma run_liquidations_unfold:
  "run_liquidations P lq w =
     (let oc = price_oracle_configuration (lq_config lq);
          price_ids = [borrow_asset_price_id oc, collateral_asset_price_id oc];
          fetched = e_oracle_prices (p_env P) (w_trace w);
          w1 = emit (EvPricesFetched (oracle_account_id oc) price_ids) w in
      case fetched of
        Inl e \<Rightarrow> (Err e, w1)
      | Inr oracle \<Rightarrow>
      if \<not> covers_all oracle price_ids then
        (Err (PriceFetchError (WrongResponseKind ''oracle prices missing or stale for the market's feed pair'')), w1)
      else
      case get_all_borrows (p_env P) w1 of
        (Panic, w2) \<Rightarrow> (Panic, w2)
      | (Err e, w2) \<Rightarrow> (Err e, w2)
      | (Ok borrows, w2) \<Rightarrow>
      if borrows = [] then (Ok round_summary_default, w2)
      else
      let now_ms = e_unix_ms (p_env P) (w_trace w2);
          ordered = p_hash_order P borrows;
          (candidates, screened, w3) =
            (case (create_price_pair (p_lib P) oc oracle, now_ms) of
               (Inr price_pair, Some now) \<Rightarrow> screen_positions P lq price_pair now ordered 0 w2
             | _ \<Rightarrow> (ordered, 0, w2)) in
      case process_positions P lq oracle candidates
             \<lparr>t_liquidated = 0, t_not_liquidatable = screened, t_skipped_unfunded = 0, t_unprofitable = 0,
              t_failed = 0, t_failed_execution = 0\<rparr> w3 of
        (Ok t, w4) \<Rightarrow> (Ok (round_summary_of t), w4)
      | (Err e, w4) \<Rightarrow> (Err e, w4)
      | (Panic, w4) \<Rightarrow> (Panic, w4))"
  by (simp add: run_liquidations_def scan_market_def Let_def
      split: sum.split outcome.split prod.split option.split)

section \<open>Facts about the tally\<close>

text \<open>What a result adds to each counter; a sum over the results whatever their order.\<close>

definition counts :: "round_tally \<Rightarrow> nat \<times> nat \<times> nat \<times> nat \<times> nat \<times> nat" where
  "counts t = (t_liquidated t, t_not_liquidatable t, t_skipped_unfunded t, t_unprofitable t,
               t_failed t, t_failed_execution t)"

lemma tally_count_commute: "tally_count r (tally_count s t) = tally_count s (tally_count r t)"
  by (simp add: tally_count_def split: outcome.split liquidation_outcome.split)

lemma fold_tally_mset:
  assumes "mset rs = mset rs'"
  shows "fold tally_count rs t = fold tally_count rs' t"
proof -
  have "fold tally_count rs = fold tally_count rs'"
    by (rule fold_multiset_equiv [OF _ assms]) (simp add: fun_eq_iff tally_count_commute)
  then show ?thesis by simp
qed

definition tally_total :: "round_tally \<Rightarrow> nat" where
  "tally_total t = t_liquidated t + t_not_liquidatable t + t_skipped_unfunded t + t_unprofitable t + t_failed t"

lemma tally_count_total [simp]: "r \<noteq> Panic \<Longrightarrow> tally_total (tally_count r t) = Suc (tally_total t)"
  by (simp add: tally_total_def tally_count_def split: outcome.split liquidation_outcome.split)

lemma fold_tally_total: "Panic \<notin> set rs \<Longrightarrow> tally_total (fold tally_count rs t) = tally_total t + length rs"
  by (induction rs arbitrary: t) auto

text \<open>Each counter is the number of results of its kind.\<close>

definition results_of :: "liquidation_outcome \<Rightarrow> (liquidator_error, liquidation_outcome) outcome list \<Rightarrow> nat" where
  "results_of oc rs = length (filter (\<lambda>r. r = Ok oc) rs)"

definition executions_failed :: "(liquidator_error, liquidation_outcome) outcome list \<Rightarrow> nat" where
  "executions_failed rs = length (filter (\<lambda>r. \<exists>e. r = Err e \<and> phase e = Execution) rs)"

lemma fold_tally_counters:
  "t_liquidated (fold tally_count rs t) = t_liquidated t + results_of Liquidated rs"
  "t_skipped_unfunded (fold tally_count rs t) = t_skipped_unfunded t + results_of SkippedUnfunded rs"
  "t_unprofitable (fold tally_count rs t) = t_unprofitable t + results_of Unprofitable rs"
  "t_failed_execution (fold tally_count rs t) = t_failed_execution t + executions_failed rs"
  by (induction rs arbitrary: t)
     (auto simp: results_of_def executions_failed_def tally_count_def Let_def
       split: outcome.split liquidation_outcome.split)

section \<open>What a round does\<close>

definition round_effect ::
    "('d, 'p) params \<Rightarrow> 'd liquidator \<Rightarrow> oracle_response \<Rightarrow> borrow_positions \<Rightarrow> world
     \<Rightarrow> (liquidator_error, liquidation_outcome) outcome list \<Rightarrow> world \<Rightarrow> event list \<Rightarrow> bool" where
  "round_effect P lq oracle candidates w results w' new \<longleftrightarrow>
     extends w w' new
     \<and> settled (borrow_asset (lq_config lq)) (w_inventory w) (w_inventory w')
     \<and> length results \<le> length candidates
     \<and> length (pushes new) \<le> length results
     \<and> length (submitted new) \<le> length results * max_iterations lq
     \<and> (dry_run_mode lq \<longrightarrow> money new = [] \<and> w_inventory w' = w_inventory w)
     \<and> (\<not> dry_run_mode lq \<longrightarrow> strategy_prepares (lq_strategy lq) \<longrightarrow>
          results_of Liquidated results + executions_failed results \<le> length (submitted new))
     \<and> ((\<forall>tr. \<not> e_shutdown (p_env P) tr) \<longrightarrow> Panic \<notin> set results \<longrightarrow> length results = length candidates)
     \<and> confirmed (p_env P) (set (map fst candidates)) oracle new (w_trace w)"

lemma tally_notify_world:
  "w_inventory (tally_notify lq a r w) = w_inventory w"
  "\<exists>new. extends w (tally_notify lq a r w) new \<and> money new = []"
  by (auto simp: tally_notify_def extends_def is_money_event_def split: outcome.split liquidation_outcome.split)

lemma round_effect_nothing:
  assumes "ledger_ok (w_inventory w)" "candidates = [] \<or> e_shutdown (p_env P) (w_trace w)"
  shows "round_effect P lq oracle candidates w [] w []"
  using assms by (auto simp: round_effect_def settled_refl results_of_def executions_failed_def)

lemma round_effect_panic:
  assumes "loop_effect P lq a oracle 0 False w Panic w1 new"
  shows "round_effect P lq oracle ((a, pos) # rest) w [Panic] w1 new"
  using assms confirmed_mono [of "p_env P" "{a}" "oracle" new "w_trace w"]
  by (simp add: round_effect_def loop_effect_def results_of_def executions_failed_def)

text \<open>A result that counts as attempted submitted a transaction.\<close>

lemma attempted_submitted:
  assumes "loop_effect P lq a oracle 0 False w r w1 new" "\<not> dry_run_mode lq" "strategy_prepares (lq_strategy lq)"
  shows "results_of Liquidated [r] + executions_failed [r] \<le> length (submitted new)"
  using assms
  by (cases r) (auto simp: loop_effect_def results_of_def executions_failed_def Suc_le_eq)

lemma results_of_Cons: "results_of oc (r # rs) = results_of oc [r] + results_of oc rs"
  and executions_failed_Cons: "executions_failed (r # rs) = executions_failed [r] + executions_failed rs"
  by (simp_all add: results_of_def executions_failed_def)

lemma round_effect_step:
  assumes one: "loop_effect P lq a oracle 0 False w r w1 n1"
    and q: "extends w1 w2 q" "money q = []" "w_inventory w2 = w_inventory w1"
    and rest: "round_effect P lq oracle rest w2 results w' n2"
  shows "round_effect P lq oracle ((a, pos) # rest) w (r # results) w' (n2 @ q @ n1)"
proof -
  note quiet = no_money [OF q(2)]
  have "results_of Liquidated (r # results) + executions_failed (r # results) \<le> length (submitted (n2 @ q @ n1))"
    if "\<not> dry_run_mode lq" "strategy_prepares (lq_strategy lq)"
    using attempted_submitted [OF one that] rest that quiet
    by (simp add: round_effect_def results_of_Cons [of _ r results] executions_failed_Cons [of r results])
  moreover have "confirmed (p_env P) (set (map fst ((a, pos) # rest))) oracle (n2 @ q @ n1) (w_trace w)"
  proof -
    have "w_trace w2 = q @ n1 @ w_trace w" using one q(1) by (simp add: loop_effect_def extends_def)
    moreover have "confirmed (p_env P) (set (map fst ((a, pos) # rest))) oracle n2 (w_trace w2)"
      by (rule confirmed_mono [of _ "set (map fst rest)"]) (use rest in \<open>auto simp: round_effect_def\<close>)
    moreover have "confirmed (p_env P) (set (map fst ((a, pos) # rest))) oracle n1 (w_trace w)"
      by (rule confirmed_mono [of _ "{a}"]) (use one in \<open>auto simp: loop_effect_def\<close>)
    ultimately show ?thesis using quiet by (simp add: confirmed_quiet)
  qed
  ultimately show ?thesis
    using one q rest quiet
    by (auto simp: round_effect_def loop_effect_def extends_def intro: settled_trans)
qed

lemma process_positions_effect:
  assumes "process_positions P lq oracle candidates t w = (res, w')"
    and "env_ok (p_env P)" "ledger_ok (w_inventory w)"
  shows "\<exists>results new. round_effect P lq oracle candidates w results w' new
           \<and> res = (if Panic \<in> set results then Panic else Ok (fold tally_count results t))"
  using assms
proof (induction candidates arbitrary: t w)
  case Nil
  then show ?case by (auto intro!: exI [of _ "[]"] round_effect_nothing)
next
  case (Cons c rest)
  obtain a pos where c: "c = (a, pos)" by fastforce
  show ?case
  proof (cases "e_shutdown (p_env P) (w_trace w)")
    case True
    with Cons c show ?thesis by (auto intro!: exI [of _ "[]"] round_effect_nothing)
  next
    case go: False
    obtain r w1 where l: "liquidate P lq a pos oracle w = (r, w1)" by fastforce
    obtain n1 where one: "loop_effect P lq a oracle 0 False w r w1 n1"
      using liquidate_effect [OF l Cons.prems(2,3)] by blast
    show ?thesis
    proof (cases "r = Panic")
      case True
      with Cons.prems(1) c go l have "res = Panic" "w' = w1" by auto
      with round_effect_panic one True c show ?thesis by (metis list.set_intros(1))
    next
      case False
      let ?p = "if rest \<noteq> [] \<and> \<not> e_shutdown (p_env P) (w_trace w1) then emit (EvPause 1000) w1 else w1"
      let ?w2 = "tally_notify lq a r ?p"
      obtain q where "extends ?p ?w2 q" "money q = []" using tally_notify_world(2) by blast
      then have q: "\<exists>q. extends w1 ?w2 q \<and> money q = []"
        by (auto simp: extends_def is_money_event_def intro: exI [of _ "q @ [EvPause 1000]"])
      have inv: "w_inventory ?w2 = w_inventory w1" by (simp add: tally_notify_world(1))
      have led: "ledger_ok (w_inventory ?w2)" using one inv by (simp add: loop_effect_def settled_def)
      have "process_positions P lq oracle rest (tally_count r t) ?w2 = (res, w')"
        using Cons.prems(1) c go l False by (cases r) (auto simp: Let_def)
      from Cons.IH [OF this Cons.prems(2) led] obtain results n2 where
        rest: "round_effect P lq oracle rest ?w2 results w' n2"
        "res = (if Panic \<in> set results then Panic else Ok (fold tally_count results (tally_count r t)))" by blast
      from q obtain q where "extends w1 ?w2 q" "money q = []" by blast
      from round_effect_step [OF one this inv rest(1), of pos] rest(2) False c
      show ?thesis by (intro exI [of _ "r # results"]) auto
    qed
  qed
qed

lemma screen_positions_eq:
  "screen_positions P lq price_pair now positions n w =
     (filter (\<lambda>(a, p). position_screen P lq price_pair now p = Candidate) positions,
      n + length (filter (\<lambda>(a, p). position_screen P lq price_pair now p \<noteq> Candidate) positions),
      w\<lparr>w_trace := rev (map (\<lambda>(a, p). EvClearDedup (lq_market lq) a)
                       (filter (\<lambda>(a, p). position_screen P lq price_pair now p = SkipHealthy) positions))
                   @ w_trace w\<rparr>)"
  by (induction positions arbitrary: n w) (auto simp: emit_def split: local_screen.split)

lemma clear_dedup_quiet: "money (rev (map (\<lambda>(a, p). EvClearDedup m a) positions)) = []"
  by (auto simp: money_def is_money_event_def filter_empty_conv)

text \<open>A round ends before it reaches a position, or it processes a part of its positions.\<close>

lemma run_liquidations_cases:
  assumes run: "run_liquidations P lq w = (res, w')" and env: "env_ok (p_env P)" and led: "ledger_ok (w_inventory w)"
  obtains (idle) new where "extends w w' new" "money new = []" "w_inventory w' = w_inventory w"
      "res = Panic \<or> (\<exists>e. res = Err e) \<or> res = Ok round_summary_default"
  | (processed) resp candidates screened results w1 new old where
      "e_oracle_prices (p_env P) (w_trace w) = Inr resp"
      "covers_all resp [borrow_asset_price_id (price_oracle_configuration (lq_config lq)),
                          collateral_asset_price_id (price_oracle_configuration (lq_config lq))]"
      "extends w w1 old" "money old = []" "w_inventory w1 = w_inventory w"
      "round_effect P lq resp candidates w1 results w' new"
      "res = (if Panic \<in> set results then Panic
              else Ok (round_summary_of (fold tally_count results
                \<lparr>t_liquidated = 0, t_not_liquidatable = screened, t_skipped_unfunded = 0, t_unprofitable = 0,
                 t_failed = 0, t_failed_execution = 0\<rparr>)))"
proof -
  let ?oc = "price_oracle_configuration (lq_config lq)"
  let ?ids = "[borrow_asset_price_id ?oc, collateral_asset_price_id ?oc]"
  let ?w1 = "emit (EvPricesFetched (oracle_account_id ?oc) ?ids) w"
  have w1: "extends w ?w1 [EvPricesFetched (oracle_account_id ?oc) ?ids]"
    "money [EvPricesFetched (oracle_account_id ?oc) ?ids] = []"
    by (simp_all add: extends_def is_money_event_def)
  obtain got w2 where got: "get_all_borrows (p_env P) ?w1 = (got, w2)" by fastforce
  obtain pages where pages: "w_inventory w2 = w_inventory w" "extends ?w1 w2 pages" "money pages = []"
    using borrows_loop_reads_only [OF got [unfolded get_all_borrows_def]] by auto
  have w2: "extends w w2 (pages @ [EvPricesFetched (oracle_account_id ?oc) ?ids])"
    "money (pages @ [EvPricesFetched (oracle_account_id ?oc) ?ids]) = []"
    using extends_trans [OF w1(1) pages(2)] pages(3) w1(2) by simp_all
  consider (early) "w' = ?w1" "\<exists>e. res = Err e"
    | (paged) "w' = w2" "res = Panic \<or> (\<exists>e. res = Err e) \<or> res = Ok round_summary_default"
    | (go) resp borrows where "e_oracle_prices (p_env P) (w_trace w) = Inr resp" "covers_all resp ?ids"
        "got = Ok borrows" "borrows \<noteq> []"
    using run got
    by (auto simp: run_liquidations_unfold Let_def split: sum.splits outcome.splits if_splits)
  then show thesis
  proof cases
    case early
    with w1 show thesis by (intro idle) auto
  next
    case paged
    with w2 pages(1) show thesis by (intro idle) auto
  next
    case go
    obtain candidates screened w3 where scr: "(candidates, screened, w3) =
        (case (create_price_pair (p_lib P) ?oc resp, e_unix_ms (p_env P) (w_trace w2)) of
           (Inr price_pair, Some now) \<Rightarrow> screen_positions P lq price_pair now (p_hash_order P borrows) 0 w2
         | _ \<Rightarrow> (p_hash_order P borrows, 0, w2))" by (metis prod_cases3)
    have w3: "\<exists>q. extends w2 w3 q \<and> money q = [] \<and> w_inventory w3 = w_inventory w2"
      using scr clear_dedup_quiet
      by (fastforce simp: extends_def screen_positions_eq split: sum.splits option.splits)
    let ?t = "\<lparr>t_liquidated = 0, t_not_liquidatable = screened, t_skipped_unfunded = 0, t_unprofitable = 0,
               t_failed = 0, t_failed_execution = 0\<rparr>"
    obtain pr w4 where pr: "process_positions P lq resp candidates ?t w3 = (pr, w4)" by fastforce
    have led3: "ledger_ok (w_inventory w3)" using w3 pages(1) led by auto
    from process_positions_effect [OF pr env led3] obtain results new where
      eff: "round_effect P lq resp candidates w3 results w4 new"
      "pr = (if Panic \<in> set results then Panic else Ok (fold tally_count results ?t))" by blast
    from w3 obtain q where q: "extends w2 w3 q" "money q = []" "w_inventory w3 = w_inventory w" using pages(1) by auto
    have "w' = w4" "res = (case pr of Ok t \<Rightarrow> Ok (round_summary_of t) | Err e \<Rightarrow> Err e | Panic \<Rightarrow> Panic)"
      using run got go scr [symmetric] pr by (auto simp: run_liquidations_unfold Let_def split: outcome.splits)
    with eff show thesis
      by (intro processed [OF go(1,2) extends_trans [OF w2(1) q(1)] _ q(3), of candidates results new screened])
         (use q(2) w2(2) in simp_all)
  qed
qed

end
