(* ===== verification/Scenario.thy ===== *)
theory Scenario
  imports Round
begin

text \<open>
  One concrete market, evaluated: a borrower with 2000 units of collateral and 1500 of debt, prices of 1,
  a liquidator that holds 1000 units of the borrow asset and commits half of them. It shows that the
  hypotheses of the general theorems hold together and what a run looks like. The market library is the
  obvious one over rational numbers; the venue has no swap provider.
\<close>

definition sc_lib :: "(rat, rat) market_lib" where
  "sc_lib =
     \<lparr>dec_one = 1, dec_from_u128 = of_nat, dec_sub = (\<lambda>a b. Some (a - b)), dec_mul = (\<lambda>a b. Some (a * b)),
      dec_div = (\<lambda>a b. if b = 0 then None else Some (a / b)),
      dec_to_u128_floor = (\<lambda>d. Some (nat \<lfloor>d\<rfloor>)), dec_to_u128_ceil = (\<lambda>d. Some (nat \<lceil>d\<rceil>)),
      convert_collateral = (\<lambda>p n. p * of_nat n), create_price_pair = (\<lambda>_ _. Inr 1),
      liquidatable_collateral = (\<lambda>pos _ _ _. collateral_asset_deposit pos),
      collateralization_ratio =
        (\<lambda>pos p. if total_borrow_asset_liability pos = 0 then None
                 else Some (p * of_nat (collateral_asset_deposit pos) / of_nat (total_borrow_asset_liability pos))),
      config_borrow_status =
        (\<lambda>cfg ratio _ _. case ratio of None \<Rightarrow> Healthy
           | Some r \<Rightarrow> if r < borrow_mcr_liquidation cfg then Liquidation ''Undercollateralization''
                       else if r < borrow_mcr_maintenance cfg then MaintenanceRequired else Healthy)\<rparr>"

definition sc_config :: "rat market_configuration" where
  "sc_config =
     \<lparr>price_oracle_configuration =
        \<lparr>oracle_account_id = ''oracle.near'', collateral_asset_price_id = ''c'', collateral_asset_decimals = 0,
         borrow_asset_price_id = ''b'', borrow_asset_decimals = 0, price_maximum_age_s = 60\<rparr>,
      borrow_asset = ''usdc'', collateral_asset = ''wnear'', borrow_mcr_maintenance = 3 / 2,
      borrow_mcr_liquidation = 7 / 5, borrow_range_minimum = 10, liquidation_maximum_spread = 1 / 10\<rparr>"

definition sc_prices :: oracle_response where
  "sc_prices = [''b'' \<mapsto> Some \<lparr>price_mantissa = 1, price_expo = 0\<rparr>,
                ''c'' \<mapsto> Some \<lparr>price_mantissa = 1, price_expo = 0\<rparr>]"

definition sc_position :: borrow_position where
  "sc_position = \<lparr>collateral_asset_deposit = 2000, total_borrow_asset_liability = 1500,
                  started_at_block_timestamp_ms = None\<rparr>"

definition sc_inventory :: inventory_manager where
  "sc_inventory =
     \<lparr>inventory = [(''usdc'', \<lparr>ie_balance = 1000, ie_reserved = 0, ie_last_updated = 0\<rparr>)],
      collateral_inventory = [], min_refresh_interval = 30000, last_full_refresh = None, manager_id = 7,
      metrics_gauge = None\<rparr>"

text \<open>The market answers \<open>later\<close> about the position once a transaction was submitted.\<close>

definition sc_env :: "(string + borrow_status option) \<Rightarrow> env" where
  "sc_env later =
     \<lparr>e_borrow_status = (\<lambda>tr a r. if submitted tr = [] then Inr (Some (Liquidation ''Undercollateralization'')) else later),
      e_borrow_position = (\<lambda>tr a. Inr (Some sc_position)),
      e_list_positions = (\<lambda>tr off n. Inr (if off = 0 then [(''alice.near'', sc_position)] else [])),
      e_liquidate = (\<lambda>tr a n c. Inr \<lparr>op_id = ''op'', op_status = OpSucceeded, op_latest_tx_hash = Some ''tx'',
                                     op_signer = ''bot.near''\<rparr>),
      e_failed_receipts = (\<lambda>tr tx s. Inr []), e_balance = (\<lambda>tr a. Inr 1000), e_swap = (\<lambda>tr a b n. Inr ()),
      e_update_onchain_prices = (\<lambda>tr. Inr True), e_oracle_prices = (\<lambda>tr. Inr sc_prices),
      e_now = (\<lambda>tr. 0), e_unix_ms = (\<lambda>tr. Some 0), e_shutdown = (\<lambda>tr. False)\<rparr>"

definition sc_params :: "(string + borrow_status option) \<Rightarrow> (rat, rat) params" where
  "sc_params later = \<lparr>p_lib = sc_lib, p_pow10 = (\<lambda>_. Fin 1), p_show_f64 = (\<lambda>_. ''?''), p_env = sc_env later,
                      p_hash_order = (\<lambda>ps. ps)\<rparr>"

definition sc_strategy :: "rat strategy" where
  "sc_strategy = percentage_strategy sc_lib
     \<lparr>target_percentage = LiquidationPercentage 50, pct_min_profit_margin_bps = 50\<rparr>"

definition sc_liquidator :: "bool \<Rightarrow> rat liquidator" where
  "sc_liquidator dry_run =
     \<lparr>lq_market = ''market.near'', lq_config = sc_config, lq_strategy = sc_strategy, lq_loop_liquidation = True,
      lq_max_loop_iterations = 3, lq_market_version = Some (MarketVersion 1 1 0),
      lq_executor = \<lparr>ex_market = ''market.near'', ex_dry_run = dry_run, ex_collateral_strategy = Hold,
        ex_swap_provider = None, ex_swap_retry_config = default_retry_config, ex_min_swap_value_usd = Fin 1,
        ex_collateral_decimals = 0, ex_borrow_decimals = 0\<rparr>\<rparr>"

definition sc_world :: "event list \<Rightarrow> world" where
  "sc_world tr = \<lparr>w_inventory = sc_inventory, w_trace = tr\<rparr>"

section \<open>The hypotheses hold\<close>

lemma sc_env_ok: "env_ok (sc_env later)"
  by (simp add: env_ok_def sc_env_def u128_max_def)

lemma sc_ledger_ok: "ledger_ok sc_inventory"
  by (simp add: ledger_ok_def sc_inventory_def get_total_balance_def get_reserved_balance_def u128_max_def)

section \<open>The numbers\<close>

lemma sc_f64:
  "f64_of_int 1 = Fin 1" "f64_of_nat 552 = Fin 552" "round_f64 1 = Fin 1" "round_f64 552 = Fin 552"
  using f64_of_int_exact [of 1] f64_of_nat_exact [of 552] by (simp_all add: f64_of_int_def f64_of_nat_def)

lemma sc_gas: "DEFAULT_GAS_COST_USD = Fin (3602879701896397 / 72057594037927936)"
  unfolding DEFAULT_GAS_COST_USD_def
  by (subst round_f64_eval [of _ "- 5"]) (simp_all add: pow2_def round_half_even_def Let_def)

lemma sc_gas_again: "round_f64 (3602879701896397 / 72057594037927936) = Fin (3602879701896397 / 72057594037927936)"
  using round_f64_exact [of _ 3602879701896397 "- 56"] by (simp add: pow2_def)

lemma sc_ceiling: "\<lceil>2484 / 5 :: rat\<rceil> = 497"
  by (simp add: ceiling_eq_iff)

lemma sc_sizing:
  "percentage_calculate sc_lib \<lparr>target_percentage = LiquidationPercentage 50, pct_min_profit_margin_bps = 50\<rparr>
     sc_position sc_prices sc_config 1000 (Some (MarketVersion 1 1 0)) = Ok (Sized 499 552)"
  by (simp add: percentage_calculate_def mul_u128_def u128_max_def SAFETY_BUFFER_BPS_def sc_lib_def sc_config_def
      price_pair_of_def borrow_to_collateral_def collateral_to_borrow_def supports_partial_liquidation_def
      version_supports_partial_liquidation_def MIN_PARTIAL_LIQUIDATION_def less_eq_market_version_def
      min_with_cap_buffer_def apply_liquidatable_cap_buffer_def LIQUIDATABLE_CAP_BUFFER_BPS_def
      with_safety_buffer_def sat_add_def Let_def sc_position_def sc_ceiling)

definition sc_fixed :: fixed_params where
  "sc_fixed = \<lparr>fixed_amount_usd = Fin 495, fix_min_profit_margin_bps = 50\<rparr>"

lemma sc_ceiling_fixed: "\<lceil>4923 / 10 :: rat\<rceil> = 493"
  by (simp add: ceiling_eq_iff)

lemma sc_budget: "usd_to_raw_units (\<lambda>_. Fin 1) (Fin 495) 0 = 495"
proof -
  have "round_f64 495 = Fin 495" using f64_of_nat_exact [of 495] by (simp add: f64_of_nat_def)
  then show ?thesis by (simp add: usd_to_raw_units_def u128_max_def)
qed

lemma sc_fixed_sizing:
  "fixed_calculate (\<lambda>_. Fin 1) sc_lib sc_fixed sc_position sc_prices sc_config 1000 (Some (MarketVersion 1 1 0))
     = Ok (Sized 495 547)"
  by (simp add: fixed_calculate_def mul_u128_def u128_max_def SAFETY_BUFFER_BPS_def sc_lib_def sc_config_def
      price_pair_of_def borrow_to_collateral_def collateral_to_borrow_def supports_partial_liquidation_def
      version_supports_partial_liquidation_def MIN_PARTIAL_LIQUIDATION_def less_eq_market_version_def
      min_with_cap_buffer_def apply_liquidatable_cap_buffer_def LIQUIDATABLE_CAP_BUFFER_BPS_def
      with_safety_buffer_min1_def sat_add_def Let_def sc_position_def sc_ceiling_fixed sc_fixed_def sc_budget)

lemmas sc_data = sc_lib_def sc_config_def sc_prices_def sc_params_def sc_liquidator_def

lemma sc_values:
  "convert_collateral_to_borrow_asset (\<lambda>_. Fin 1) sh 552 sc_prices sc_config = Ok 552"
  "convert_gas_cost_to_borrow_asset (\<lambda>_. Fin 1) sh DEFAULT_GAS_COST_USD sc_prices sc_config = Ok 0"
proof -
  have "checked_f64_to_u128 sh (Fin (3602879701896397 / 72057594037927936)) = Ok 0"
    unfolding checked_f64_to_u128_Ok by (intro exI [of _ "3602879701896397 / 72057594037927936"]) simp
  then show
    "convert_collateral_to_borrow_asset (\<lambda>_. Fin 1) sh 552 sc_prices sc_config = Ok 552"
    "convert_gas_cost_to_borrow_asset (\<lambda>_. Fin 1) sh DEFAULT_GAS_COST_USD sc_prices sc_config = Ok 0"
    by (simp_all add: convert_collateral_to_borrow_asset_def convert_gas_cost_to_borrow_asset_def Let_def
        sc_config_def sc_prices_def oracle_price_def price_to_usd_cases sc_f64 sc_gas sc_gas_again
        checked_f64_to_u128_Ok)
qed

definition sc_plan :: liquidation_plan where
  "sc_plan = \<lparr>pl_liquidation_amount = 499, pl_collateral_amount = 552, pl_expected_collateral_value = 552,
              pl_gas_cost = 0\<rparr>"

lemma sc_size:
  assumes "get_available_balance (w_inventory w) ''usdc'' = 1000"
  shows "size_position (sc_params later) (sc_liquidator dry) sc_position sc_prices w =
    Ok (SizedOk \<lparr>sz_liquidation_amount = 499, sz_collateral_amount = 552, sz_liquidatable_collateral = 2000\<rparr>)"
proof -
  have "size_position (sc_params later) (sc_liquidator dry) sc_position sc_prices w =
    (case percentage_calculate sc_lib \<lparr>target_percentage = LiquidationPercentage 50, pct_min_profit_margin_bps = 50\<rparr>
            sc_position sc_prices sc_config 1000 (Some (MarketVersion 1 1 0)) of
       Ok (Sized repay collateral) \<Rightarrow>
         (case validate_sizing repay collateral 1000 100 of
            Ok _ \<Rightarrow> Ok (SizedOk \<lparr>sz_liquidation_amount = repay, sz_collateral_amount = collateral,
                              sz_liquidatable_collateral = 2000\<rparr>)
          | Err _ \<Rightarrow> Ok (Declined NotViable)
          | Panic \<Rightarrow> Panic)
     | Ok (Decline reason) \<Rightarrow> Ok (Declined reason) | Err e \<Rightarrow> Err e | Panic \<Rightarrow> Panic)"
    using assms
    by (simp add: size_position_def sc_params_def sc_liquidator_def sc_strategy_def percentage_strategy_def
        price_pair_of_def sc_lib_def sc_config_def sc_position_def split: outcome.split)
  then show ?thesis unfolding sc_sizing by (simp add: validate_sizing_eq u128_max_def)
qed

lemma sc_assess:
  "assess_profitability (sc_params later) (sc_liquidator dry) sc_prices
     \<lparr>sz_liquidation_amount = 499, sz_collateral_amount = 552, sz_liquidatable_collateral = 2000\<rparr> = Ok (Plan sc_plan)"
  by (simp add: assess_profitability_def sc_params_def sc_liquidator_def sc_values require_conversions_def
      sc_strategy_def percentage_strategy_def default_should_liquidate_def SAFETY_BUFFER_BPS_def sat_mul_def
      sat_add_def checked_mul_def u128_max_def div_ceil_le_iff sc_plan_def)

lemma sc_evaluate:
  assumes "submitted tr = []"
  shows "evaluate_position (sc_params later) (sc_liquidator dry) ''alice.near'' sc_position sc_prices
     (ctx_of (sc_liquidator dry) 1) (sc_world tr) =
   (Ok (Proceed sc_plan), emit (EvStatusRead ''alice.near'') (sc_world tr))"
proof -
  have c: "check_status (sc_params later) (sc_liquidator dry) ''alice.near'' sc_position sc_prices
      (ctx_of (sc_liquidator dry) 1) (sc_world tr) =
    (Ok (Liquidatable ''Undercollateralization''), emit (EvStatusRead ''alice.near'') (sc_world tr))"
    by (simp add: check_status_def get_borrow_status_def sc_params_def sc_env_def sc_world_def ctx_of_def
        price_pair_of_def sc_lib_def assms)
  have m: "\<not> cx_max_iterations (ctx_of (sc_liquidator dry) 1) < cx_iteration (ctx_of (sc_liquidator dry) 1)"
    by (simp add: ctx_of_def max_iterations_def sc_liquidator_def)
  have a: "get_available_balance (w_inventory (emit (EvStatusRead ''alice.near'') (sc_world tr))) ''usdc'' = 1000"
    by (simp add: sc_world_def sc_inventory_def get_available_balance_def entry_available_def sat_sub_def)
  from m show ?thesis by (simp add: evaluate_position_def c sc_size [OF a] sc_assess del: One_nat_def)
qed

section \<open>The run\<close>

definition sc_trace :: "event list \<Rightarrow> event list" where
  "sc_trace tr = [EvReceiptsRead ''tx'', EvLiquidate ''alice.near'' 499 552,
                  EvPricesPushed ''oracle.near'' [''b'', ''c''], EvStatusRead ''alice.near''] @ tr"

definition sc_after :: "event list \<Rightarrow> world" where
  "sc_after tr = \<lparr>w_inventory = sc_inventory\<lparr>inventory :=
                 [(''usdc'', \<lparr>ie_balance = 501, ie_reserved = 0, ie_last_updated = 0\<rparr>)]\<rparr>,
               w_trace = sc_trace tr\<rparr>"

definition sc_token :: reservation where
  "sc_token = \<lparr>res_asset = ''usdc'', res_amount = 499, res_manager_id = 7\<rparr>"

definition sc_held :: inventory_manager where
  "sc_held = sc_inventory\<lparr>inventory := [(''usdc'', \<lparr>ie_balance = 1000, ie_reserved = 499, ie_last_updated = 0\<rparr>)]\<rparr>"

definition sc_request :: execution_request where
  "sc_request = \<lparr>liquidation_amount = 499, collateral_amount = 552, expected_collateral_value = 552\<rparr>"

definition sc_executor :: "bool \<Rightarrow> executor" where
  "sc_executor dry_run = lq_executor (sc_liquidator dry_run)"

definition sc_sending :: "event list \<Rightarrow> world" where
  "sc_sending tr = \<lparr>w_inventory = sc_held, w_trace = drop 2 (sc_trace tr)\<rparr>"

lemma sc_reserve: "reserve sc_inventory ''usdc'' 499 = (Ok sc_token, sc_held)"
  by (simp add: reserve_def sc_inventory_def entry_reserve_def entry_available_def sat_sub_def sat_add_def
      u128_max_def publish_reserved_def sc_token_def sc_held_def)

lemma sc_consume: "consume sc_held sc_token = w_inventory (sc_after tr)"
  by (simp add: consume_def accept_token_def sc_inventory_def entry_consume_def entry_release_def sat_sub_def
      sc_after_def publish_reserved_def sc_token_def sc_held_def)

lemma sc_token_ours: "issued sc_held sc_token" "covers sc_token ''usdc'' 499"
  by (simp_all add: issued_def covers_def sc_token_def sc_held_def sc_inventory_def)

lemma sc_landed:
  "execute_liquidation (\<lambda>_. Fin 1) (sc_env later) (sc_executor False) ''alice.near'' ''usdc'' ''wnear''
     sc_request (Live sc_token) (sc_sending tr) = (Ok (Liquidated, None), sc_after tr)"
  using sc_consume [of tr] sc_token_ours
  by (simp add: execute_liquidation_def sc_executor_def sc_liquidator_def sc_env_def
      sc_request_def first_failed_receipt_def handle_collateral_def emit_def consume_in_def
      sc_after_def sc_trace_def sc_sending_def)

lemma sc_execute:
  "execute_plan (sc_params later) (sc_liquidator False) ''alice.near'' sc_plan False
     (emit (EvStatusRead ''alice.near'') (sc_world tr)) = (Ok (Some (Liquidated, None)), True, sc_after tr)"
  using sc_reserve sc_landed [of later tr]
  by (simp add: execute_plan_def push_prices_def record_price_update_attempt_def sc_liquidator_def
      sc_config_def sc_plan_def sc_params_def sc_env_def sc_world_def sc_trace_def emit_def
      plan_request_def sc_request_def sc_executor_def sc_sending_def)

text \<open>After the transaction, the second iteration reads what the market answers \<open>later\<close>.\<close>

lemma sc_first:
  assumes "submitted tr = []"
  obtains w4 where
    "liquidate (sc_params later) (sc_liquidator False) ''alice.near'' sc_position sc_prices (sc_world tr) =
       liquidate_loop (sc_params later) (sc_liquidator False) ''alice.near'' sc_prices 1 True 499 552 sc_position w4"
    "submitted (w_trace w4) = [EvLiquidate ''alice.near'' 499 552]" "w_inventory w4 = w_inventory (sc_after tr)"
proof -
  let ?P = "sc_params later" and ?lq = "sc_liquidator False" and ?a = "''alice.near''"
  let ?w3 = "notify_execution ?P ?lq ?a sc_plan Liquidated None False (sc_after tr)"
  let ?w4 = "emit (EvPositionRead ?a) ?w3"
  have u: "Suc 0 \<le> u32_max" by (simp add: u32_max_def)
  have "liquidate_loop ?P ?lq ?a sc_prices 0 False 0 0 sc_position (sc_world tr) =
      after_plan ?P ?lq ?a sc_prices 0 0 0 sc_plan (Ok (Some (Liquidated, None))) True (sc_after tr)"
    using liquidate_loop_planned [OF sc_evaluate [OF assms, unfolded One_nat_def] u sc_execute, of later 0 0]
    by simp
  moreover have "get_borrow_position (p_env ?P) ?a ?w3 = (Ok (Some sc_position), ?w4)"
    by (simp add: get_borrow_position_def sc_params_def sc_env_def)
  moreover have "loop_enabled ?lq" "\<not> dry_run_mode ?lq"
    by (simp_all add: loop_enabled_def dry_run_mode_def sc_liquidator_def)
  ultimately have "liquidate ?P ?lq ?a sc_position sc_prices (sc_world tr) =
       liquidate_loop ?P ?lq ?a sc_prices 1 True 499 552 sc_position ?w4"
    by (simp add: liquidate_def after_plan_def Let_def sc_plan_def u128_max_def)
  moreover have "submitted (w_trace ?w4) = [EvLiquidate ?a 499 552]"
  proof -
    obtain new where "extends (sc_after tr) ?w3 new" "money new = []" using notify_execution_world(2) by blast
    then show ?thesis by (simp add: extends_def no_money sc_after_def sc_trace_def assms)
  qed
  moreover have "w_inventory ?w4 = w_inventory (sc_after tr)" by (simp add: notify_execution_world(1))
  ultimately show thesis by (rule that)
qed

lemma sc_second:
  assumes "submitted (w_trace w) \<noteq> []"
  shows "check_status (sc_params later) (sc_liquidator False) ''alice.near'' sc_position sc_prices
      (ctx_of (sc_liquidator False) (Suc 1)) w =
    (obind (map_err FetchBorrowStatus (map_err rpc_error_from_gateway (lift_res later))) (\<lambda>status.
         case status of
           Some (Liquidation reason) \<Rightarrow> Ok (Liquidatable reason)
         | Some MaintenanceRequired \<Rightarrow> Ok SMaintenanceRequired
         | Some Healthy \<Rightarrow> Ok SHealthy
         | None \<Rightarrow> Ok SHealthy), emit (EvStatusRead ''alice.near'') w)"
  using assms by (simp add: check_status_def get_borrow_status_def sc_params_def sc_env_def ctx_of_def)

text \<open>The position is healthy after one transaction: the run ends liquidated.\<close>

lemma sc_run_healthy:
  assumes "submitted tr = []"
  obtains w' where
    "liquidate (sc_params (Inr (Some Healthy))) (sc_liquidator False) ''alice.near'' sc_position sc_prices (sc_world tr)
       = (Ok Liquidated, w')"
    "submitted (w_trace w') = [EvLiquidate ''alice.near'' 499 552]" "w_inventory w' = w_inventory (sc_after tr)"
proof (rule sc_first [OF assms, of "Inr (Some Healthy)"])
  fix w4
  let ?P = "sc_params (Inr (Some Healthy))" and ?lq = "sc_liquidator False"
  assume w4: "liquidate ?P ?lq ''alice.near'' sc_position sc_prices (sc_world tr) =
      liquidate_loop ?P ?lq ''alice.near'' sc_prices 1 True 499 552 sc_position w4"
    "submitted (w_trace w4) = [EvLiquidate ''alice.near'' 499 552]" "w_inventory w4 = w_inventory (sc_after tr)"
  have "evaluate_position ?P ?lq ''alice.near'' sc_position sc_prices (ctx_of ?lq (Suc 1)) w4 =
      (Ok EHealthy, emit (EvStatusRead ''alice.near'') w4)"
    using sc_second [of w4] w4(2) by (simp add: evaluate_position_def)
  then have "liquidate_loop ?P ?lq ''alice.near'' sc_prices 1 True 499 552 sc_position w4 =
      (Ok Liquidated, emit (EvStatusRead ''alice.near'') w4)"
    by (rule liquidate_loop_stopped) (simp_all add: u32_max_def resolve_evaluation_def ctx_of_def)
  with w4 show thesis by (intro that [of "emit (EvStatusRead ''alice.near'') w4"]) simp_all
qed

text \<open>The status cannot be read after the transaction landed: the run ends in a scan error.\<close>

lemma sc_run_unread:
  assumes "submitted tr = []"
  obtains w' where
    "liquidate (sc_params (Inl e)) (sc_liquidator False) ''alice.near'' sc_position sc_prices (sc_world tr)
       = (Err (FetchBorrowStatus (rpc_error_from_gateway e)), w')"
    "submitted (w_trace w') = [EvLiquidate ''alice.near'' 499 552]" "w_inventory w' = w_inventory (sc_after tr)"
proof (rule sc_first [OF assms, of "Inl e"])
  fix w4
  let ?P = "sc_params (Inl e)" and ?lq = "sc_liquidator False"
  assume w4: "liquidate ?P ?lq ''alice.near'' sc_position sc_prices (sc_world tr) =
      liquidate_loop ?P ?lq ''alice.near'' sc_prices 1 True 499 552 sc_position w4"
    "submitted (w_trace w4) = [EvLiquidate ''alice.near'' 499 552]" "w_inventory w4 = w_inventory (sc_after tr)"
  have "evaluate_position ?P ?lq ''alice.near'' sc_position sc_prices (ctx_of ?lq (Suc 1)) w4 =
      (Err (FetchBorrowStatus (rpc_error_from_gateway e)), emit (EvStatusRead ''alice.near'') w4)"
    using sc_second [of w4] w4(2) by (simp add: evaluate_position_def)
  then have "liquidate_loop ?P ?lq ''alice.near'' sc_prices 1 True 499 552 sc_position w4 =
      (Err (FetchBorrowStatus (rpc_error_from_gateway e)), emit (EvStatusRead ''alice.near'') w4)"
    by (rule liquidate_loop_error) (simp add: u32_max_def)
  with w4 show thesis by (intro that [of "emit (EvStatusRead ''alice.near'') w4"]) simp_all
qed

section \<open>The round\<close>

definition sc_scanned :: "event list" where
  "sc_scanned = [EvPositionsPage 0 500, EvPricesFetched ''oracle.near'' [''b'', ''c'']]"

text \<open>Whatever the run of the one candidate returns is the only result tallied.\<close>

abbreviation sc_none :: round_tally where
  "sc_none \<equiv> \<lparr>t_liquidated = 0, t_not_liquidatable = 0, t_skipped_unfunded = 0, t_unprofitable = 0,
              t_failed = 0, t_failed_execution = 0\<rparr>"

lemma sc_scan:
  "scan_market (sc_params later) (sc_liquidator dry) (sc_world []) =
     (Inr (sc_prices, [(''alice.near'', sc_position)], sc_none), sc_world sc_scanned)"
proof -
  let ?P = "sc_params later" and ?lq = "sc_liquidator dry"
  let ?w1 = "sc_world [EvPricesFetched ''oracle.near'' [''b'', ''c'']]"
  have pages: "get_all_borrows (p_env ?P) ?w1 = (Ok [(''alice.near'', sc_position)], sc_world sc_scanned)"
    unfolding get_all_borrows_def
    by (subst borrows_loop_last [of _ _ _ "[(''alice.near'', sc_position)]"])
       (simp_all add: sc_params_def sc_env_def PAGE_SIZE_def u32_max_def extend_positions_def sc_world_def
         emit_def sc_scanned_def)
  have cov: "covers_all sc_prices [''b'', ''c'']" by (simp add: covers_all_def sc_prices_def)
  have scr: "screen_positions ?P ?lq 1 0 [(''alice.near'', sc_position)] 0 (sc_world sc_scanned) =
      ([(''alice.near'', sc_position)], 0, sc_world sc_scanned)"
    by (simp add: screen_positions_eq position_screen_def sc_params_def sc_lib_def sc_position_def sc_liquidator_def
        sc_config_def sc_world_def)
  have go: "e_unix_ms (p_env ?P) tr = Some 0" "e_oracle_prices (p_env ?P) tr = Inr sc_prices"
    "create_price_pair (p_lib ?P) oc resp = Inr 1" "p_hash_order ?P ps = ps" for tr oc resp ps
    by (simp_all add: sc_params_def sc_env_def sc_lib_def)
  have w: "emit (EvPricesFetched ''oracle.near'' [''b'', ''c'']) (sc_world []) = ?w1"
    by (simp add: emit_def sc_world_def)
  have cfg: "price_oracle_configuration (lq_config ?lq) = price_oracle_configuration sc_config"
    "oracle_account_id (price_oracle_configuration sc_config) = ''oracle.near''"
    "borrow_asset_price_id (price_oracle_configuration sc_config) = ''b''"
    "collateral_asset_price_id (price_oracle_configuration sc_config) = ''c''"
    by (simp_all add: sc_liquidator_def sc_config_def)
  show ?thesis
    unfolding scan_market_def Let_def cfg w go
    by (simp add: cov pages go scr del: screen_positions.simps)
qed

lemma sc_round:
  assumes "liquidate (sc_params later) (sc_liquidator dry) ''alice.near'' sc_position sc_prices (sc_world sc_scanned)
             = (r, w1)" "r \<noteq> Panic"
  shows "run_liquidations (sc_params later) (sc_liquidator dry) (sc_world []) =
    (Ok (round_summary_of (tally_count r sc_none)), tally_notify (sc_liquidator dry) ''alice.near'' r w1)"
proof -
  have "\<not> e_shutdown (p_env (sc_params later)) tr" for tr by (simp add: sc_params_def sc_env_def)
  with assms have "process_positions (sc_params later) (sc_liquidator dry) sc_prices [(''alice.near'', sc_position)] sc_none
      (sc_world sc_scanned) = (Ok (tally_count r sc_none), tally_notify (sc_liquidator dry) ''alice.near'' r w1)"
    by (cases r) simp_all
  then show ?thesis by (simp add: run_liquidations_def sc_scan)
qed

lemma sc_scanned_quiet: "submitted sc_scanned = []"
  by (simp add: sc_scanned_def)

text \<open>A dry run simulates the same plan and stops.\<close>

lemma sc_run_dry:
  assumes "submitted tr = []"
  obtains w' where
    "liquidate (sc_params later) (sc_liquidator True) ''alice.near'' sc_position sc_prices (sc_world tr)
       = (Ok Liquidated, w')"
proof -
  let ?P = "sc_params later" and ?lq = "sc_liquidator True" and ?a = "''alice.near''"
  let ?w1 = "emit (EvStatusRead ?a) (sc_world tr)"
  have u: "Suc 0 \<le> u32_max" by (simp add: u32_max_def)
  have x: "execute_plan ?P ?lq ?a sc_plan False ?w1 = (Ok (Some (Liquidated, None)), False, ?w1)"
    by (simp add: execute_plan_def execute_dry_run sc_liquidator_def)
  have "\<not> loop_enabled ?lq" by (simp add: loop_enabled_def dry_run_mode_def sc_liquidator_def)
  then have "after_plan ?P ?lq ?a sc_prices 0 0 0 sc_plan (Ok (Some (Liquidated, None))) False ?w1 =
      (Ok Liquidated, notify_execution ?P ?lq ?a sc_plan Liquidated None (dry_run_mode ?lq) ?w1)"
    by (simp add: after_plan_def Let_def sc_plan_def u128_max_def)
  then show thesis
    using liquidate_loop_planned [OF sc_evaluate [OF assms, unfolded One_nat_def] u x, of 0 0] that
    by (simp add: liquidate_def)
qed

lemma sc_hypotheses [simp]:
  "p_env (sc_params later) = sc_env later" "w_inventory (sc_world tr) = sc_inventory" "w_trace (sc_world tr) = tr"
  "env_ok (sc_env later)" "ledger_ok sc_inventory"
  by (simp_all add: sc_params_def sc_world_def sc_env_ok sc_ledger_ok)

text \<open>The same market with a gateway that refuses every transaction.\<close>

definition sc_refusing :: "(rat, rat) params" where
  "sc_refusing = (sc_params (Inr None))\<lparr>p_env := (sc_env (Inr None))\<lparr>e_liquidate := \<lambda>tr a n c. Inl ''refused''\<rparr>\<rparr>"

lemma sc_refusing_env [simp]: "env_ok (p_env sc_refusing)"
  by (simp add: sc_refusing_def env_ok_def sc_env_def u128_max_def)

lemma evaluate_env_liquidate:
  "evaluate_position (P\<lparr>p_env := (p_env P)\<lparr>e_liquidate := f\<rparr>\<rparr>) lq a pos resp ctx w =
     evaluate_position P lq a pos resp ctx w"
proof -
  have upd: "p_env (P\<lparr>p_env := E\<rparr>) = E" "p_lib (P\<lparr>p_env := E\<rparr>) = p_lib P" "p_pow10 (P\<lparr>p_env := E\<rparr>) = p_pow10 P"
    "p_show_f64 (P\<lparr>p_env := E\<rparr>) = p_show_f64 P"
    "e_borrow_status ((p_env P)\<lparr>e_liquidate := f\<rparr>) = e_borrow_status (p_env P)" for E by simp_all
  show ?thesis
    unfolding evaluate_position_def check_status_def get_borrow_status_def size_position_def
      assess_profitability_def upd ..
qed

lemma sc_run_refused:
  obtains e w' where
    "liquidate sc_refusing (sc_liquidator False) ''alice.near'' sc_position sc_prices (sc_world []) = (Err e, w')"
    "phase e = Execution"
proof -
  let ?w1 = "emit (EvStatusRead ''alice.near'') (sc_world [])" and ?e = "LiquidationTransactionError (rpc_error_from_gateway ''refused'')"
  have upd: "sc_refusing = (sc_params (Inr None))\<lparr>p_env := (p_env (sc_params (Inr None)))\<lparr>e_liquidate := \<lambda>tr a n c. Inl ''refused''\<rparr>\<rparr>"
    by (simp add: sc_refusing_def sc_params_def)
  have ev: "evaluate_position sc_refusing (sc_liquidator False) ''alice.near'' sc_position sc_prices
      (ctx_of (sc_liquidator False) (Suc 0)) (sc_world []) = (Ok (Proceed sc_plan), ?w1)"
    unfolding upd evaluate_env_liquidate using sc_evaluate [of "[]" "Inr None" False] by simp
  have "\<exists>w2. execute_plan sc_refusing (sc_liquidator False) ''alice.near'' sc_plan False ?w1 = (Err ?e, True, w2)"
    using sc_reserve sc_token_ours
    by (simp add: execute_plan_def push_prices_def record_price_update_attempt_def sc_liquidator_def
        sc_config_def sc_plan_def sc_refusing_def sc_params_def sc_env_def sc_world_def emit_def
        plan_request_def execute_liquidation_def)
  then obtain w2 where "execute_plan sc_refusing (sc_liquidator False) ''alice.near'' sc_plan False ?w1 = (Err ?e, True, w2)" ..
  from liquidate_loop_planned [OF ev _ this, of 0 0] have
    "liquidate sc_refusing (sc_liquidator False) ''alice.near'' sc_position sc_prices (sc_world []) = (Err ?e, w2)"
    by (simp add: liquidate_def after_plan_def u32_max_def)
  then show thesis by (rule that) simp
qed

section \<open>The ledger of the scenario is reachable\<close>

lemma sc_reachable_empty: "ledger_reachable (sc_inventory, {#})"
proof -
  let ?cfg = "\<lparr>price_oracle_configuration = price_oracle_configuration sc_config, borrow_asset = ''usdc'',
      collateral_asset = ''wnear'', borrow_mcr_maintenance = (), borrow_mcr_liquidation = (),
      borrow_range_minimum = 10, liquidation_maximum_spread = ()\<rparr>"
  let ?m0 = "fst (inventory_new 7)"
  let ?m1 = "discover_assets 0 [?cfg] ?m0"
  let ?fetch = "\<lambda>a :: asset. Inr 1000 :: string + nat"
  have "ledger_reachable (?m1, {#})"
    by (rule ledger_next [OF ledger_start mgr_step.step_discover])
  then have "ledger_reachable (snd (refresh_asset 0 ?fetch ''usdc'' ?m1), {#})"
    by (rule ledger_next) (rule mgr_step.step_refresh_asset, simp add: u128_max_def)
  moreover have "snd (refresh_asset 0 ?fetch ''usdc'' ?m1) = sc_inventory"
    by (simp add: refresh_asset_def discover_assets_def inventory_new_def vacant_insert_def empty_entry_def
        entry_update_balance_def sc_inventory_def)
  ultimately show ?thesis by simp
qed

lemma sc_reachable: "ledger_reachable (sc_held, {#sc_token#})"
  using ledger_next [OF sc_reachable_empty mgr_step.step_reserve [OF sc_reserve]] by simp

section \<open>The two rounds\<close>

lemma sc_round_healthy:
  obtains s w' where
    "run_liquidations (sc_params (Inr (Some Healthy))) (sc_liquidator False) (sc_world []) = (Ok s, w')"
    "rs_succeeded s = 1"
proof (rule sc_run_healthy [OF sc_scanned_quiet])
  fix w1
  assume run: "liquidate (sc_params (Inr (Some Healthy))) (sc_liquidator False) ''alice.near'' sc_position sc_prices
    (sc_world sc_scanned) = (Ok Liquidated, w1)"
  show thesis
    by (rule that [OF sc_round [OF run]]) (simp_all add: round_summary_of_def tally_count_def)
qed

lemma sc_round_unread:
  obtains s w' where
    "run_liquidations (sc_params (Inl e)) (sc_liquidator False) (sc_world []) = (Ok s, w')"
    "submitted (w_trace w') = [EvLiquidate ''alice.near'' 499 552]" "w_inventory w' = w_inventory (sc_after sc_scanned)"
    "rs_attempted s = 0" "rs_succeeded s = 0" "rs_candidates s = 0"
proof (rule sc_run_unread [OF sc_scanned_quiet, of e])
  fix w1
  assume run: "liquidate (sc_params (Inl e)) (sc_liquidator False) ''alice.near'' sc_position sc_prices
      (sc_world sc_scanned) = (Err (FetchBorrowStatus (rpc_error_from_gateway e)), w1)"
    "submitted (w_trace w1) = [EvLiquidate ''alice.near'' 499 552]" "w_inventory w1 = w_inventory (sc_after sc_scanned)"
  from run(2,3) show thesis
    by (intro that [OF sc_round [OF run(1)]]) (simp_all add: round_summary_of_def tally_count_def tally_notify_def)
qed

end
