(* ===== verification/Json.thy ===== *)
theory Json
  imports Prelude
begin

text \<open>
  A JSON value as the enum \<open>serde_json::Value\<close> and the accessors of it the code calls. The parser of
  JSON text is third-party and an argument of what uses it. A number is a \<open>u64\<close>, a negative \<open>i64\<close>, or a
  float given by the text it prints as; an object is a list of fields with distinct names.
\<close>

datatype json_number = PosInt nat | NegInt int | FloatNum string

datatype json =
    JNull
  | JBool bool
  | JNumber json_number
  | JString string
  | JArray "json list"
  | JObject "(string \<times> json) list"

fun json_get :: "json \<Rightarrow> string \<Rightarrow> json option" where
  "json_get (JObject obj) k = map_of obj k"
| "json_get _ k = None"

fun json_as_array :: "json \<Rightarrow> json list option" where
  "json_as_array (JArray xs) = Some xs"
| "json_as_array _ = None"

fun json_as_str :: "json \<Rightarrow> string option" where
  "json_as_str (JString s) = Some s"
| "json_as_str _ = None"

fun json_as_u64 :: "json \<Rightarrow> nat option" where
  "json_as_u64 (JNumber (PosInt n)) = Some n"
| "json_as_u64 _ = None"

fun json_number_to_string :: "json_number \<Rightarrow> string" where
  "json_number_to_string (PosInt n) = show_nat n"
| "json_number_to_string (NegInt i) = show_int i"
| "json_number_to_string (FloatNum s) = s"

text \<open>\<open>as_i64\<close> accepts an unsigned number that fits; a \<open>NegInt\<close> is one already.\<close>

fun json_as_i64 :: "json \<Rightarrow> int option" where
  "json_as_i64 (JNumber (PosInt n)) = (if int n \<le> 9223372036854775807 then Some (int n) else None)"
| "json_as_i64 (JNumber (NegInt i)) = Some i"
| "json_as_i64 _ = None"

fun json_as_object :: "json \<Rightarrow> (string \<times> json) list option" where
  "json_as_object (JObject obj) = Some obj"
| "json_as_object _ = None"

end
