(* ===== verification/Redstone_Push.thy ===== *)
theory Redstone_Push
  imports Json Market
begin

text \<open>
  src/redstone_push.rs: scaling of decimal text, parsing of the gateway's body, the RedStone payload
  layout, the choice of signed packages, and the memo of recent pushes.

  Bytes are natural numbers below 256. The JSON parser, base64, hex and the signature scheme are
  third-party: the first three are arguments, the last is the record \<open>crypto\<close>. Strings are ASCII.
\<close>

section \<open>Foreign data\<close>

type_synonym bytes = "nat list"

record ('sig, 'rid, 'key) crypto =
  keccak256 :: "bytes \<Rightarrow> bytes"
  signature_from_slice :: "bytes \<Rightarrow> 'sig option"
  recovery_id_from_byte :: "nat \<Rightarrow> 'rid option"
  recover_from_prehash :: "bytes \<Rightarrow> 'sig \<Rightarrow> 'rid \<Rightarrow> 'key option"
  to_sec1_point :: "'key \<Rightarrow> bytes"

section \<open>Packages and rules\<close>

record signed_package =
  feed_id :: string
  value_text :: string
  timestamp_ms :: nat
  signature :: bytes
  claimed_signer :: bytes

record adapter_rules =
  signer_threshold :: nat
  signers :: "bytes list"
  max_delay_ms :: nat
  max_ahead_ms :: nat
  min_interval_ms :: nat

definition VALUE_BYTES :: nat where "VALUE_BYTES = 32"
definition DECIMALS :: nat where "DECIMALS = 8"
definition REDSTONE_MARKER :: bytes where
  "REDSTONE_MARKER = [0x00, 0x00, 0x02, 0xed, 0x57, 0x01, 0x1e, 0x00, 0x00]"

definition parse_address :: "(string \<Rightarrow> bytes option) \<Rightarrow> string \<Rightarrow> bytes option" where
  "parse_address hex_decode text =
     (case hex_decode (case strip_prefix ''0x'' (trim text) of Some r \<Rightarrow> r | None \<Rightarrow> trim text) of
        None \<Rightarrow> None
      | Some bs \<Rightarrow> if length bs = 20 then Some bs else None)"

section \<open>Scaling decimal text\<close>

definition split_once_at :: "(char \<Rightarrow> bool) \<Rightarrow> string \<Rightarrow> (string \<times> string) option" where
  "split_once_at p s =
     (case dropWhile (\<lambda>c. \<not> p c) s of
        [] \<Rightarrow> None
      | _ # rest \<Rightarrow> Some (takeWhile (\<lambda>c. \<not> p c) s, rest))"

text \<open>\<open>str::parse\<close> at a signed integer type whose largest value is \<open>mx\<close>: an optional sign, at least one
  digit, within the range.\<close>

definition parse_int :: "nat \<Rightarrow> string \<Rightarrow> int option" where
  "parse_int mx s =
     (case strip_prefix ''-'' s of
        Some r \<Rightarrow>
          if r \<noteq> [] \<and> list_all is_digit r \<and> digits_value r \<le> mx + 1
          then Some (- int (digits_value r)) else None
      | None \<Rightarrow> map_option int (parse_uint mx s))"

definition parse_i32 :: "string \<Rightarrow> int option" where
  "parse_i32 = parse_int 2147483647"

definition checked_pow_10 :: "nat \<Rightarrow> nat option" where
  "checked_pow_10 n = (if 10 ^ n \<le> u128_max then Some (10 ^ n) else None)"

definition checked_add :: "nat \<Rightarrow> nat \<Rightarrow> nat option" where
  "checked_add a b = (if a + b \<le> u128_max then Some (a + b) else None)"

definition scale_mantissa :: "string \<Rightarrow> string \<Rightarrow> int \<Rightarrow> nat option" where
  "scale_mantissa int_part frac_part exponent =
     (let digits_text = dropWhile (\<lambda>c. c = CHR ''0'') (int_part @ frac_part) in
      case (if digits_text = [] then Some 0 else parse_uint u128_max digits_text) of
        None \<Rightarrow> None
      | Some digits \<Rightarrow>
          let shift = int DECIMALS + exponent - int (length frac_part) in
          if 0 \<le> shift then
            (if int u32_max < shift then None
             else (case checked_pow_10 (nat shift) of None \<Rightarrow> None | Some p \<Rightarrow> checked_mul digits p))
          else
            (if int u32_max < - shift then None
             else (case checked_pow_10 (nat (- shift)) of
                     None \<Rightarrow> None
                   | Some divisor \<Rightarrow> map_option (\<lambda>s. s div divisor) (checked_add digits (divisor div 2)))))"

text \<open>The integer digits, the fraction digits and the exponent of the text.\<close>

definition decimal_parts :: "string \<Rightarrow> (string \<times> string \<times> int) option" where
  "decimal_parts txt =
     (let text = trim txt in
      case (case split_once_at (\<lambda>c. c = CHR ''e'' \<or> c = CHR ''E'') text of
              Some (mantissa, exponent) \<Rightarrow> map_option (\<lambda>e. (mantissa, e)) (parse_i32 exponent)
            | None \<Rightarrow> Some (text, 0)) of
        None \<Rightarrow> None
      | Some (mantissa, exponent) \<Rightarrow>
          let (int_part, frac_part) =
                (case split_once_at (\<lambda>c. c = CHR ''.'') mantissa of Some p \<Rightarrow> p | None \<Rightarrow> (mantissa, [])) in
          if int_part = [] \<and> frac_part = [] then None
          else if \<not> list_all is_digit int_part \<or> \<not> list_all is_digit frac_part then None
          else Some (int_part, frac_part, exponent))"

definition scale_value :: "string \<Rightarrow> nat option" where
  "scale_value txt =
     (case decimal_parts txt of
        None \<Rightarrow> None
      | Some (int_part, frac_part, exponent) \<Rightarrow> scale_mantissa int_part frac_part exponent)"

section \<open>The gateway's body\<close>

definition parse_package ::
    "(string \<Rightarrow> bytes option) \<Rightarrow> (string \<Rightarrow> bytes option) \<Rightarrow> string \<Rightarrow> json \<Rightarrow> signed_package option" where
  "parse_package hex_decode base64_decode feed entry =
     (if json_get entry ''isSignatureValid'' = Some (JBool False) then None
      else case Option.bind (json_get entry ''dataPoints'') json_as_array of
        Some [point] \<Rightarrow>
          if Option.bind (json_get point ''dataFeedId'') json_as_str \<noteq> Some feed then None
          else
          (case (case json_get point ''value'' of
                   Some (JNumber number) \<Rightarrow> Some (json_number_to_string number)
                 | Some (JString text) \<Rightarrow> Some text
                 | _ \<Rightarrow> None) of
             None \<Rightarrow> None
           | Some text \<Rightarrow>
          (case Option.bind (json_get entry ''timestampMilliseconds'') json_as_u64 of
             None \<Rightarrow> None
           | Some ts \<Rightarrow>
          (case Option.bind (Option.bind (json_get entry ''signature'') json_as_str) base64_decode of
             None \<Rightarrow> None
           | Some sig \<Rightarrow>
               if length sig \<noteq> 65 then None
               else
               (case Option.bind (Option.bind (json_get entry ''signerAddress'') json_as_str) (parse_address hex_decode) of
                  None \<Rightarrow> None
                | Some signer \<Rightarrow>
                    Some \<lparr>feed_id = feed, value_text = text, timestamp_ms = ts, signature = sig,
                          claimed_signer = signer\<rparr>))))
      | _ \<Rightarrow> None)"

definition parse_gateway_response ::
    "(string \<Rightarrow> bytes option) \<Rightarrow> (string \<Rightarrow> bytes option) \<Rightarrow> (string \<Rightarrow> string + json) \<Rightarrow> string
     \<Rightarrow> string + (string \<times> signed_package list) list" where
  "parse_gateway_response hex_decode base64_decode from_str body =
     (case from_str body of
        Inl error \<Rightarrow> Inl (''gateway body did not parse: '' @ error)
      | Inr top_value \<Rightarrow>
          (case json_as_object top_value of
             None \<Rightarrow> Inl ''gateway body is not an object''
           | Some obj \<Rightarrow>
               Inr (List.map_filter
                 (\<lambda>(feed, entries).
                    case json_as_array entries of
                      None \<Rightarrow> None
                    | Some lst \<Rightarrow>
                        let parsed = List.map_filter (parse_package hex_decode base64_decode feed) lst in
                        if parsed = [] then None else Some (feed, parsed)) obj)))"

section \<open>The signed bytes\<close>

text \<open>\<open>to_be_bytes\<close> of an \<open>n\<close>-byte integer.\<close>

definition be_bytes :: "nat \<Rightarrow> nat \<Rightarrow> bytes" where
  "be_bytes n v = map (\<lambda>i. v div 256 ^ (n - 1 - i) mod 256) [0..<n]"

definition str_bytes :: "string \<Rightarrow> bytes" where
  "str_bytes s = map byte s"

text \<open>The timestamp keeps the low six bytes of its eight.\<close>

definition serialize_package :: "signed_package \<Rightarrow> bytes option" where
  "serialize_package package =
     (let fid = str_bytes (feed_id package) in
      if 32 < length fid then None
      else
      case scale_value (value_text package) of
        None \<Rightarrow> None
      | Some v \<Rightarrow>
          Some (fid @ replicate (32 - length fid) 0
                @ replicate (VALUE_BYTES - 16) 0 @ be_bytes 16 v
                @ drop 2 (be_bytes 8 (timestamp_ms package))
                @ be_bytes 4 VALUE_BYTES
                @ [0, 0, 1]))"

definition recover_signer :: "('sig, 'rid, 'key) crypto \<Rightarrow> signed_package \<Rightarrow> bytes option" where
  "recover_signer C package =
     (case serialize_package package of
        None \<Rightarrow> None
      | Some body \<Rightarrow>
     (case signature_from_slice C (take 64 (signature package)) of
        None \<Rightarrow> None
      | Some sg \<Rightarrow>
     (let v = signature package ! 64 in
      case recovery_id_from_byte C (if 27 \<le> v then v - 27 else v) of
        None \<Rightarrow> None
      | Some recovery \<Rightarrow>
     (case recover_from_prehash C (keccak256 C body) sg recovery of
        None \<Rightarrow> None
      | Some key \<Rightarrow> Some (drop 12 (keccak256 C (drop 1 (to_sec1_point C key))))))))"

section \<open>The payload\<close>

definition sat_add_u64 :: "nat \<Rightarrow> nat \<Rightarrow> nat" where
  "sat_add_u64 a b = min (a + b) u64_max"

definition package_fresh :: "adapter_rules \<Rightarrow> nat \<Rightarrow> signed_package \<Rightarrow> bool" where
  "package_fresh rules now_ms package \<longleftrightarrow>
     now_ms \<le> sat_add_u64 (timestamp_ms package) (max_delay_ms rules)
     \<and> timestamp_ms package \<le> sat_add_u64 now_ms (max_ahead_ms rules)"

text \<open>The packages accepted of one feed: \<open>seen\<close> are the signers already used.\<close>

fun accept_packages ::
    "('sig, 'rid, 'key) crypto \<Rightarrow> adapter_rules \<Rightarrow> nat \<Rightarrow> signed_package list \<Rightarrow> bytes list
     \<Rightarrow> signed_package list \<Rightarrow> signed_package list" where
  "accept_packages C rules now_ms [] seen accepted = accepted"
| "accept_packages C rules now_ms (package # rest) seen accepted =
     (if \<not> package_fresh rules now_ms package then accept_packages C rules now_ms rest seen accepted
      else
      case recover_signer C package of
        None \<Rightarrow> accept_packages C rules now_ms rest seen accepted
      | Some signer \<Rightarrow>
          if signer \<noteq> claimed_signer package \<or> signer \<notin> set (signers rules) \<or> signer \<in> set seen
          then accept_packages C rules now_ms rest seen accepted
          else if signer_threshold rules \<le> length (accepted @ [package]) then accepted @ [package]
          else accept_packages C rules now_ms rest (signer # seen) (accepted @ [package]))"

fun append_packages :: "string \<Rightarrow> signed_package list \<Rightarrow> bytes \<Rightarrow> nat \<Rightarrow> string + bytes \<times> nat" where
  "append_packages feed [] out cnt = Inr (out, cnt)"
| "append_packages feed (package # rest) out cnt =
     (case serialize_package package of
        None \<Rightarrow> Inl (feed @ '': package could not be serialized'')
      | Some body \<Rightarrow>
          if 65535 < cnt + 1 then Inl ''too many packages for one payload''
          else append_packages feed rest (out @ body @ signature package) (cnt + 1))"

fun build_feeds ::
    "('sig, 'rid, 'key) crypto \<Rightarrow> (string \<rightharpoonup> signed_package list) \<Rightarrow> string list \<Rightarrow> adapter_rules \<Rightarrow> nat
     \<Rightarrow> bytes \<Rightarrow> nat \<Rightarrow> string + bytes \<times> nat" where
  "build_feeds C packages [] rules now_ms out cnt = Inr (out, cnt)"
| "build_feeds C packages (feed # rest) rules now_ms out cnt =
     (case packages feed of
        None \<Rightarrow> Inl (feed @ '': no packages from the gateway'')
      | Some candidates \<Rightarrow>
          let accepted = accept_packages C rules now_ms candidates [] [] in
          if length accepted < signer_threshold rules then
            Inl (feed @ '': '' @ show_nat (length accepted) @ '' usable signer(s), adapter threshold ''
                 @ show_nat (signer_threshold rules))
          else
          (case append_packages feed accepted out cnt of
             Inl e \<Rightarrow> Inl e
           | Inr (out', cnt') \<Rightarrow> build_feeds C packages rest rules now_ms out' cnt'))"

definition build_payload ::
    "('sig, 'rid, 'key) crypto \<Rightarrow> (string \<rightharpoonup> signed_package list) \<Rightarrow> string list \<Rightarrow> adapter_rules \<Rightarrow> nat
     \<Rightarrow> string + bytes" where
  "build_payload C packages feed_ids rules now_ms =
     (case build_feeds C packages feed_ids rules now_ms [] 0 of
        Inl e \<Rightarrow> Inl e
      | Inr (out, cnt) \<Rightarrow> Inr (out @ be_bytes 2 cnt @ [0, 0, 0] @ REDSTONE_MARKER))"

section \<open>The memo of pushes\<close>

type_synonym 'f push_memo = "(account_id \<times> 'f) \<rightharpoonup> nat"

definition due_feeds :: "'f push_memo \<Rightarrow> account_id \<Rightarrow> 'f list \<Rightarrow> nat \<Rightarrow> nat \<Rightarrow> 'f list" where
  "due_feeds last_push adapter feeds min_interval now =
     filter (\<lambda>feed. case last_push (adapter, feed) of None \<Rightarrow> True | Some prev \<Rightarrow> min_interval \<le> now - prev) feeds"

definition reserve_due :: "'f push_memo \<Rightarrow> account_id \<Rightarrow> 'f list \<Rightarrow> nat \<Rightarrow> nat \<Rightarrow> 'f list \<times> 'f push_memo" where
  "reserve_due last_push adapter feeds min_interval now =
     (let due = due_feeds last_push adapter feeds min_interval now in
      (due, fold (\<lambda>feed memo. memo((adapter, feed) \<mapsto> now)) due last_push))"

definition release_feeds :: "'f push_memo \<Rightarrow> account_id \<Rightarrow> 'f list \<Rightarrow> 'f push_memo" where
  "release_feeds last_push adapter feeds = fold (\<lambda>feed memo. memo((adapter, feed) := None)) feeds last_push"

section \<open>Lemmas: scaling\<close>

text \<open>The number a decimal text denotes.\<close>

definition decimal_value :: "string \<Rightarrow> string \<Rightarrow> int \<Rightarrow> rat" where
  "decimal_value ip fp e = of_nat (digits_value (ip @ fp)) * 10 powi (e - int (length fp))"

lemma digits_value_strip: "digits_value (dropWhile (\<lambda>c. c = CHR ''0'') s) = digits_value s"
  by (induction s) (auto simp: digits_value_def byte_def)

lemma parse_uint_value:
  assumes "parse_uint mx s = Some n" "list_all is_digit s"
  shows "n = digits_value s"
proof -
  have "strip_prefix ''+'' s = None"
  proof (cases s)
    case (Cons c cs)
    with assms(2) have "c \<noteq> CHR ''+''" by (auto simp: is_digit_def byte_def)
    with Cons show ?thesis by (simp add: strip_prefix_def)
  qed (simp add: strip_prefix_def)
  with assms(1) show ?thesis by (auto simp: parse_uint_def Let_def split: if_splits)
qed

lemma round_half_up:
  assumes "0 < k"
  shows "\<lfloor>(of_nat d :: rat) / 10 ^ k + 1 / 2\<rfloor> = int ((d + 10 ^ k div 2) div 10 ^ k)"
proof -
  obtain j where k: "k = Suc j" using assms by (cases k) auto
  have half: "(10::nat) ^ k div 2 = 5 * 10 ^ j" by (simp add: k)
  have "(of_nat d :: rat) / 10 ^ k + 1 / 2 = of_int (int (d + 5 * 10 ^ j)) / of_int (int (10 ^ k))"
    by (simp add: k field_simps)
  then have "\<lfloor>(of_nat d :: rat) / 10 ^ k + 1 / 2\<rfloor> = int (d + 5 * 10 ^ j) div int (10 ^ k)"
    by (simp only: floor_divide_of_int_eq)
  then show ?thesis by (simp only: half zdiv_int)
qed

lemma scale_mantissa_exact:
  assumes "scale_mantissa ip fp e = Some n" "list_all is_digit ip" "list_all is_digit fp"
  shows "int n = \<lfloor>decimal_value ip fp e * 10 ^ 8 + 1 / 2\<rfloor>" "n \<le> u128_max"
proof -
  let ?d = "digits_value (ip @ fp)" and ?s = "8 + e - int (length fp)"
  let ?t = "dropWhile (\<lambda>c. c = CHR ''0'') (ip @ fp)"
  have digits: "list_all is_digit ?t"
    using assms(2,3) set_dropWhileD [of _ "\<lambda>c. c = CHR ''0''" "ip @ fp"] by (auto simp: list_all_iff)
  obtain m where m: "(if ?t = [] then Some 0 else parse_uint u128_max ?t) = Some m"
    using assms(1) by (auto simp: scale_mantissa_def Let_def split: option.splits)
  have "m = digits_value ?t"
  proof (cases "?t = []")
    case True
    then have "digits_value ?t = 0" unfolding True by (simp add: digits_value_def)
    with True m show ?thesis by simp
  next
    case False
    with m have "parse_uint u128_max ?t = Some m" by (simp only: if_False)
    then show ?thesis using digits by (rule parse_uint_value)
  qed
  with m have m: "(if ?t = [] then Some 0 else parse_uint u128_max ?t) = Some ?d"
    using digits_value_strip [of "ip @ fp"] by simp
  have "decimal_value ip fp e * 10 ^ 8 = of_nat ?d * (10 powi (e - int (length fp)) * 10 powi 8)"
    by (simp add: decimal_value_def)
  also have "\<dots> = of_nat ?d * 10 powi ?s"
    by (subst power_int_add [symmetric]) (auto simp: algebra_simps)
  finally have val: "decimal_value ip fp e * 10 ^ 8 = of_nat ?d * 10 powi ?s" .
  have "int n = \<lfloor>of_nat ?d * 10 powi ?s + (1::rat) / 2\<rfloor> \<and> n \<le> u128_max"
  proof (cases "0 \<le> ?s")
    case True
    then have n: "n = ?d * 10 ^ nat ?s" "n \<le> u128_max"
      using assms(1) m
      by (auto simp: scale_mantissa_def Let_def DECIMALS_def checked_pow_10_def checked_mul_def
               split: if_splits option.splits)
    have "of_nat ?d * (10::rat) powi ?s = of_int (int n)"
      using True by (simp add: n(1) power_int_def)
    then show ?thesis using n(2) by (simp add: floor_add_int)
  next
    case False
    then have n: "n = (?d + 10 ^ nat (- ?s) div 2) div 10 ^ nat (- ?s)"
        "?d + 10 ^ nat (- ?s) div 2 \<le> u128_max"
      using assms(1) m
      by (auto simp: scale_mantissa_def Let_def DECIMALS_def checked_pow_10_def checked_add_def
               split: if_splits option.splits)
    have "of_nat ?d * (10::rat) powi ?s = of_nat ?d / 10 ^ nat (- ?s)"
      using False by (simp add: power_int_def field_simps power_inverse)
    moreover have "0 < nat (- ?s)" using False by simp
    ultimately have "int n = \<lfloor>of_nat ?d * 10 powi ?s + (1::rat) / 2\<rfloor>"
      using round_half_up n(1) by metis
    then show ?thesis using n div_le_dividend order_trans by metis
  qed
  with val show "int n = \<lfloor>decimal_value ip fp e * 10 ^ 8 + 1 / 2\<rfloor>" "n \<le> u128_max" by simp_all
qed

lemma decimal_parts_digits:
  "decimal_parts txt = Some (ip, fp, e) \<Longrightarrow> list_all is_digit ip \<and> list_all is_digit fp"
  by (auto simp: decimal_parts_def Let_def split: option.splits if_splits prod.splits)

lemma scale_value_cases:
  assumes "scale_value txt = Some n"
  obtains ip fp e where "decimal_parts txt = Some (ip, fp, e)" "scale_mantissa ip fp e = Some n"
  using assms by (auto simp: scale_value_def split: option.splits prod.splits)

lemma scale_value_le: "scale_value txt = Some n \<Longrightarrow> n \<le> u128_max"
  by (elim scale_value_cases) (auto dest: decimal_parts_digits scale_mantissa_exact(2))

section \<open>Lemmas: bytes\<close>

text \<open>The integer a byte string denotes, most significant byte first.\<close>

definition be_value :: "bytes \<Rightarrow> nat" where
  "be_value bs = foldl (\<lambda>a b. a * 256 + b) 0 bs"

lemma length_be_bytes [simp]: "length (be_bytes n v) = n"
  by (simp add: be_bytes_def)

lemma be_bytes_Suc: "be_bytes (Suc n) v = be_bytes n (v div 256) @ [v mod 256]"
proof -
  have "v div 256 ^ (n - i) mod 256 = v div 256 div 256 ^ (n - 1 - i) mod 256" if "i < n" for i
  proof -
    have "(256::nat) * 256 ^ (n - 1 - i) = 256 ^ (n - i)"
      using that by (simp flip: power_Suc)
    then show ?thesis by (simp flip: div_mult2_eq)
  qed
  then show ?thesis by (simp add: be_bytes_def)
qed

lemma be_value_be_bytes [simp]: "be_value (be_bytes n v) = v mod 256 ^ n"
proof (induction n arbitrary: v)
  case 0
  show ?case by (simp add: be_value_def be_bytes_def)
next
  case (Suc n)
  have "be_value (be_bytes (Suc n) v) = be_value (be_bytes n (v div 256)) * 256 + v mod 256"
    by (simp add: be_bytes_Suc be_value_def)
  then show ?case by (simp add: Suc mod_mult2_eq)
qed

lemma drop_be_bytes: "drop k (be_bytes (k + n) v) = be_bytes n v"
  by (rule nth_equalityI) (auto simp: be_bytes_def algebra_simps)

lemma be_value_zeros [simp]: "be_value (replicate n 0 @ bs) = be_value bs"
proof -
  have "foldl (\<lambda>a b. a * 256 + b) 0 (replicate n 0) = (0::nat)" by (induction n) auto
  then show ?thesis by (simp add: be_value_def)
qed

lemma be_bytes_bounds: "b \<in> set (be_bytes n v) \<Longrightarrow> b < 256"
  by (auto simp: be_bytes_def)

text \<open>The layout read back: the feed id up to its padding, the value, the timestamp.\<close>

definition decode_package :: "bytes \<Rightarrow> bytes \<times> nat \<times> nat" where
  "decode_package bs =
     (takeWhile (\<lambda>b. b \<noteq> 0) (take 32 bs), be_value (take 32 (drop 32 bs)), be_value (take 6 (drop 64 bs)))"

lemma take_drop_eq: "length a = i \<Longrightarrow> length b = j \<Longrightarrow> take j (drop i (a @ b @ c)) = b"
  by simp

lemma takeWhile_padding: "takeWhile ((<) 0) (bs @ replicate n (0::nat)) = takeWhile ((<) 0) bs"
  by (induction bs) auto

lemma serialize_package_cases:
  assumes "serialize_package p = Some bs"
  obtains v where "scale_value (value_text p) = Some v" "length (str_bytes (feed_id p)) \<le> 32"
    "bs = (str_bytes (feed_id p) @ replicate (32 - length (str_bytes (feed_id p))) 0)
          @ (replicate 16 0 @ be_bytes 16 v) @ be_bytes 6 (timestamp_ms p) @ be_bytes 4 32 @ [0, 0, 1]"
proof -
  have "drop 2 (be_bytes 8 t) = be_bytes 6 t" for t using drop_be_bytes [of 2 6 t] by simp
  with assms that show thesis
    by (auto simp: serialize_package_def Let_def VALUE_BYTES_def split: if_splits option.splits)
qed

lemma serialize_package_decode:
  assumes "serialize_package p = Some bs"
  shows "length bs = 77 \<and> length (str_bytes (feed_id p)) \<le> 32
    \<and> (\<exists>v. scale_value (value_text p) = Some v
        \<and> decode_package bs = (takeWhile (\<lambda>b. b \<noteq> 0) (str_bytes (feed_id p)), v, timestamp_ms p mod 2 ^ 48))"
proof -
  obtain v where v: "scale_value (value_text p) = Some v" "length (str_bytes (feed_id p)) \<le> 32"
    "bs = (str_bytes (feed_id p) @ replicate (32 - length (str_bytes (feed_id p))) 0)
          @ (replicate 16 0 @ be_bytes 16 v) @ be_bytes 6 (timestamp_ms p) @ be_bytes 4 32 @ [0, 0, 1]"
    (is "_ = ?a @ ?b @ ?c @ ?d")
    using assms by (elim serialize_package_cases)
  have len: "length ?a = 32" "length ?b = 32" "length ?c = 6" using v(2) by simp_all
  have "take 32 bs = ?a" using len v(3) by simp
  moreover have "take 32 (drop 32 bs) = ?b" unfolding v(3) using len by (intro take_drop_eq) auto
  moreover have "take 6 (drop 64 bs) = ?c"
    using take_drop_eq [of "?a @ ?b" 64 ?c 6 ?d] len v(3) by simp
  moreover have "v < 256 ^ 16" using scale_value_le [OF v(1)] by (simp add: u128_max_def)
  ultimately have "decode_package bs =
      (takeWhile (\<lambda>b. b \<noteq> 0) (str_bytes (feed_id p)), v, timestamp_ms p mod 2 ^ 48)"
    by (simp add: decode_package_def takeWhile_padding)
  moreover have "length bs = 77" using len v(3) by simp
  ultimately show ?thesis using v(1,2) by blast
qed

section \<open>Lemmas: the payload\<close>

text \<open>What the adapter contract accepts of one package.\<close>

definition usable ::
    "('sig, 'rid, 'key) crypto \<Rightarrow> adapter_rules \<Rightarrow> nat \<Rightarrow> signed_package \<Rightarrow> bool" where
  "usable C rules now_ms p \<longleftrightarrow>
     package_fresh rules now_ms p \<and> recover_signer C p = Some (claimed_signer p)
     \<and> claimed_signer p \<in> set (signers rules)"

definition usable_signers ::
    "('sig, 'rid, 'key) crypto \<Rightarrow> adapter_rules \<Rightarrow> nat \<Rightarrow> signed_package list \<Rightarrow> bytes set" where
  "usable_signers C rules now_ms cs = claimed_signer ` {p \<in> set cs. usable C rules now_ms p}"

text \<open>One accepted package per signer: the step of the loop in terms of \<open>usable\<close>.\<close>

lemma accept_packages_Cons:
  "accept_packages C rules now_ms (p # rest) seen accepted =
     (if usable C rules now_ms p \<and> claimed_signer p \<notin> set seen
      then if signer_threshold rules \<le> Suc (length accepted) then accepted @ [p]
           else accept_packages C rules now_ms rest (claimed_signer p # seen) (accepted @ [p])
      else accept_packages C rules now_ms rest seen accepted)"
  by (auto simp: usable_def split: option.splits)

lemma accept_packages_sound:
  assumes "set seen = claimed_signer ` set accepted" "distinct (map claimed_signer accepted)"
    "\<forall>p\<in>set accepted. usable C rules now_ms p"
    "length accepted < signer_threshold rules \<or> signer_threshold rules = 0 \<and> accepted = []"
    and r_def: "r = accept_packages C rules now_ms cs seen accepted"
  shows "distinct (map claimed_signer r) \<and> (\<forall>p\<in>set r. usable C rules now_ms p)
    \<and> set r \<subseteq> set accepted \<union> set cs \<and> length r \<le> max 1 (signer_threshold rules)
    \<and> (length r < signer_threshold rules \<longrightarrow>
         claimed_signer ` set r = set seen \<union> usable_signers C rules now_ms cs)"
  using assms(1-4) unfolding r_def
proof (induction cs arbitrary: seen accepted)
  case Nil
  then show ?case by (auto simp: usable_signers_def)
next
  case (Cons p cs)
  let ?new = "usable C rules now_ms p \<and> claimed_signer p \<notin> set seen"
  have more: "usable_signers C rules now_ms (p # cs)
      = (if usable C rules now_ms p then {claimed_signer p} else {}) \<union> usable_signers C rules now_ms cs"
    by (auto simp: usable_signers_def)
  consider (skip) "\<not> ?new" | (stop) ?new "signer_threshold rules \<le> Suc (length accepted)"
    | (take_it) ?new "Suc (length accepted) < signer_threshold rules" by linarith
  then show ?case
  proof cases
    case skip
    then have "set seen \<union> usable_signers C rules now_ms (p # cs) = set seen \<union> usable_signers C rules now_ms cs"
      by (auto simp: more)
    with Cons.IH [OF Cons.prems] skip show ?thesis
      unfolding accept_packages_Cons if_not_P [OF skip] by auto
  next
    case stop
    with Cons.prems show ?thesis unfolding accept_packages_Cons by auto
  next
    case take_it
    have "set (claimed_signer p # seen) = claimed_signer ` set (accepted @ [p])" using Cons.prems(1) by auto
    moreover have "distinct (map claimed_signer (accepted @ [p]))"
      using Cons.prems(1,2) take_it(1) by auto
    ultimately show ?thesis
      using Cons.IH [of "claimed_signer p # seen" "accepted @ [p]"] Cons.prems(3) take_it
      unfolding accept_packages_Cons by (auto simp: more)
  qed
qed

lemma accept_packages_start:
  fixes r
  assumes r_def: "r = accept_packages C rules now_ms cs [] []"
  shows "distinct (map claimed_signer r)" "\<forall>p\<in>set r. usable C rules now_ms p" "set r \<subseteq> set cs"
    "length r \<le> max 1 (signer_threshold rules)"
    "length r < signer_threshold rules \<longleftrightarrow> card (usable_signers C rules now_ms cs) < signer_threshold rules"
proof -
  note sound = accept_packages_sound [of "[]" "[]" C rules now_ms r cs, OF _ _ _ _ r_def]
  then show all: "distinct (map claimed_signer r)" "\<forall>p\<in>set r. usable C rules now_ms p" "set r \<subseteq> set cs"
    "length r \<le> max 1 (signer_threshold rules)" by auto
  have len: "card (claimed_signer ` set r) = length r"
    using all(1) distinct_card [of "map claimed_signer r"] by simp
  have sub: "claimed_signer ` set r \<subseteq> usable_signers C rules now_ms cs"
    using all(2,3) by (auto simp: usable_signers_def)
  have fin: "finite (usable_signers C rules now_ms cs)" by (simp add: usable_signers_def)
  show "length r < signer_threshold rules \<longleftrightarrow> card (usable_signers C rules now_ms cs) < signer_threshold rules"
    using sound len card_mono [OF fin sub] by auto
qed

definition package_bytes :: "signed_package \<Rightarrow> bytes" where
  "package_bytes p = (case serialize_package p of None \<Rightarrow> [] | Some bs \<Rightarrow> bs) @ signature p"

lemma usable_serializes: "usable C rules now_ms p \<Longrightarrow> serialize_package p \<noteq> None"
  by (auto simp: usable_def recover_signer_def split: option.splits)

lemma append_packages_usable:
  assumes "\<forall>p\<in>set ps. usable C rules now_ms p" "cnt \<le> 65535"
  shows "append_packages feed ps out cnt =
    (if cnt + length ps \<le> 65535 then Inr (out @ concat (map package_bytes ps), cnt + length ps)
     else Inl ''too many packages for one payload'')"
  using assms
proof (induction ps arbitrary: out cnt)
  case (Cons p ps)
  then obtain bs where bs: "serialize_package p = Some bs" using usable_serializes by fastforce
  then have "package_bytes p = bs @ signature p" by (simp add: package_bytes_def)
  with bs Cons show ?case by auto
qed simp

text \<open>The packages of one feed, as the loop picks them.\<close>

definition picks ::
    "('sig, 'rid, 'key) crypto \<Rightarrow> (string \<rightharpoonup> signed_package list) \<Rightarrow> adapter_rules \<Rightarrow> nat \<Rightarrow> string
     \<Rightarrow> signed_package list" where
  "picks C packages rules now_ms feed =
     (case packages feed of None \<Rightarrow> [] | Some cs \<Rightarrow> accept_packages C rules now_ms cs [] [])"

definition enough_signers ::
    "('sig, 'rid, 'key) crypto \<Rightarrow> (string \<rightharpoonup> signed_package list) \<Rightarrow> adapter_rules \<Rightarrow> nat \<Rightarrow> string \<Rightarrow> bool" where
  "enough_signers C packages rules now_ms feed \<longleftrightarrow>
     (case packages feed of
        None \<Rightarrow> False
      | Some cs \<Rightarrow> signer_threshold rules \<le> card (usable_signers C rules now_ms cs))"

lemma build_feeds_eq:
  assumes "cnt \<le> 65535"
  shows "build_feeds C packages feeds rules now_ms out cnt = Inr (out', cnt') \<longleftrightarrow>
    (\<forall>feed\<in>set feeds. enough_signers C packages rules now_ms feed)
    \<and> cnt' = cnt + length (concat (map (picks C packages rules now_ms) feeds)) \<and> cnt' \<le> 65535
    \<and> out' = out @ concat (map package_bytes (concat (map (picks C packages rules now_ms) feeds)))"
  using assms
proof (induction feeds arbitrary: out cnt)
  case (Cons feed feeds)
  show ?case
  proof (cases "packages feed")
    case None
    then show ?thesis by (auto simp: enough_signers_def)
  next
    case (Some cs)
    let ?r = "accept_packages C rules now_ms cs [] []"
    note start = accept_packages_start [OF refl, of C rules now_ms cs]
    have enough: "enough_signers C packages rules now_ms feed \<longleftrightarrow> \<not> length ?r < signer_threshold rules"
      using start(5) Some by (simp add: enough_signers_def linorder_not_less)
    have picks: "picks C packages rules now_ms feed = ?r" using Some by (simp add: picks_def)
    show ?thesis
      using Some Cons.prems
      by (auto simp: enough picks append_packages_usable [OF start(2)] Cons.IH Let_def)
  qed
qed auto

lemma picks_sound:
  assumes "enough_signers C packages rules now_ms feed"
  shows "\<exists>cs. packages feed = Some cs \<and> set (picks C packages rules now_ms feed) \<subseteq> set cs
    \<and> (\<forall>p\<in>set (picks C packages rules now_ms feed). usable C rules now_ms p)
    \<and> distinct (map claimed_signer (picks C packages rules now_ms feed))
    \<and> signer_threshold rules \<le> length (picks C packages rules now_ms feed)
    \<and> length (picks C packages rules now_ms feed) \<le> max 1 (signer_threshold rules)"
proof -
  obtain cs where cs: "packages feed = Some cs" using assms by (auto simp: enough_signers_def split: option.splits)
  with assms accept_packages_start [OF refl, of C rules now_ms cs] show ?thesis
    by (auto simp: picks_def enough_signers_def linorder_not_less)
qed

text \<open>What a feed contributes: acceptable packages of as many distinct signers as the adapter asks for.\<close>

definition well_picked ::
    "('sig, 'rid, 'key) crypto \<Rightarrow> (string \<rightharpoonup> signed_package list) \<Rightarrow> adapter_rules \<Rightarrow> nat \<Rightarrow> string
     \<Rightarrow> signed_package list \<Rightarrow> bool" where
  "well_picked C packages rules now_ms feed ps \<longleftrightarrow>
     (\<exists>cs. packages feed = Some cs \<and> set ps \<subseteq> set cs) \<and> list_all (usable C rules now_ms) ps
     \<and> distinct (map claimed_signer ps)
     \<and> signer_threshold rules \<le> length ps \<and> length ps \<le> max 1 (signer_threshold rules)"

lemma enough_signers_iff:
  "enough_signers C packages rules now_ms feed \<longleftrightarrow>
     well_picked C packages rules now_ms feed (picks C packages rules now_ms feed)"
proof
  assume "enough_signers C packages rules now_ms feed"
  from picks_sound [OF this] show "well_picked C packages rules now_ms feed (picks C packages rules now_ms feed)"
    by (auto simp: well_picked_def list_all_iff)
next
  assume w: "well_picked C packages rules now_ms feed (picks C packages rules now_ms feed)"
  then obtain cs where cs: "packages feed = Some cs" by (auto simp: well_picked_def)
  let ?r = "picks C packages rules now_ms feed"
  have sub: "claimed_signer ` set ?r \<subseteq> usable_signers C rules now_ms cs"
    using w cs by (auto simp: well_picked_def usable_signers_def list_all_iff)
  have "length ?r = card (claimed_signer ` set ?r)"
    using w distinct_card [of "map claimed_signer ?r"] by (simp add: well_picked_def)
  also have "\<dots> \<le> card (usable_signers C rules now_ms cs)"
    using sub by (intro card_mono) (simp_all add: usable_signers_def)
  finally show "enough_signers C packages rules now_ms feed"
    using w cs by (simp add: well_picked_def enough_signers_def)
qed

lemma build_payload_eq:
  "build_payload C packages feeds rules now_ms = Inr out \<longleftrightarrow>
    (\<forall>feed\<in>set feeds. enough_signers C packages rules now_ms feed)
    \<and> length (concat (map (picks C packages rules now_ms) feeds)) \<le> 65535
    \<and> out = concat (map package_bytes (concat (map (picks C packages rules now_ms) feeds)))
        @ be_bytes 2 (length (concat (map (picks C packages rules now_ms) feeds))) @ [0, 0, 0] @ REDSTONE_MARKER"
proof (cases "build_feeds C packages feeds rules now_ms [] 0")
  case (Inl e)
  with build_feeds_eq [of 0 C packages feeds rules now_ms "[]"] show ?thesis
    by (auto simp: build_payload_def)
next
  case (Inr oc)
  obtain o' c' where oc: "oc = (o', c')" by (cases oc)
  with Inr build_feeds_eq [of 0 C packages feeds rules now_ms "[]" o' c'] show ?thesis
    by (auto simp: build_payload_def)
qed

section \<open>Lemmas: the memo\<close>

lemma fold_reserve:
  "fold (\<lambda>feed memo. memo((adapter, feed) \<mapsto> now)) fs memo (a, f) =
     (if a = adapter \<and> f \<in> set fs then Some now else memo (a, f))"
  by (induction fs arbitrary: memo) auto

lemma fold_release:
  "fold (\<lambda>feed memo. memo((adapter, feed) := None)) fs memo (a, f) =
     (if a = adapter \<and> f \<in> set fs then None else memo (a, f))"
  by (induction fs arbitrary: memo) auto

lemma reserve_due_cases:
  assumes "reserve_due memo adapter feeds min_interval now = (due, memo')"
  shows "due = due_feeds memo adapter feeds min_interval now"
    "memo' (a, f) = (if a = adapter \<and> f \<in> set due then Some now else memo (a, f))"
  using assms by (auto simp: reserve_due_def Let_def fold_reserve)

text \<open>Successive reservations of one adapter, each with its time and the feeds asked for; the result
  has the feeds each obtained.\<close>

fun reservations :: "'f push_memo \<Rightarrow> account_id \<Rightarrow> nat \<Rightarrow> (nat \<times> 'f list) list \<Rightarrow> (nat \<times> 'f list) list" where
  "reservations memo adapter min_interval [] = []"
| "reservations memo adapter min_interval ((now, feeds) # calls) =
     (let (due, memo') = reserve_due memo adapter feeds min_interval now
      in (now, due) # reservations memo' adapter min_interval calls)"

lemma reservations_after:
  assumes "memo (adapter, f) = Some t" "\<forall>(now, feeds) \<in> set calls. t \<le> now" "sorted (map fst calls)"
    "(t', d) \<in> set (reservations memo adapter min_interval calls)" "f \<in> set d"
  shows "t + min_interval \<le> t'"
  using assms
proof (induction calls arbitrary: memo t)
  case (Cons call calls)
  obtain now feeds where call: "call = (now, feeds)" by (cases call)
  obtain due memo' where r: "reserve_due memo adapter feeds min_interval now = (due, memo')"
    by (cases "reserve_due memo adapter feeds min_interval now")
  have later: "\<forall>(now', feeds) \<in> set calls. now \<le> now'" using Cons.prems(3) call by auto
  have step: "t + min_interval \<le> now" if "f \<in> set due"
    using that reserve_due_cases(1) [OF r] Cons.prems(1,2) call by (auto simp: due_feeds_def)
  show ?case
  proof (cases "(t', d) = (now, due)")
    case True
    with step Cons.prems(5) show ?thesis by simp
  next
    case False
    with Cons.prems(4) r call have rest: "(t', d) \<in> set (reservations memo' adapter min_interval calls)"
      by auto
    have sorted: "sorted (map fst calls)" using Cons.prems(3) by simp
    show ?thesis
    proof (cases "f \<in> set due")
      case True
      with reserve_due_cases(2) [OF r, of adapter f] have "memo' (adapter, f) = Some now" by simp
      from Cons.IH [OF this later sorted rest Cons.prems(5)] step [OF True] show ?thesis by linarith
    next
      case False
      with reserve_due_cases(2) [OF r, of adapter f] Cons.prems(1) have "memo' (adapter, f) = Some t" by simp
      moreover have "\<forall>(now, feeds) \<in> set calls. t \<le> now" using Cons.prems(2) by simp
      ultimately show ?thesis using Cons.IH sorted rest Cons.prems(5) by blast
    qed
  qed
qed simp

text \<open>Two reservations that share a feed are at least the interval apart.\<close>

definition spaced :: "nat \<Rightarrow> (nat \<times> 'f list) list \<Rightarrow> bool" where
  "spaced min_interval rs \<longleftrightarrow>
     sorted_wrt (\<lambda>(t, d) (t', d'). set d \<inter> set d' \<noteq> {} \<longrightarrow> t + min_interval \<le> t') rs"

lemma reservations_spaced:
  assumes "sorted (map fst calls)"
  shows "spaced min_interval (reservations memo adapter min_interval calls)"
  using assms unfolding spaced_def
proof (induction calls arbitrary: memo)
  case (Cons call calls)
  obtain now feeds where call: "call = (now, feeds)" by (cases call)
  obtain due memo' where r: "reserve_due memo adapter feeds min_interval now = (due, memo')"
    by (cases "reserve_due memo adapter feeds min_interval now")
  have later: "\<forall>(now', feeds) \<in> set calls. now \<le> now'" "sorted (map fst calls)" using Cons.prems call by auto
  have "now + min_interval \<le> t'"
    if "(t', d) \<in> set (reservations memo' adapter min_interval calls)" "f \<in> set due" "f \<in> set d" for t' d f
    using reservations_after [OF _ later that(1,3)] reserve_due_cases(2) [OF r, of adapter f] that(2) by simp
  with Cons.IH [OF later(2)] r call show ?case by auto
qed simp

end
