(* ===== verification/Redstone.thy ===== *)
theory Redstone
  imports Redstone_Push Format
begin

text \<open>
  src/redstone.rs: the configuration of the authenticated gateways, the shared client with its snapshot
  and failure memory, the fail-over fetch, and the scan-time median. Also \<open>publish_time_is_fresh\<close> of
  src/oracle.rs, the bound every off-chain price passes.

  URL and JSON parsing and the HTTP round trip are arguments: \<open>send\<close> answers a gateway's request with a
  transport error, or a status with the body (or the error of reading it). Times are milliseconds.
\<close>

definition SYNTH_EXPO :: int where "SYNTH_EXPO = - 8"
definition MAX_FUTURE_SKEW_MS :: int where "MAX_FUTURE_SKEW_MS = 30000"
definition PACKAGE_TTL :: nat where "PACKAGE_TTL = 10000"
definition FAILURE_BACKOFF :: nat where "FAILURE_BACKOFF = 10000"
definition STATUS_NO_TRACKED_FEEDS :: nat where "STATUS_NO_TRACKED_FEEDS = 513"

definition i64_max :: int where "i64_max = 9223372036854775807"
definition i64_min :: int where "i64_min = - 9223372036854775808"

definition checked_sub_i64 :: "int \<Rightarrow> int \<Rightarrow> int option" where
  "checked_sub_i64 a b = (if i64_min \<le> a - b \<and> a - b \<le> i64_max then Some (a - b) else None)"

definition publish_time_is_fresh :: "int \<Rightarrow> int \<Rightarrow> nat \<Rightarrow> bool" where
  "publish_time_is_fresh publish_time_secs now_secs max_age_secs =
     (case checked_sub_i64 now_secs publish_time_secs of
        None \<Rightarrow> False
      | Some age_secs \<Rightarrow> age_secs \<le> int max_age_secs \<and> - (MAX_FUTURE_SKEW_MS div 1000) \<le> age_secs)"

section \<open>Configuration\<close>

record parsed_url =
  url_scheme :: string
  url_username :: string
  url_password :: "string option"
  url_query :: "string option"
  url_fragment :: "string option"
  url_origin :: string
  url_path :: string

record authenticated_gateway =
  gw_url :: parsed_url
  gw_api_key :: string

record redstone_gateway_config =
  gateways :: "authenticated_gateway list"
  data_service_id :: string

definition is_ascii_graphic :: "char \<Rightarrow> bool" where
  "is_ascii_graphic c \<longleftrightarrow> 33 \<le> byte c \<and> byte c \<le> 126"

definition KNOB :: string where "KNOB = ''REDSTONE_AUTHENTICATED_GATEWAYS''"

definition entry_error :: "nat \<Rightarrow> string \<Rightarrow> string" where
  "entry_error index msg = KNOB @ '' entry '' @ show_nat index @ '': '' @ msg"

definition apos :: string where "apos = [CHR 0x27]"
definition dquote :: string where "dquote = [CHR 0x22]"
definition em_dash :: string where "em_dash = [CHR 0xE2, CHR 0x80, CHR 0x94]"
definition quoted :: "string \<Rightarrow> string" where "quoted s = dquote @ s @ dquote"

text \<open>An entry of the JSON array is its \<open>url\<close> and its \<open>apiKey\<close>.\<close>

definition parse_gateway :: "(string \<Rightarrow> string + parsed_url) \<Rightarrow> nat \<Rightarrow> string \<times> string \<Rightarrow> string + authenticated_gateway" where
  "parse_gateway url_parse index entry =
     (case url_parse (fst entry) of
        Inl error \<Rightarrow> Inl (entry_error index (''url does not parse ('' @ error @ '')''))
      | Inr url \<Rightarrow>
          if url_scheme url \<noteq> ''https'' then
            Inl (entry_error index (''url must be https (got scheme '' @ apos @ url_scheme url @ apos
              @ ''): the API key would otherwise travel in cleartext''))
          else if url_username url \<noteq> [] \<or> url_password url \<noteq> None \<or> url_query url \<noteq> None \<or> url_fragment url \<noteq> None then
            Inl (entry_error index (''url must carry no credentials, query or fragment '' @ em_dash
              @ '' only an origin and an optional path prefix; the key goes in apiKey''))
          else if snd entry = [] \<or> \<not> list_all is_ascii_graphic (snd entry) then
            Inl (entry_error index (''apiKey must be non-empty printable ASCII with no whitespace ''
              @ ''(a trailing newline from `echo` is the usual cause; value withheld)''))
          else Inr \<lparr>gw_url = url, gw_api_key = snd entry\<rparr>)"

fun parse_gateways ::
    "(string \<Rightarrow> string + parsed_url) \<Rightarrow> nat \<Rightarrow> (string \<times> string) list \<Rightarrow> string + authenticated_gateway list" where
  "parse_gateways url_parse index [] = Inr []"
| "parse_gateways url_parse index (entry # rest) =
     (case parse_gateway url_parse index entry of
        Inl e \<Rightarrow> Inl e
      | Inr gw \<Rightarrow>
          (case parse_gateways url_parse (Suc index) rest of Inl e \<Rightarrow> Inl e | Inr gws \<Rightarrow> Inr (gw # gws)))"

definition unquote :: "string \<Rightarrow> string" where
  "unquote raw =
     (let text = trim raw;
          inner = Option.bind (strip_prefix apos text) (strip_suffix apos)
      in trim (case inner of Some i \<Rightarrow> i | None \<Rightarrow> text))"

text \<open>A \<open>serde_json::Error\<close> is read for its category and its position only.\<close>

record json_error =
  json_category :: string
  json_line :: nat
  json_column :: nat

definition gateway_config_parse ::
    "(string \<Rightarrow> string + parsed_url) \<Rightarrow> (string \<Rightarrow> json_error + (string \<times> string) list) \<Rightarrow> string \<Rightarrow> string
     \<Rightarrow> string + redstone_gateway_config option" where
  "gateway_config_parse url_parse from_str raw service =
     (let text = unquote raw in
      if text = [] then Inr None
      else
      case from_str text of
        Inl error \<Rightarrow> Inl (KNOB @ '' must be a JSON array of {'' @ quoted ''url'' @ '': '' @ quoted (''https://'' @ ellipsis)
               @ '', '' @ quoted ''apiKey'' @ '': '' @ quoted ellipsis @ ''} objects ('' @ json_category error
               @ '' error at line '' @ show_nat (json_line error) @ '', column '' @ show_nat (json_column error)
               @ ''; value withheld '' @ em_dash @ '' it carries API keys)'')
      | Inr entries \<Rightarrow>
          if entries = [] then Inr None
          else
          (case parse_gateways url_parse 0 entries of
             Inl e \<Rightarrow> Inl e
           | Inr gws \<Rightarrow> Inr (Some \<lparr>gateways = gws, data_service_id = service\<rparr>)))"

section \<open>The client\<close>

type_synonym package_map = "string \<rightharpoonup> signed_package list"

record snapshot =
  fetched_at :: nat
  requested :: "string set"
  snapshot_packages :: package_map

record fetch_state =
  wanted :: "string set"
  last_snapshot :: "snapshot option"
  last_failure :: "(nat \<times> string) option"

definition initial_fetch_state :: fetch_state where
  "initial_fetch_state = \<lparr>wanted = {}, last_snapshot = None, last_failure = None\<rparr>"

text \<open>What the client needs from outside. \<open>gs_send\<close> answers one GET to one gateway for one set of
  feeds.\<close>

record gateway_services =
  gs_header_ok :: "string \<Rightarrow> bool"
  gs_send :: "authenticated_gateway \<Rightarrow> string set \<Rightarrow> string + nat \<times> (string + string)"
  gs_parse :: "string \<Rightarrow> string + (string \<times> signed_package list) list"
  gs_canonical_status :: "nat \<Rightarrow> string" \<comment> \<open>a status as it renders\<close>

definition fetch_from :: "gateway_services \<Rightarrow> authenticated_gateway \<Rightarrow> string set \<Rightarrow> string + package_map" where
  "fetch_from G gateway feeds =
     (if \<not> gs_header_ok G (gw_api_key gateway) then Inl ''API key is not a valid header value''
      else
      case gs_send G gateway feeds of
        Inl error \<Rightarrow> Inl (''request failed: '' @ error)
      | Inr (status, body) \<Rightarrow>
          if status = STATUS_NO_TRACKED_FEEDS then Inr Map.empty
          else if \<not> (200 \<le> status \<and> status < 300) then Inl (''returned '' @ gs_canonical_status G status)
          else
          (case body of
             Inl error \<Rightarrow> Inl (''body could not be read: '' @ error)
           | Inr text \<Rightarrow> map_sum id map_of (gs_parse G text)))"

text \<open>The second component lists the gateways tried, in order.\<close>

fun fetch_loop ::
    "gateway_services \<Rightarrow> authenticated_gateway list \<Rightarrow> string set \<Rightarrow> string list
     \<Rightarrow> (string list + package_map) \<times> authenticated_gateway list" where
  "fetch_loop G [] feeds failures = (Inl failures, [])"
| "fetch_loop G (gateway # rest) feeds failures =
     (case fetch_from G gateway feeds of
        Inr packages \<Rightarrow> (Inr packages, [gateway])
      | Inl error \<Rightarrow>
          let (res, asked) = fetch_loop G rest feeds (failures @ [url_origin (gw_url gateway) @ '': '' @ error])
          in (res, gateway # asked))"

fun join_with :: "string \<Rightarrow> string list \<Rightarrow> string" where
  "join_with sep [] = []"
| "join_with sep [x] = x"
| "join_with sep (x # xs) = x @ sep @ join_with sep xs"

definition fetch_packages ::
    "gateway_services \<Rightarrow> redstone_gateway_config \<Rightarrow> string set \<Rightarrow> (string + package_map) \<times> authenticated_gateway list" where
  "fetch_packages G cfg feeds =
     (case fetch_loop G (gateways cfg) feeds [] of
        (Inr packages, asked) \<Rightarrow> (Inr packages, asked)
      | (Inl failures, asked) \<Rightarrow> (Inl (''every RedStone gateway failed ('' @ join_with ''; '' failures @ '')''), asked))"

text \<open>\<open>now\<close> is the clock before the fetch and \<open>after\<close> the clock when it has ended. The last component is
  what the call asked of the gateways: nothing, or one fetch.\<close>

definition packages_inner ::
    "gateway_services \<Rightarrow> redstone_gateway_config \<Rightarrow> nat \<Rightarrow> nat \<Rightarrow> string list \<Rightarrow> bool \<Rightarrow> fetch_state
     \<Rightarrow> (string + package_map) \<times> fetch_state \<times> authenticated_gateway list" where
  "packages_inner G cfg now after feeds replay_failure st =
     (if feeds = [] then (Inr Map.empty, st, [])
      else
      let st1 = st\<lparr>wanted := wanted st \<union> set feeds\<rparr> in
      case (case last_snapshot st1 of
              Some s \<Rightarrow> if now - fetched_at s < PACKAGE_TTL \<and> list_all (\<lambda>f. f \<in> requested s) feeds then Some s else None
            | None \<Rightarrow> None) of
        Some s \<Rightarrow> (Inr (snapshot_packages s), st1, [])
      | None \<Rightarrow>
          (case (case last_failure st1 of
                   Some (failed_at, error) \<Rightarrow>
                     if replay_failure \<and> now - failed_at < FAILURE_BACKOFF then Some error else None
                 | None \<Rightarrow> None) of
             Some error \<Rightarrow> (Inl error, st1, [])
           | None \<Rightarrow>
               (case fetch_packages G cfg (wanted st1) of
                  (Inr packages, asked) \<Rightarrow>
                    (Inr packages,
                     st1\<lparr>last_snapshot := Some \<lparr>fetched_at = after, requested = wanted st1,
                                               snapshot_packages = packages\<rparr>,
                         last_failure := None\<rparr>, asked)
                | (Inl error, asked) \<Rightarrow> (Inl error, st1\<lparr>last_failure := Some (after, error)\<rparr>, asked))))"

definition packages_scan where
  "packages_scan G cfg now after feeds st = packages_inner G cfg now after feeds True st"

definition packages_for_push where
  "packages_for_push G cfg now after feeds st = packages_inner G cfg now after feeds False st"

section \<open>Scan prices\<close>

text \<open>The values and stamps of one feed: the first package of each signer whose value scales.\<close>

fun scan_collect :: "signed_package list \<Rightarrow> bytes set \<Rightarrow> nat list \<Rightarrow> nat list \<Rightarrow> nat list \<times> nat list" where
  "scan_collect [] seen values stamps = (values, stamps)"
| "scan_collect (package # rest) seen values stamps =
     (case scale_value (value_text package) of
        None \<Rightarrow> scan_collect rest seen values stamps
      | Some v \<Rightarrow>
          if claimed_signer package \<in> seen then scan_collect rest seen values stamps
          else scan_collect rest (insert (claimed_signer package) seen) (values @ [v])
                 (stamps @ [timestamp_ms package]))"

definition median_of :: "nat list \<Rightarrow> nat option" where
  "median_of values =
     (let mid = length values div 2 in
      if length values mod 2 = 1 then Some (values ! mid)
      else (case checked_add (values ! (mid - 1)) (values ! mid) of
              None \<Rightarrow> None
            | Some s \<Rightarrow> map_option (\<lambda>s. s div 2) (checked_add s 1)))"

definition scan_price :: "package_map \<Rightarrow> string \<Rightarrow> int \<Rightarrow> int \<Rightarrow> pyth_price option" where
  "scan_price packages symbol now_ms max_age_ms =
     (case packages symbol of
        None \<Rightarrow> None
      | Some lst \<Rightarrow>
          let (values0, stamps0) = scan_collect lst {} [] [] in
          if values0 = [] then None
          else
          let values = sort values0; stamps = sort stamps0 in
          (case Option.bind (median_of values)
                  (\<lambda>m. if int m \<le> i64_max \<and> 1 \<le> m then Some m else None) of
             None \<Rightarrow> None
           | Some mantissa \<Rightarrow>
               let timestamp = stamps ! ((length stamps - 1) div 2) in
               if i64_max < int timestamp then None
               else if timestamp = 0 then None
               else
               let age_ms = now_ms - int timestamp in
               if max_age_ms < age_ms then None
               else if age_ms < - MAX_FUTURE_SKEW_MS then None
               else Some \<lparr>price_mantissa = int mantissa, price_expo = SYNTH_EXPO, price_conf = 0,
                          publish_time = int timestamp div 1000\<rparr>))"

definition scan_prices :: "package_map \<Rightarrow> string list \<Rightarrow> int \<Rightarrow> int \<Rightarrow> string \<rightharpoonup> pyth_price" where
  "scan_prices packages symbols now_ms max_age_ms =
     fold (\<lambda>symbol prices. case scan_price packages symbol now_ms max_age_ms of
                             None \<Rightarrow> prices | Some p \<Rightarrow> prices(symbol \<mapsto> p)) symbols Map.empty"

section \<open>Lemmas: configuration and fetching\<close>

definition gateway_ok :: "authenticated_gateway \<Rightarrow> bool" where
  "gateway_ok gw \<longleftrightarrow>
     url_scheme (gw_url gw) = ''https'' \<and> url_username (gw_url gw) = [] \<and> url_password (gw_url gw) = None
     \<and> url_query (gw_url gw) = None \<and> url_fragment (gw_url gw) = None
     \<and> gw_api_key gw \<noteq> [] \<and> list_all is_ascii_graphic (gw_api_key gw)"

lemma parse_gateway_ok:
  "parse_gateway url_parse i entry = Inr gw \<Longrightarrow>
     gateway_ok gw \<and> url_parse (fst entry) = Inr (gw_url gw) \<and> gw_api_key gw = snd entry"
  by (auto simp: parse_gateway_def gateway_ok_def split: sum.splits if_splits)

lemma parse_gateways_ok:
  assumes "parse_gateways url_parse i entries = Inr gws"
  shows "list_all2 (\<lambda>entry gw. gateway_ok gw \<and> url_parse (fst entry) = Inr (gw_url gw)
           \<and> gw_api_key gw = snd entry) entries gws"
  using assms
  by (induction entries arbitrary: i gws) (auto dest: parse_gateway_ok split: sum.splits)

text \<open>Fail-over: the gateways are tried in order, up to the first that answers.\<close>

definition gateway_fails :: "gateway_services \<Rightarrow> string set \<Rightarrow> authenticated_gateway \<Rightarrow> bool" where
  "gateway_fails G feeds gw \<longleftrightarrow> (case fetch_from G gw feeds of Inl _ \<Rightarrow> True | Inr _ \<Rightarrow> False)"

definition failover ::
    "gateway_services \<Rightarrow> authenticated_gateway list \<Rightarrow> string set \<Rightarrow> (string + package_map) \<times> authenticated_gateway list" where
  "failover G gws feeds =
     (case dropWhile (gateway_fails G feeds) gws of
        [] \<Rightarrow> (Inl (''every RedStone gateway failed ('' @ join_with ''; ''
                 (map (\<lambda>gw. url_origin (gw_url gw) @ '': '' @ projl (fetch_from G gw feeds)) gws) @ '')''), gws)
      | gw # _ \<Rightarrow> (Inr (projr (fetch_from G gw feeds)), takeWhile (gateway_fails G feeds) gws @ [gw]))"

lemma fetch_loop_eq:
  "fetch_loop G gws feeds failures =
     (case dropWhile (gateway_fails G feeds) gws of
        [] \<Rightarrow> (Inl (failures @ map (\<lambda>gw. url_origin (gw_url gw) @ '': '' @ projl (fetch_from G gw feeds)) gws), gws)
      | gw # _ \<Rightarrow> (Inr (projr (fetch_from G gw feeds)), takeWhile (gateway_fails G feeds) gws @ [gw]))"
proof (induction gws arbitrary: failures)
  case (Cons gw gws)
  show ?case
  proof (cases "fetch_from G gw feeds")
    case (Inl e)
    then have "gateway_fails G feeds gw" by (simp add: gateway_fails_def)
    with Inl Cons show ?thesis
      by (cases "dropWhile (gateway_fails G feeds) gws") (simp_all del: dropWhile_eq_Nil_conv)
  next
    case (Inr ps)
    then have "\<not> gateway_fails G feeds gw" by (simp add: gateway_fails_def)
    with Inr show ?thesis by simp
  qed
qed simp

lemma fetch_packages_failover: "fetch_packages G cfg feeds = failover G (gateways cfg) feeds"
  by (cases "dropWhile (gateway_fails G feeds) (gateways cfg)")
     (simp_all add: fetch_packages_def failover_def fetch_loop_eq del: dropWhile_eq_Nil_conv)

text \<open>The snapshot that answers is young and was asked for every feed of the caller.\<close>

definition snapshot_serves :: "snapshot \<Rightarrow> nat \<Rightarrow> string list \<Rightarrow> bool" where
  "snapshot_serves s now feeds \<longleftrightarrow> now - fetched_at s < PACKAGE_TTL \<and> set feeds \<subseteq> requested s"

lemma packages_inner_cases:
  assumes "packages_inner G cfg now after feeds replay st = (res, st', tried)" "feeds \<noteq> []"
  obtains (snapshot) s where "last_snapshot st = Some s" "snapshot_serves s now feeds"
      "res = Inr (snapshot_packages s)" "tried = []" "st' = st\<lparr>wanted := wanted st \<union> set feeds\<rparr>"
    | (replayed) t e where "replay" "last_failure st = Some (t, e)" "now - t < FAILURE_BACKOFF"
      "res = Inl e" "tried = []" "st' = st\<lparr>wanted := wanted st \<union> set feeds\<rparr>"
    | (fetched) ps where "fetch_packages G cfg (wanted st \<union> set feeds) = (Inr ps, tried)" "res = Inr ps"
      "\<And>s. last_snapshot st = Some s \<Longrightarrow> \<not> snapshot_serves s now feeds"
      "st' = \<lparr>wanted = wanted st \<union> set feeds,
             last_snapshot = Some \<lparr>fetched_at = after, requested = wanted st \<union> set feeds, snapshot_packages = ps\<rparr>,
             last_failure = None\<rparr>"
    | (failed) e where "fetch_packages G cfg (wanted st \<union> set feeds) = (Inl e, tried)" "res = Inl e"
      "\<And>s. last_snapshot st = Some s \<Longrightarrow> \<not> snapshot_serves s now feeds"
      "st' = \<lparr>wanted = wanted st \<union> set feeds, last_snapshot = last_snapshot st, last_failure = Some (after, e)\<rparr>"
proof -
  have serves: "list_all (\<lambda>f. f \<in> requested s) feeds \<longleftrightarrow> set feeds \<subseteq> requested s" for s
    by (auto simp: list_all_iff)
  show thesis
    using assms that
    by (cases "fetch_packages G cfg (wanted st \<union> set feeds)")
       (auto simp: packages_inner_def Let_def snapshot_serves_def serves split: option.splits if_splits sum.splits prod.splits)
qed

section \<open>Lemmas: the median\<close>

text \<open>The voices of a feed: the packages whose value scales and whose signer has no earlier package that
  does. They are all the packages a scan price counts, and it counts each of them once.\<close>

definition speaks :: "signed_package \<Rightarrow> bool" where
  "speaks p \<longleftrightarrow> scale_value (value_text p) \<noteq> None"

definition voices :: "signed_package list \<Rightarrow> signed_package list" where
  "voices ps = map (nth ps) (filter (\<lambda>i. speaks (ps ! i)
       \<and> (\<forall>j<i. speaks (ps ! j) \<longrightarrow> claimed_signer (ps ! j) \<noteq> claimed_signer (ps ! i))) [0..<length ps])"

lemma voices_Nil [simp]: "voices [] = []"
  by (simp add: voices_def)

lemma voices_snoc:
  "voices (ps @ [p]) = voices ps @
     (if speaks p \<and> claimed_signer p \<notin> claimed_signer ` {q \<in> set ps. speaks q} then [p] else [])"
proof -
  have "map (nth (ps @ [p])) (filter (\<lambda>i. speaks ((ps @ [p]) ! i)
       \<and> (\<forall>j<i. speaks ((ps @ [p]) ! j) \<longrightarrow> claimed_signer ((ps @ [p]) ! j) \<noteq> claimed_signer ((ps @ [p]) ! i)))
       [0..<length ps]) = voices ps"
    unfolding voices_def by (intro map_cong filter_cong) (auto simp: nth_append)
  moreover have "(\<forall>j<length ps. speaks ((ps @ [p]) ! j) \<longrightarrow> claimed_signer ((ps @ [p]) ! j) \<noteq> claimed_signer p)
      \<longleftrightarrow> claimed_signer p \<notin> claimed_signer ` {q \<in> set ps. speaks q}"
    by (simp add: nth_append in_set_conv_nth image_iff) metis
  ultimately show ?thesis by (simp add: voices_def)
qed

lemma scan_collect_snoc:
  "scan_collect (ps @ [p]) seen vs ts =
     (let (vs', ts') = scan_collect ps seen vs ts in
      case scale_value (value_text p) of
        None \<Rightarrow> (vs', ts')
      | Some v \<Rightarrow> if claimed_signer p \<in> seen \<union> claimed_signer ` {q \<in> set ps. speaks q} then (vs', ts')
                  else (vs' @ [v], ts' @ [timestamp_ms p]))"
proof (induction ps arbitrary: seen vs ts)
  case (Cons q ps)
  show ?case
  proof (cases "scale_value (value_text q)")
    case None
    then have "{x \<in> set (q # ps). speaks x} = {x \<in> set ps. speaks x}" by (auto simp: speaks_def)
    with None show ?thesis
      by (simp only: append_Cons scan_collect.simps(2) option.case) (simp add: Cons.IH)
  next
    case (Some v)
    then have sp: "{x \<in> set (q # ps). speaks x} = insert q {x \<in> set ps. speaks x}" by (auto simp: speaks_def)
    have grow: "seen \<union> claimed_signer ` insert q {x \<in> set ps. speaks x}
        = insert (claimed_signer q) seen \<union> claimed_signer ` {x \<in> set ps. speaks x}" by auto
    show ?thesis
      using Some
      by (cases "claimed_signer q \<in> seen"; simp only: append_Cons scan_collect.simps(2) sp option.case grow)
         (simp_all only: Cons.IH insert_absorb if_True if_False)
  qed
qed (simp split: option.split)

lemma scan_collect_voices:
  "scan_collect ps {} [] [] =
     (map (\<lambda>p. the (scale_value (value_text p))) (voices ps), map timestamp_ms (voices ps))"
proof (induction ps rule: rev_induct)
  case (snoc p ps)
  then show ?case
    by (cases "scale_value (value_text p)")
       (simp_all add: scan_collect_snoc voices_snoc speaks_def)
qed simp

text \<open>What taking the median means, over the values in order.\<close>

definition middle :: "nat list \<Rightarrow> nat" where
  "middle xs =
     (let n = length xs in
      if odd n then xs ! (n div 2) else (xs ! (n div 2 - 1) + xs ! (n div 2) + 1) div 2)"

lemma median_of_middle: "median_of xs = Some m \<Longrightarrow> m = middle xs"
  by (auto simp: median_of_def middle_def Let_def checked_add_def odd_iff_mod_2_eq_one split: if_splits)

text \<open>Half of the values lie on either side of the median.\<close>

lemma sorted_median_count:
  assumes "sorted (xs :: nat list)" "i < length xs"
  shows "Suc i \<le> length (filter (\<lambda>x. x \<le> xs ! i) xs)" "length xs - i \<le> length (filter (\<lambda>x. xs ! i \<le> x) xs)"
proof -
  have split: "filter P xs = filter P (take k xs) @ filter P (drop k xs)" for P k
    by (metis append_take_drop_id filter_append)
  have "filter (\<lambda>x. x \<le> xs ! i) (take (Suc i) xs) = take (Suc i) xs"
    using assms by (auto simp: filter_id_conv in_set_conv_nth sorted_iff_nth_mono)
  then show "Suc i \<le> length (filter (\<lambda>x. x \<le> xs ! i) xs)"
    using split [of "\<lambda>x. x \<le> xs ! i" "Suc i"] assms(2) by simp
  have "filter (\<lambda>x. xs ! i \<le> x) (drop i xs) = drop i xs"
    using assms by (auto simp: filter_id_conv in_set_conv_nth sorted_iff_nth_mono)
  then show "length xs - i \<le> length (filter (\<lambda>x. xs ! i \<le> x) xs)"
    using split [of "\<lambda>x. xs ! i \<le> x" i] by simp
qed

lemma filter_length_mono: "(\<And>x. P x \<Longrightarrow> Q x) \<Longrightarrow> length (filter P xs) \<le> length (filter Q xs)"
  by (induction xs) auto

lemma median_of_balanced:
  assumes "median_of (sort xs) = Some m" "xs \<noteq> []"
  shows "length xs \<le> 2 * length (filter (\<lambda>x. x \<le> m) xs)" "length xs \<le> 2 * length (filter (\<lambda>x. m \<le> x) xs)"
proof -
  let ?s = "sort xs" and ?h = "length xs div 2"
  have len: "length (filter P ?s) = length (filter P xs)" for P
    by (metis mset_filter mset_sort size_mset)
  have pos: "0 < length xs" using assms(2) by simp
  have "length xs \<le> 2 * length (filter (\<lambda>x. x \<le> m) ?s) \<and> length xs \<le> 2 * length (filter (\<lambda>x. m \<le> x) ?s)"
  proof (cases "length xs mod 2 = 1")
    case True
    then have m: "m = ?s ! ?h" using assms(1) by (simp add: median_of_def)
    have "?h < length ?s" using pos by simp
    note c = sorted_median_count [OF sorted_sort this]
    from c True show ?thesis by (auto simp: m)
  next
    case False
    then have m: "m = (?s ! (?h - 1) + ?s ! ?h + 1) div 2"
      using assms(1) by (auto simp: median_of_def Let_def checked_add_def split: if_splits)
    have two: "length xs = 2 * ?h" using False by auto
    with pos have "0 < ?h" by linarith
    with two have h: "?h - 1 < length ?s" "?h < length ?s" "length xs = 2 * ?h" "0 < ?h"
      unfolding length_sort by linarith+
    have "?s ! (?h - 1) \<le> ?s ! ?h" using h by (intro sorted_nth_mono) auto
    then have m': "?s ! (?h - 1) \<le> m" and le: "m \<le> ?s ! ?h" unfolding m by linarith+
    have "?h \<le> length (filter (\<lambda>x. x \<le> m) ?s)"
      using sorted_median_count(1) [OF sorted_sort h(1)] h(4)
        filter_length_mono [of "\<lambda>x. x \<le> ?s ! (?h - 1)" "\<lambda>x. x \<le> m" ?s] m' by fastforce
    moreover have "?h \<le> length (filter (\<lambda>x. m \<le> x) ?s)"
      using sorted_median_count(2) [OF sorted_sort h(2)] h(3)
        filter_length_mono [of "\<lambda>x. ?s ! ?h \<le> x" "\<lambda>x. m \<le> x" ?s] le by fastforce
    ultimately show ?thesis using h(3) by linarith
  qed
  then show "length xs \<le> 2 * length (filter (\<lambda>x. x \<le> m) xs)" "length xs \<le> 2 * length (filter (\<lambda>x. m \<le> x) xs)"
    by (simp_all add: len)
qed

lemma scan_price_cases:
  assumes "scan_price packages symbol now_ms max_age_ms = Some p"
  obtains cs vs ts m t where "packages symbol = Some cs"
    "vs = map (\<lambda>p. the (scale_value (value_text p))) (voices cs)" "ts = map timestamp_ms (voices cs)"
    "voices cs \<noteq> []" "median_of (sort vs) = Some m" "1 \<le> m" "int m \<le> i64_max"
    "t = sort ts ! ((length ts - 1) div 2)" "0 < t"
    "now_ms - int t \<le> max_age_ms" "int t - now_ms \<le> MAX_FUTURE_SKEW_MS"
    "p = \<lparr>price_mantissa = int m, price_expo = SYNTH_EXPO, price_conf = 0, publish_time = int t div 1000\<rparr>"
proof -
  obtain cs where cs: "packages symbol = Some cs" using assms by (auto simp: scan_price_def split: option.splits)
  with assms have "voices cs \<noteq> []" by (auto simp: scan_price_def scan_collect_voices)
  with assms cs show thesis
    by (auto simp: scan_price_def scan_collect_voices Let_def bind_eq_Some_conv split: if_splits option.splits intro!: that)
qed

lemma scan_prices_apply:
  "scan_prices packages symbols now_ms max_age_ms s =
     (if s \<in> set symbols then scan_price packages s now_ms max_age_ms else None)"
proof -
  have "fold (\<lambda>symbol prices. case scan_price packages symbol now_ms max_age_ms of
                             None \<Rightarrow> prices | Some p \<Rightarrow> prices(symbol \<mapsto> p)) symbols M s =
     (if s \<in> set symbols \<and> scan_price packages s now_ms max_age_ms \<noteq> None
      then scan_price packages s now_ms max_age_ms else M s)" for M
    by (induction symbols arbitrary: M) (auto split: option.splits)
  then show ?thesis by (auto simp: scan_prices_def)
qed

end
