(* ===== verification/Lazer.thy ===== *)
theory Lazer
  imports Redstone
begin

text \<open>
  src/lazer.rs: the parser of a \<open>latest_price\<close> response and the request strategy of the client: one batch,
  and after a rejection that a single feed can cause, one feed at a time across the channels.

  Deserialisation is an argument that yields the response's fields; the HTTP round trip and the clock are
  the fields of \<open>lazer_services\<close>, each a function of the requests made so far (latest first). A
  \<open>HashMap\<close> is an association list.
\<close>

section \<open>Responses\<close>

datatype maybe_timestamp = TsAbsent | TsPresent "json option"

record lazer_feed_point =
  price_feed_id :: nat
  ema_price :: "string option"
  ema_confidence :: "json option"
  feed_exponent :: "int option"
  feed_update_timestamp :: maybe_timestamp

record lazer_parsed_payload =
  timestamp_us :: string
  price_feeds :: "lazer_feed_point list"

definition parse_i64 :: "string \<Rightarrow> int option" where
  "parse_i64 = parse_int 9223372036854775807"

fun value_as_i64 :: "json \<Rightarrow> int option" where
  "value_as_i64 (JNumber n) = json_as_i64 (JNumber n)"
| "value_as_i64 (JString s) = parse_i64 s"
| "value_as_i64 _ = None"

text \<open>Integer division of Rust rounds toward zero.\<close>

definition quot_i64 :: "int \<Rightarrow> int \<Rightarrow> int" where
  "quot_i64 a b = (if a < 0 then - ((- a) div b) else a div b)"

definition feed_publish_secs :: "int \<Rightarrow> lazer_feed_point \<Rightarrow> int option" where
  "feed_publish_secs envelope_secs feed =
     (case feed_update_timestamp feed of
        TsPresent v \<Rightarrow> map_option (\<lambda>us. quot_i64 us 1000000) (Option.bind v value_as_i64)
      | TsAbsent \<Rightarrow> Some envelope_secs)"

definition parse_feed :: "int \<Rightarrow> int \<Rightarrow> nat \<Rightarrow> lazer_feed_point \<Rightarrow> pyth_price option" where
  "parse_feed envelope_secs now_secs max_age_secs feed =
     (case (ema_price feed, feed_exponent feed) of
        (Some ema, Some expo) \<Rightarrow>
          (case parse_i64 ema of
             None \<Rightarrow> None
           | Some mantissa \<Rightarrow>
          (case Option.bind (Option.bind (ema_confidence feed) value_as_i64) (\<lambda>c. if 0 \<le> c then Some (nat c) else None) of
             None \<Rightarrow> None
           | Some conf \<Rightarrow>
          (case feed_publish_secs envelope_secs feed of
             None \<Rightarrow> None
           | Some publish_time_secs \<Rightarrow>
               if \<not> publish_time_is_fresh publish_time_secs now_secs max_age_secs then None
               else Some \<lparr>price_mantissa = mantissa, price_expo = expo, price_conf = conf,
                          publish_time = publish_time_secs\<rparr>)))
      | _ \<Rightarrow> None)"

type_synonym lazer_prices = "(nat \<times> pyth_price) list"

fun parse_feeds :: "int \<Rightarrow> int \<Rightarrow> nat \<Rightarrow> lazer_feed_point list \<Rightarrow> lazer_prices \<Rightarrow> lazer_prices" where
  "parse_feeds envelope_secs now_secs max_age_secs [] prices = prices"
| "parse_feeds envelope_secs now_secs max_age_secs (feed # rest) prices =
     (case parse_feed envelope_secs now_secs max_age_secs feed of
        None \<Rightarrow> parse_feeds envelope_secs now_secs max_age_secs rest prices
      | Some p \<Rightarrow> parse_feeds envelope_secs now_secs max_age_secs rest (AList.update (price_feed_id feed) p prices))"

definition parse_latest_price_response ::
    "(string \<Rightarrow> string + lazer_parsed_payload option) \<Rightarrow> string \<Rightarrow> int \<Rightarrow> nat \<Rightarrow> lazer_prices" where
  "parse_latest_price_response from_str body now_secs max_age_secs =
     (case from_str body of
        Inr (Some parsed) \<Rightarrow>
          (case map_option (\<lambda>us. quot_i64 us 1000000) (parse_i64 (timestamp_us parsed)) of
             None \<Rightarrow> []
           | Some envelope_secs \<Rightarrow> parse_feeds envelope_secs now_secs max_age_secs (price_feeds parsed) [])
      | _ \<Rightarrow> [])"

section \<open>The client\<close>

definition PRICE_CHANNELS :: "string list" where
  "PRICE_CHANNELS = [''fixed_rate@200ms'', ''real_time'']"

datatype fetch_failure = FailHttp nat | FailTransport

fun is_feed_level_rejection :: "fetch_failure \<Rightarrow> bool" where
  "is_feed_level_rejection (FailHttp status) \<longleftrightarrow> status = 400 \<or> status = 403"
| "is_feed_level_rejection FailTransport \<longleftrightarrow> False"

type_synonym lazer_request = "nat list \<times> string"

record lazer_services =
  ls_send :: "lazer_request list \<Rightarrow> nat list \<Rightarrow> string \<Rightarrow> string + nat \<times> (string + string)"
  ls_now_secs :: "lazer_request list \<Rightarrow> int" \<comment> \<open>the clock when the body has been read\<close>
  ls_from_str :: "string \<Rightarrow> string + lazer_parsed_payload option"
  ls_endpoint_ok :: bool \<comment> \<open>the configured URL can be a base\<close>

definition fetch_channel_prices ::
    "lazer_services \<Rightarrow> lazer_request list \<Rightarrow> nat list \<Rightarrow> string \<Rightarrow> nat \<Rightarrow> fetch_failure + lazer_prices" where
  "fetch_channel_prices S reqs feed_ids channel max_age_secs =
     (case ls_send S reqs feed_ids channel of
        Inl error \<Rightarrow> Inl FailTransport
      | Inr (status, body) \<Rightarrow>
          if \<not> (200 \<le> status \<and> status < 300) then Inl (FailHttp status)
          else
          (case body of
             Inr text \<Rightarrow>
               Inr (parse_latest_price_response (ls_from_str S) text (ls_now_secs S ((feed_ids, channel) # reqs)) max_age_secs)
           | Inl error \<Rightarrow> Inl FailTransport))"

definition extend_prices :: "lazer_prices \<Rightarrow> lazer_prices \<Rightarrow> lazer_prices" where
  "extend_prices prices single = fold (\<lambda>(i, p) acc. AList.update i p acc) single prices"

text \<open>One feed across the channels. The last component tells that a terminal failure ends the pass.\<close>

fun split_feed ::
    "lazer_services \<Rightarrow> nat \<Rightarrow> nat \<Rightarrow> string list \<Rightarrow> lazer_request list \<Rightarrow> lazer_prices
     \<Rightarrow> lazer_prices \<times> lazer_request list \<times> bool" where
  "split_feed S max_age_secs fid [] reqs prices = (prices, reqs, False)"
| "split_feed S max_age_secs fid (channel # channels) reqs prices =
     (case fetch_channel_prices S reqs [fid] channel max_age_secs of
        Inr single \<Rightarrow>
          (if single \<noteq> [] then extend_prices prices single else prices, ([fid], channel) # reqs, False)
      | Inl failure \<Rightarrow>
          if is_feed_level_rejection failure
          then split_feed S max_age_secs fid channels (([fid], channel) # reqs) prices
          else (prices, ([fid], channel) # reqs, True))"

fun split_feeds ::
    "lazer_services \<Rightarrow> nat \<Rightarrow> nat list \<Rightarrow> lazer_request list \<Rightarrow> lazer_prices \<Rightarrow> lazer_prices \<times> lazer_request list" where
  "split_feeds S max_age_secs [] reqs prices = (prices, reqs)"
| "split_feeds S max_age_secs (fid # rest) reqs prices =
     (case split_feed S max_age_secs fid PRICE_CHANNELS reqs prices of
        (prices', reqs', terminal) \<Rightarrow>
          if terminal then (prices', reqs') else split_feeds S max_age_secs rest reqs' prices')"

definition get_ema_prices ::
    "lazer_services \<Rightarrow> nat list \<Rightarrow> nat \<Rightarrow> lazer_request list \<Rightarrow> lazer_prices \<times> lazer_request list" where
  "get_ema_prices S feed_ids max_age_secs reqs =
     (if feed_ids = [] then ([], reqs)
      else if \<not> ls_endpoint_ok S then ([], reqs)
      else
      let reqs1 = (feed_ids, hd PRICE_CHANNELS) # reqs in
      case fetch_channel_prices S reqs feed_ids (hd PRICE_CHANNELS) max_age_secs of
        Inr prices \<Rightarrow> (prices, reqs1)
      | Inl failure \<Rightarrow>
          if is_feed_level_rejection failure then split_feeds S max_age_secs feed_ids reqs1 []
          else ([], reqs1))"

section \<open>Lemmas\<close>

text \<open>A price comes from the answer to one request: a successful response whose payload carries a feed point
  with that id, that EMA price, that exponent and that publish time (its own or the envelope's), fresh at
  the age bound by the clock as it stood when that response had been read.\<close>

definition answers :: "lazer_services \<Rightarrow> nat \<Rightarrow> lazer_request list \<Rightarrow> lazer_request \<Rightarrow> nat \<Rightarrow> pyth_price \<Rightarrow> bool" where
  "answers S age before req i p \<longleftrightarrow>
     (\<exists>status body parsed feed ema us.
        ls_send S before (fst req) (snd req) = Inr (status, Inr body) \<and> 200 \<le> status \<and> status < 300
      \<and> ls_from_str S body = Inr (Some parsed) \<and> feed \<in> set (price_feeds parsed) \<and> price_feed_id feed = i
      \<and> ema_price feed = Some ema \<and> parse_i64 ema = Some (price_mantissa p) \<and> feed_exponent feed = Some (price_expo p)
      \<and> parse_i64 (timestamp_us parsed) = Some us
      \<and> feed_publish_secs (quot_i64 us 1000000) feed = Some (publish_time p)
      \<and> publish_time_is_fresh (publish_time p) (ls_now_secs S (req # before)) age)"

text \<open>Every price in the list comes from a request made between \<open>base\<close> and \<open>reqs\<close>.\<close>

definition vouched :: "lazer_services \<Rightarrow> nat \<Rightarrow> lazer_request list \<Rightarrow> lazer_request list \<Rightarrow> lazer_prices \<Rightarrow> bool" where
  "vouched S age base reqs prices \<longleftrightarrow>
     (\<forall>(i, p) \<in> set prices. \<exists>later req mine. reqs = later @ req # mine @ base \<and> answers S age (mine @ base) req i p)"

lemma vouched_Nil [simp]: "vouched S age base reqs []"
  by (simp add: vouched_def)

lemma vouched_later:
  assumes "vouched S age base reqs prices"
  shows "vouched S age base (new @ reqs) prices"
proof (unfold vouched_def, clarify)
  fix i p
  assume "(i, p) \<in> set prices"
  with assms obtain later req mine where "reqs = later @ req # mine @ base" "answers S age (mine @ base) req i p"
    unfolding vouched_def by blast
  then have "new @ reqs = (new @ later) @ req # mine @ base \<and> answers S age (mine @ base) req i p" by simp
  then show "\<exists>later req mine. new @ reqs = later @ req # mine @ base \<and> answers S age (mine @ base) req i p" by blast
qed

lemma set_update_subset: "set (AList.update k v al) \<subseteq> insert (k, v) (set al)"
  by (induction al) auto

lemma parse_feed_point:
  "parse_feed e now age feed = Some p \<Longrightarrow>
   (\<exists>ema. ema_price feed = Some ema \<and> parse_i64 ema = Some (price_mantissa p)) \<and> feed_exponent feed = Some (price_expo p)
   \<and> feed_publish_secs e feed = Some (publish_time p) \<and> publish_time_is_fresh (publish_time p) now age"
  by (auto simp: parse_feed_def split: option.splits if_splits prod.splits)

lemma parse_feeds_points:
  "(i, p) \<in> set (parse_feeds e now age feeds prices) \<Longrightarrow>
   (i, p) \<in> set prices \<or> (\<exists>feed\<in>set feeds. price_feed_id feed = i \<and> parse_feed e now age feed = Some p)"
proof (induction feeds arbitrary: prices)
  case (Cons feed feeds)
  show ?case
  proof (cases "parse_feed e now age feed")
    case None
    with Cons show ?thesis by fastforce
  next
    case (Some q)
    with Cons.prems have "(i, p) \<in> set (parse_feeds e now age feeds (AList.update (price_feed_id feed) q prices))" by simp
    from Cons.IH [OF this] Some set_update_subset [of "price_feed_id feed" q prices] show ?thesis by auto
  qed
qed simp

lemma fetch_channel_vouched:
  assumes "fetch_channel_prices S (mine @ base) ids ch age = Inr prices"
  shows "vouched S age base ((ids, ch) # mine @ base) prices"
proof -
  let ?now = "ls_now_secs S ((ids, ch) # mine @ base)"
  from assms obtain status body where sent: "ls_send S (mine @ base) ids ch = Inr (status, Inr body)"
    "200 \<le> status" "status < 300" "prices = parse_latest_price_response (ls_from_str S) body ?now age"
    by (auto simp: fetch_channel_prices_def split: sum.splits if_splits)
  have "answers S age (mine @ base) (ids, ch) i p" if "(i, p) \<in> set prices" for i p
  proof -
    from that sent(4) obtain parsed us where "ls_from_str S body = Inr (Some parsed)"
      "(i, p) \<in> set (parse_feeds (quot_i64 us 1000000) ?now age (price_feeds parsed) [])"
      "parse_i64 (timestamp_us parsed) = Some us"
      by (auto simp: parse_latest_price_response_def split: sum.splits option.splits)
    moreover from this(2) parse_feeds_points [of i p] obtain feed where "feed \<in> set (price_feeds parsed)"
      "price_feed_id feed = i" "parse_feed (quot_i64 us 1000000) ?now age feed = Some p" by fastforce
    moreover note parse_feed_point [OF this(3)]
    ultimately show ?thesis using sent(1-3) unfolding answers_def fst_conv snd_conv by blast
  qed
  then have "\<exists>later req m. (ids, ch) # mine @ base = later @ req # m @ base \<and> answers S age (m @ base) req i p"
    if "(i, p) \<in> set prices" for i p
    using that by (intro exI [of _ "[]"] exI [of _ "(ids, ch)"] exI [of _ mine]) simp
  then show ?thesis unfolding vouched_def by blast
qed

lemma extend_prices_vouched:
  "vouched S age base reqs prices \<Longrightarrow> vouched S age base reqs single \<Longrightarrow>
   vouched S age base reqs (extend_prices prices single)"
proof (induction single arbitrary: prices)
  case (Cons ip single)
  obtain i p where ip: "ip = (i, p)" by (cases ip)
  have one: "vouched S age base reqs (AList.update i p prices)"
    using Cons.prems unfolding vouched_def ip by (auto dest!: subsetD [OF set_update_subset])
  have rest: "vouched S age base reqs single" using Cons.prems(2) by (simp add: vouched_def)
  have "extend_prices prices (ip # single) = extend_prices (AList.update i p prices) single"
    by (simp add: extend_prices_def ip)
  with Cons.IH [OF one rest] show ?case by simp
qed (simp add: extend_prices_def)

lemma split_feed_effect:
  assumes "split_feed S age i channels (n @ base) prices = (prices', reqs', t)" "vouched S age base (n @ base) prices"
  shows "vouched S age base reqs' prices' \<and> (\<exists>new. reqs' = new @ n @ base \<and> length new \<le> length channels)"
  using assms
proof (induction channels arbitrary: n)
  case (Cons ch chs)
  have more: "vouched S age base ((([i], ch) # n) @ base) prices"
    using vouched_later [OF Cons.prems(2), of "[([i], ch)]"] by simp
  show ?case
  proof (cases "fetch_channel_prices S (n @ base) [i] ch age")
    case (Inl failure)
    show ?thesis
    proof (cases "is_feed_level_rejection failure")
      case True
      with Inl Cons.prems have "split_feed S age i chs ((([i], ch) # n) @ base) prices = (prices', reqs', t)" by simp
      from Cons.IH [OF this more] show ?thesis by auto
    qed (use Inl Cons.prems more in auto)
  next
    case (Inr single)
    with Cons.prems fetch_channel_vouched [OF Inr] more show ?thesis
      by (auto intro: extend_prices_vouched split: if_splits)
  qed
qed simp

lemma split_feeds_effect:
  assumes "split_feeds S age ids (n @ base) prices = (prices', reqs')" "vouched S age base (n @ base) prices"
  shows "vouched S age base reqs' prices' \<and> (\<exists>new. reqs' = new @ n @ base \<and> length new \<le> 2 * length ids)"
  using assms
proof (induction ids arbitrary: n prices)
  case (Cons i ids)
  obtain p1 r1 t where one: "split_feed S age i PRICE_CHANNELS (n @ base) prices = (p1, r1, t)"
    by (cases "split_feed S age i PRICE_CHANNELS (n @ base) prices")
  from split_feed_effect [OF one Cons.prems(2)] obtain new where
    new: "vouched S age base ((new @ n) @ base) p1" "r1 = (new @ n) @ base" "length new \<le> 2"
    by (auto simp: PRICE_CHANNELS_def)
  show ?case
  proof (cases t)
    case True
    with Cons.prems one new show ?thesis by auto
  next
    case False
    with Cons.prems one have "split_feeds S age ids ((new @ n) @ base) p1 = (prices', reqs')" using new(2) by simp
    from Cons.IH [OF this new(1)] new(3) show ?thesis by fastforce
  qed
qed simp

lemma get_ema_prices_effect:
  assumes "get_ema_prices S ids age reqs = (prices, reqs')"
  shows "vouched S age reqs reqs' prices \<and> (\<exists>new. reqs' = new @ reqs \<and> length new \<le> 1 + 2 * length ids)"
proof (cases "ids = [] \<or> \<not> ls_endpoint_ok S")
  case True
  then have "prices = [] \<and> reqs' = reqs" using assms by (auto simp: get_ema_prices_def split: if_splits)
  then show ?thesis by simp
next
  case False
  let ?r1 = "(ids, hd PRICE_CHANNELS) # reqs"
  have run: "get_ema_prices S ids age reqs =
      (case fetch_channel_prices S reqs ids (hd PRICE_CHANNELS) age of
         Inr prices \<Rightarrow> (prices, ?r1)
       | Inl failure \<Rightarrow> if is_feed_level_rejection failure then split_feeds S age ids ?r1 [] else ([], ?r1))"
    using False by (simp add: get_ema_prices_def Let_def)
  show ?thesis
  proof (cases "fetch_channel_prices S reqs ids (hd PRICE_CHANNELS) age")
    case (Inr ps)
    with run assms have "prices = ps" "reqs' = ?r1" by simp_all
    with fetch_channel_vouched [of S "[]" reqs] Inr show ?thesis by fastforce
  next
    case (Inl failure)
    show ?thesis
    proof (cases "is_feed_level_rejection failure")
      case True
      with Inl run assms have "split_feeds S age ids ([(ids, hd PRICE_CHANNELS)] @ reqs) [] = (prices, reqs')" by simp
      from split_feeds_effect [OF this vouched_Nil] show ?thesis by fastforce
    next
      case False
      with Inl run assms show ?thesis by simp
    qed
  qed
qed

end
