(* ===== verification/Oracle.thy ===== *)
theory Oracle
  imports World Lazer "HOL-Library.List_Lexorder" "HOL-Library.Char_ord"
begin

text \<open>
  src/oracle.rs: scan-time prices composed off-chain from each feed's sources in order, and the
  execution-time push (Pyth Pro, then RedStone, then the proxy's re-aggregation).

  \<open>oracle_env\<close> answers the gateway's reads and writes, the HTTP legs, the transformer arithmetic and the
  clocks; each answer is a function of the trace of calls so far (latest first), and reading a clock is
  itself an event, so two readings may differ. The state is what the fetcher shares: the proxy cache, the
  push memo and the gateway client's memory. A \<open>HashMap\<close> that is iterated is an association list, a
  \<open>BTreeSet\<close> a sorted list.
\<close>

section \<open>Sources and plans\<close>

datatype oracle_request =
    PythRequest
  | RedStoneRequest account_id string
  | LazerRequest account_id nat

record view_call =
  call_account :: account_id
  call_method :: string
  call_args :: string

datatype 'act proxy_source =
    SrcRequest oracle_request
  | SrcTransformer oracle_request view_call 'act

datatype offchain_request = OffRedStone string | OffLazer account_id nat

datatype 'act offchain_price_source =
    Direct offchain_request
  | Transformed offchain_request view_call 'act

record offchain_legs =
  leg_redstone :: bool
  leg_pyth_pro :: bool

fun classify_offchain_request :: "oracle_request \<Rightarrow> offchain_legs \<Rightarrow> offchain_request option" where
  "classify_offchain_request (RedStoneRequest oracle_id feed) legs =
     (if leg_redstone legs then Some (OffRedStone feed) else None)"
| "classify_offchain_request (LazerRequest oracle_id feed) legs =
     (if leg_pyth_pro legs then Some (OffLazer oracle_id feed) else None)"
| "classify_offchain_request PythRequest legs = None"

fun plan_source :: "offchain_legs \<Rightarrow> 'act proxy_source \<Rightarrow> 'act offchain_price_source option" where
  "plan_source legs (SrcRequest request) = map_option Direct (classify_offchain_request request legs)"
| "plan_source legs (SrcTransformer request call action) =
     map_option (\<lambda>r. Transformed r call action) (classify_offchain_request request legs)"

definition plan_offchain_sources :: "'act proxy_source list \<Rightarrow> offchain_legs \<Rightarrow> 'act offchain_price_source list" where
  "plan_offchain_sources sources legs = List.map_filter (plan_source legs) sources"

type_synonym 'act plans = "(price_id \<times> 'act offchain_price_source list) list"

definition offchain_admission :: "price_id list \<Rightarrow> 'act plans \<Rightarrow> string option" where
  "offchain_admission price_ids plans =
     (if list_all (\<lambda>price_id. list_ex (\<lambda>(i, candidates). i = price_id \<and> candidates \<noteq> []) plans) price_ids
      then None else Some ''no off-chain price source for a feed'')"

fun underlying_request :: "'act offchain_price_source \<Rightarrow> offchain_request" where
  "underlying_request (Direct request) = request"
| "underlying_request (Transformed request call action) = request"

type_synonym 'f targets = "(account_id \<times> 'f list) list"

text \<open>\<open>entry(account).or_default().insert(feed)\<close>.\<close>

definition add_target :: "account_id \<Rightarrow> 'f::linorder \<Rightarrow> 'f targets \<Rightarrow> 'f targets" where
  "add_target account feed targets =
     AList.update account (insort_insert feed (case map_of targets account of None \<Rightarrow> [] | Some fs \<Rightarrow> fs)) targets"

fun add_want :: "offchain_request \<Rightarrow> string list \<times> nat targets \<Rightarrow> string list \<times> nat targets" where
  "add_want (OffRedStone symbol) (symbols, lazer) = (List.insert symbol symbols, lazer)"
| "add_want (OffLazer account feed) (symbols, lazer) = (symbols, add_target account feed lazer)"

definition collect_offchain_wants :: "'act plans \<Rightarrow> string list \<times> nat targets" where
  "collect_offchain_wants plans =
     fold (\<lambda>plan. add_want (underlying_request plan)) (concat (map snd plans)) ([], [])"

section \<open>Push targets\<close>

fun source_request :: "'act proxy_source \<Rightarrow> oracle_request" where
  "source_request (SrcRequest request) = request"
| "source_request (SrcTransformer request call action) = request"

fun collect_pyth_pro_targets_from_source :: "'act proxy_source \<Rightarrow> nat targets \<Rightarrow> nat targets" where
  "collect_pyth_pro_targets_from_source (SrcRequest (LazerRequest oracle_id feed)) targets =
     add_target oracle_id feed targets"
| "collect_pyth_pro_targets_from_source (SrcRequest _) targets = targets"
| "collect_pyth_pro_targets_from_source (SrcTransformer (LazerRequest oracle_id feed) call action) targets =
     add_target oracle_id feed targets"
| "collect_pyth_pro_targets_from_source (SrcTransformer _ call action) targets = targets"

fun is_lazer :: "oracle_request \<Rightarrow> bool" where
  "is_lazer (LazerRequest _ _) \<longleftrightarrow> True"
| "is_lazer _ \<longleftrightarrow> False"

fun add_redstone_target :: "oracle_request \<Rightarrow> string targets \<Rightarrow> string targets" where
  "add_redstone_target (RedStoneRequest oracle_id feed) targets = add_target oracle_id feed targets"
| "add_redstone_target _ targets = targets"

definition collect_redstone_targets_for_feed ::
    "'act proxy_source list \<Rightarrow> bool \<Rightarrow> string targets \<Rightarrow> string targets" where
  "collect_redstone_targets_for_feed sources pyth_pro_push_available targets =
     (let requests = map source_request sources in
      if pyth_pro_push_available \<and> list_ex is_lazer requests then targets
      else fold add_redstone_target requests targets)"

record update_targets =
  ut_pyth_pro :: "nat targets"
  ut_redstone :: "string targets"

section \<open>The fetcher and its outside\<close>

record fetcher =
  f_pyth_pro_updates :: bool
  f_redstone :: "(redstone_gateway_config \<times> bool) option" \<comment> \<open>the client, and whether the push is on\<close>
  f_lazer_api :: bool

datatype oracle_event =
    OEListProxies account_id
  | OEGetProxy account_id price_id
  | OEPackages "string list"
  | OELazer "nat list"
  | OEView view_call
  | OEGetConfig account_id
  | OEPushPythPro account_id nat
  | OEWritePrices account_id "string list" bytes
  | OEUpdateProxy account_id "price_id list"
  | OEClock

type_synonym otrace = "oracle_event list"

record ('d, 'act) oracle_env =
  oe_list_proxies :: "otrace \<Rightarrow> account_id \<Rightarrow> string + unit"
  oe_get_proxy :: "otrace \<Rightarrow> account_id \<Rightarrow> price_id \<Rightarrow> string + 'act proxy_source list option"
  oe_view :: "otrace \<Rightarrow> view_call \<Rightarrow> string + (string + 'd)" \<comment> \<open>the view, then its value as a \<open>Decimal\<close>\<close>
  oe_apply :: "'act \<Rightarrow> pyth_price \<Rightarrow> 'd \<Rightarrow> pyth_price option"
  oe_update_lazer :: "otrace \<Rightarrow> account_id \<Rightarrow> nat \<Rightarrow> string + operation_result"
  oe_redstone_config :: "otrace \<Rightarrow> account_id \<Rightarrow> string + adapter_rules"
  oe_write_prices :: "otrace \<Rightarrow> account_id \<Rightarrow> string list \<Rightarrow> bytes \<Rightarrow> string + operation_result"
  oe_update_proxy :: "otrace \<Rightarrow> account_id \<Rightarrow> price_id list \<Rightarrow> string + operation_result"
  oe_gateway :: "otrace \<Rightarrow> gateway_services"
  oe_lazer :: "otrace \<Rightarrow> lazer_services"
  oe_unix_ms :: "otrace \<Rightarrow> nat option" \<comment> \<open>wall clock, \<open>None\<close> before the epoch\<close>
  oe_instant :: "otrace \<Rightarrow> nat"

record oracle_state =
  os_proxy_cache :: "account_id set"
  os_memo :: "string push_memo"
  os_gateway :: fetch_state
  os_trace :: otrace

definition ask :: "oracle_event \<Rightarrow> oracle_state \<Rightarrow> oracle_state" where
  "ask ev st = st\<lparr>os_trace := ev # os_trace st\<rparr>"

definition unix_now_ms :: "('d, 'act) oracle_env \<Rightarrow> otrace \<Rightarrow> nat" where
  "unix_now_ms E tr = (case oe_unix_ms E tr of None \<Rightarrow> 0 | Some ms \<Rightarrow> min ms u64_max)"

definition cast_signed :: "nat \<Rightarrow> int" where
  "cast_signed n = (if int n \<le> i64_max then int n else int n - 18446744073709551616)"

definition unix_now_secs :: "('d, 'act) oracle_env \<Rightarrow> otrace \<Rightarrow> int" where
  "unix_now_secs E tr = (case oe_unix_ms E tr of None \<Rightarrow> 0 | Some ms \<Rightarrow> cast_signed (ms div 1000))"

definition offchain_legs_of :: "fetcher \<Rightarrow> offchain_legs" where
  "offchain_legs_of F = \<lparr>leg_redstone = (f_redstone F \<noteq> None), leg_pyth_pro = f_lazer_api F\<rparr>"

definition redstone_push_client :: "fetcher \<Rightarrow> redstone_gateway_config option" where
  "redstone_push_client F =
     (case f_redstone F of Some (cfg, push) \<Rightarrow> if push then Some cfg else None | None \<Rightarrow> None)"

definition is_proxy_oracle ::
    "('d, 'act) oracle_env \<Rightarrow> account_id \<Rightarrow> oracle_state \<Rightarrow> (liquidator_error + bool) \<times> oracle_state" where
  "is_proxy_oracle E oracle_id st =
     (if oracle_id \<in> os_proxy_cache st then (Inr True, st)
      else
      let st1 = ask (OEListProxies oracle_id) st in
      case oe_list_proxies E (os_trace st) oracle_id of
        Inr _ \<Rightarrow> (Inr True, st1\<lparr>os_proxy_cache := insert oracle_id (os_proxy_cache st1)\<rparr>)
      | Inl error \<Rightarrow>
          if gateway_is_method_not_found error then (Inr False, st1)
          else (Inl (PriceFetchError (rpc_error_from_gateway error)), st1))"

text \<open>A failed probe is only logged.\<close>

definition detect_and_register_proxy_oracle :: "('d, 'act) oracle_env \<Rightarrow> account_id \<Rightarrow> oracle_state \<Rightarrow> oracle_state" where
  [simp]: "detect_and_register_proxy_oracle E oracle_id st = snd (is_proxy_oracle E oracle_id st)"

fun resolve_targets_loop ::
    "('d, 'act) oracle_env \<Rightarrow> fetcher \<Rightarrow> account_id \<Rightarrow> price_id list \<Rightarrow> update_targets \<Rightarrow> oracle_state
     \<Rightarrow> (liquidator_error + update_targets) \<times> oracle_state" where
  "resolve_targets_loop E F oracle_id [] targets st = (Inr targets, st)"
| "resolve_targets_loop E F oracle_id (pid # rest) targets st =
     (let st1 = ask (OEGetProxy oracle_id pid) st in
      case oe_get_proxy E (os_trace st) oracle_id pid of
        Inl error \<Rightarrow> (Inl (PriceFetchError (rpc_error_from_gateway error)), st1)
      | Inr None \<Rightarrow> resolve_targets_loop E F oracle_id rest targets st1
      | Inr (Some sources) \<Rightarrow>
          resolve_targets_loop E F oracle_id rest
            \<lparr>ut_pyth_pro = fold collect_pyth_pro_targets_from_source sources (ut_pyth_pro targets),
             ut_redstone = collect_redstone_targets_for_feed sources (f_pyth_pro_updates F) (ut_redstone targets)\<rparr> st1)"

definition resolve_update_targets ::
    "('d, 'act) oracle_env \<Rightarrow> fetcher \<Rightarrow> account_id \<Rightarrow> price_id list \<Rightarrow> oracle_state
     \<Rightarrow> (liquidator_error + update_targets) \<times> oracle_state" where
  "resolve_update_targets E F oracle_id price_ids st =
     (case is_proxy_oracle E oracle_id st of
        (Inl e, st1) \<Rightarrow> (Inl e, st1)
      | (Inr False, st1) \<Rightarrow> (Inr \<lparr>ut_pyth_pro = [], ut_redstone = []\<rparr>, st1)
      | (Inr True, st1) \<Rightarrow>
          resolve_targets_loop E F oracle_id price_ids \<lparr>ut_pyth_pro = [], ut_redstone = []\<rparr> st1)"

definition resolve_pyth_pro_update_targets ::
    "('d, 'act) oracle_env \<Rightarrow> fetcher \<Rightarrow> account_id \<Rightarrow> price_id list \<Rightarrow> oracle_state
     \<Rightarrow> (liquidator_error + nat targets) \<times> oracle_state" where
  "resolve_pyth_pro_update_targets E F oracle_id price_ids st =
     (case resolve_update_targets E F oracle_id price_ids st of
        (Inl e, st1) \<Rightarrow> (Inl e, st1)
      | (Inr targets, st1) \<Rightarrow> (Inr (ut_pyth_pro targets), st1))"

section \<open>The push\<close>

definition release_redstone_reservation :: "account_id \<Rightarrow> string list \<Rightarrow> oracle_state \<Rightarrow> oracle_state" where
  "release_redstone_reservation adapter feeds st = st\<lparr>os_memo := release_feeds (os_memo st) adapter feeds\<rparr>"

definition update_redstone_prices ::
    "('sig, 'rid, 'key) crypto \<Rightarrow> ('d, 'act) oracle_env \<Rightarrow> account_id \<Rightarrow> string list \<Rightarrow> package_map
     \<Rightarrow> oracle_state \<Rightarrow> bool \<times> oracle_state" where
  "update_redstone_prices C E adapter feed_ids packages st =
     (let st1 = ask (OEGetConfig adapter) st in
      case oe_redstone_config E (os_trace st) adapter of
        Inl error \<Rightarrow> (False, st1)
      | Inr rules \<Rightarrow>
          let now = oe_instant E (os_trace st1); st2 = ask OEClock st1;
              (due, memo) = reserve_due (os_memo st2) adapter feed_ids (min_interval_ms rules) now;
              st3 = st2\<lparr>os_memo := memo\<rparr>
          in if due = [] then (False, st3)
          else
          let st4 = ask OEClock st3 in
          (case build_payload C packages due rules (unix_now_ms E (os_trace st3)) of
             Inl error \<Rightarrow> (False, release_redstone_reservation adapter due st4)
           | Inr payload \<Rightarrow>
               let st5 = ask (OEWritePrices adapter due payload) st4 in
               (case oe_write_prices E (os_trace st4) adapter due payload of
                  Inl error \<Rightarrow> (False, release_redstone_reservation adapter due st5)
                | Inr result \<Rightarrow>
                    if op_status result = OpSucceeded then
                      let landed = oe_instant E (os_trace st5); st6 = ask OEClock st5 in
                      (True, st6\<lparr>os_memo := fold (\<lambda>feed memo. memo((adapter, feed) \<mapsto> landed)) due (os_memo st6)\<rparr>)
                    else (False, release_redstone_reservation adapter due st5))))"

fun update_pyth_pro_prices ::
    "('d, 'act) oracle_env \<Rightarrow> account_id \<Rightarrow> nat list \<Rightarrow> bool \<Rightarrow> oracle_state \<Rightarrow> bool \<times> oracle_state" where
  "update_pyth_pro_prices E adapter [] any st = (any, st)"
| "update_pyth_pro_prices E adapter (feed # rest) any st =
     (let st1 = ask (OEPushPythPro adapter feed) st in
      case oe_update_lazer E (os_trace st) adapter feed of
        Inl error \<Rightarrow> update_pyth_pro_prices E adapter rest any st1
      | Inr result \<Rightarrow>
          update_pyth_pro_prices E adapter rest (if op_status result = OpSucceeded then True else any) st1)"

fun push_pyth_pro ::
    "('d, 'act) oracle_env \<Rightarrow> nat targets \<Rightarrow> bool \<Rightarrow> oracle_state \<Rightarrow> bool \<times> oracle_state" where
  "push_pyth_pro E [] any st = (any, st)"
| "push_pyth_pro E ((adapter, feed_ids) # rest) any st =
     (case update_pyth_pro_prices E adapter feed_ids False st of
        (updated, st1) \<Rightarrow> push_pyth_pro E rest (updated \<or> any) st1)"

fun push_redstone ::
    "('sig, 'rid, 'key) crypto \<Rightarrow> ('d, 'act) oracle_env \<Rightarrow> package_map \<Rightarrow> string targets \<Rightarrow> bool
     \<Rightarrow> oracle_state \<Rightarrow> bool \<times> oracle_state" where
  "push_redstone C E packages [] any st = (any, st)"
| "push_redstone C E packages ((adapter, feed_ids) # rest) any st =
     (case update_redstone_prices C E adapter feed_ids packages st of
        (updated, st1) \<Rightarrow> push_redstone C E packages rest (updated \<or> any) st1)"

definition update_proxy_prices ::
    "('d, 'act) oracle_env \<Rightarrow> account_id \<Rightarrow> price_id list \<Rightarrow> oracle_state
     \<Rightarrow> (liquidator_error + bool) \<times> oracle_state" where
  "update_proxy_prices E oracle_id price_ids st =
     (let st1 = ask (OEUpdateProxy oracle_id price_ids) st in
      case oe_update_proxy E (os_trace st) oracle_id price_ids of
        Inl e \<Rightarrow> (Inl (OracleUpdateError (''Proxy oracle update failed: '' @ e)), st1)
      | Inr result \<Rightarrow>
          (case op_status result of
             OpSucceeded \<Rightarrow> (Inr True, st1)
           | OpOther status \<Rightarrow>
               (Inl (OracleUpdateError (''Proxy oracle update operation '' @ op_id result
                  @ '' ended with status '' @ status)), st1)))"

text \<open>The packages for a push, and the gateway client's memory after it.\<close>

definition fetch_for_push ::
    "('d, 'act) oracle_env \<Rightarrow> redstone_gateway_config \<Rightarrow> string list \<Rightarrow> oracle_state
     \<Rightarrow> (string + package_map) \<times> oracle_state" where
  "fetch_for_push E cfg feeds st =
     (let now = oe_instant E (os_trace st); st1 = ask OEClock st;
          G = oe_gateway E (os_trace st1); st2 = ask (OEPackages feeds) st1;
          after = oe_instant E (os_trace st2); st3 = ask OEClock st2
      in case packages_for_push G cfg now after feeds (os_gateway st3) of
           (res, gs, tried) \<Rightarrow> (res, st3\<lparr>os_gateway := gs\<rparr>))"

definition push_targets ::
    "('sig, 'rid, 'key) crypto \<Rightarrow> ('d, 'act) oracle_env \<Rightarrow> fetcher \<Rightarrow> update_targets \<Rightarrow> oracle_state
     \<Rightarrow> bool \<times> oracle_state" where
  "push_targets C E F targets st =
     (let (any, st1) = (if f_pyth_pro_updates F then push_pyth_pro E (ut_pyth_pro targets) False st else (False, st)) in
      case redstone_push_client F of
        None \<Rightarrow> (any, st1)
      | Some cfg \<Rightarrow>
          if ut_redstone targets = [] then (any, st1)
          else
          (case fetch_for_push E cfg (concat (map snd (ut_redstone targets))) st1 of
             (Inl error, st2) \<Rightarrow> (any, st2)
           | (Inr packages, st2) \<Rightarrow> push_redstone C E packages (ut_redstone targets) any st2))"

definition update_onchain_prices ::
    "('sig, 'rid, 'key) crypto \<Rightarrow> ('d, 'act) oracle_env \<Rightarrow> fetcher \<Rightarrow> account_id \<Rightarrow> price_id list
     \<Rightarrow> oracle_state \<Rightarrow> (liquidator_error + bool) \<times> oracle_state" where
  "update_onchain_prices C E F oracle_id price_ids st =
     (case is_proxy_oracle E oracle_id st of
        (Inl e, st1) \<Rightarrow> (Inl e, st1)
      | (Inr False, st1) \<Rightarrow> (Inr False, st1)
      | (Inr True, st1) \<Rightarrow>
          let (any, st2) =
                (if f_pyth_pro_updates F \<or> redstone_push_client F \<noteq> None then
                   (case resolve_update_targets E F oracle_id price_ids st1 of
                      (Inr targets, st2) \<Rightarrow> push_targets C E F targets st2
                    | (Inl e, st2) \<Rightarrow> (False, st2))
                 else (False, st1))
          in case update_proxy_prices E oracle_id price_ids st2 of
               (Inl e, st3) \<Rightarrow> (Inl e, st3)
             | (Inr updated, st3) \<Rightarrow> (Inr (any \<or> updated), st3))"

section \<open>Scan prices\<close>

fun resolve_offchain_plans ::
    "('d, 'act) oracle_env \<Rightarrow> fetcher \<Rightarrow> account_id \<Rightarrow> price_id list \<Rightarrow> 'act plans \<Rightarrow> oracle_state
     \<Rightarrow> 'act plans \<times> oracle_state" where
  "resolve_offchain_plans E F oracle_id [] plans st = (plans, st)"
| "resolve_offchain_plans E F oracle_id (price_id # rest) plans st =
     (let st1 = ask (OEGetProxy oracle_id price_id) st in
      case oe_get_proxy E (os_trace st) oracle_id price_id of
        Inr (Some sources) \<Rightarrow>
          let candidates = plan_offchain_sources sources (offchain_legs_of F) in
          resolve_offchain_plans E F oracle_id rest
            (if candidates = [] then plans else plans @ [(price_id, candidates)]) st1
      | _ \<Rightarrow> resolve_offchain_plans E F oracle_id rest plans st1)"

definition offchain_priceable ::
    "('d, 'act) oracle_env \<Rightarrow> fetcher \<Rightarrow> account_id \<Rightarrow> price_id list \<Rightarrow> oracle_state
     \<Rightarrow> (liquidator_error + string option) \<times> oracle_state" where
  "offchain_priceable E F oracle_id price_ids st =
     (case is_proxy_oracle E oracle_id st of
        (Inl e, st1) \<Rightarrow> (Inl e, st1)
      | (Inr False, st1) \<Rightarrow>
          (Inr (Some (''oracle has no proxy interface (`list_proxies`): only proxy oracles can be priced off-chain ''
             @ ''and pushed by the bot; on NEAR this is usually a Pyth Core'' @ [CHR 0xE2, CHR 0x80, CHR 0x93]
             @ ''backed oracle, which can never be refreshed again since Pyth Core dropped NEAR (2026-08-26 16:00 UTC) ''
             @ em_dash @ '' re-point the market to a proxy oracle'')), st1)
      | (Inr True, st1) \<Rightarrow>
          (case resolve_offchain_plans E F oracle_id price_ids [] st1 of
             (plans, st2) \<Rightarrow> (Inr (offchain_admission price_ids plans), st2)))"

definition fetch_redstone_prices ::
    "('d, 'act) oracle_env \<Rightarrow> fetcher \<Rightarrow> string list \<Rightarrow> nat \<Rightarrow> oracle_state \<Rightarrow> (string \<rightharpoonup> pyth_price) \<times> oracle_state" where
  "fetch_redstone_prices E F symbols max_age_secs st =
     (case f_redstone F of
        None \<Rightarrow> (Map.empty, st)
      | Some (cfg, push) \<Rightarrow>
          if symbols = [] then (Map.empty, st)
          else
          let now = oe_instant E (os_trace st); st1 = ask OEClock st;
              G = oe_gateway E (os_trace st1); st2 = ask (OEPackages symbols) st1;
              after = oe_instant E (os_trace st2); st3 = ask OEClock st2
          in case packages_scan G cfg now after symbols (os_gateway st3) of
               (Inl error, gs, tried) \<Rightarrow> (Map.empty, st3\<lparr>os_gateway := gs\<rparr>)
             | (Inr packages, gs, tried) \<Rightarrow>
                 (scan_prices packages symbols (cast_signed (unix_now_ms E (os_trace st3))) (int max_age_secs * 1000),
                  ask OEClock (st3\<lparr>os_gateway := gs\<rparr>)))"

definition fetch_lazer_prices ::
    "('d, 'act) oracle_env \<Rightarrow> fetcher \<Rightarrow> nat targets \<Rightarrow> nat \<Rightarrow> oracle_state
     \<Rightarrow> (account_id \<times> nat \<rightharpoonup> pyth_price) \<times> oracle_state" where
  "fetch_lazer_prices E F wants max_age_secs st =
     (if \<not> f_lazer_api F then (Map.empty, st)
      else
      let all_ids = remdups (concat (map snd wants));
          api_prices = fst (get_ema_prices (oe_lazer E (os_trace st)) all_ids max_age_secs [])
      in (map_of (concat (map (\<lambda>(adapter, feed_ids). List.map_filter
            (\<lambda>i. map_option (\<lambda>p. ((adapter, i), p)) (map_of api_prices i)) feed_ids) wants)),
          ask (OELazer all_ids) st))"

record fetched_backends =
  fb_redstone :: "string \<rightharpoonup> pyth_price"
  fb_lazer :: "account_id \<times> nat \<rightharpoonup> pyth_price"

fun backend_price :: "fetched_backends \<Rightarrow> offchain_request \<Rightarrow> pyth_price option" where
  "backend_price B (OffRedStone symbol) = fb_redstone B symbol"
| "backend_price B (OffLazer oracle_id feed) = fb_lazer B (oracle_id, feed)"

definition fetch_transformer_input ::
    "('d, 'act) oracle_env \<Rightarrow> view_call \<Rightarrow> oracle_state \<Rightarrow> (rpc_error + 'd) \<times> oracle_state" where
  "fetch_transformer_input E call st =
     (case oe_view E (os_trace st) call of
        Inl error \<Rightarrow> (Inl (rpc_error_from_gateway error), ask (OEView call) st)
      | Inr (Inl error) \<Rightarrow> (Inl (DeserializeError error), ask (OEView call) st)
      | Inr (Inr v) \<Rightarrow> (Inr v, ask (OEView call) st))"

text \<open>The inputs fetched so far this round: \<open>None\<close> records a failed fetch.\<close>

type_synonym 'd inputs = "(view_call \<times> 'd option) list"

definition transformer_input ::
    "('d, 'act) oracle_env \<Rightarrow> view_call \<Rightarrow> 'd inputs \<Rightarrow> oracle_state \<Rightarrow> 'd option \<times> 'd inputs \<times> oracle_state" where
  "transformer_input E call inputs st =
     (case map_of inputs call of
        Some cached \<Rightarrow> (cached, inputs, st)
      | None \<Rightarrow>
          (case fetch_transformer_input E call st of
             (res, st1) \<Rightarrow>
               let fetched = (case res of Inr v \<Rightarrow> Some v | Inl e \<Rightarrow> None)
               in (fetched, inputs @ [(call, fetched)], st1)))"

fun price_one_candidate ::
    "('d, 'act) oracle_env \<Rightarrow> 'act offchain_price_source \<Rightarrow> fetched_backends \<Rightarrow> 'd inputs \<Rightarrow> oracle_state
     \<Rightarrow> pyth_price option \<times> 'd inputs \<times> oracle_state" where
  "price_one_candidate E (Direct request) B inputs st = (backend_price B request, inputs, st)"
| "price_one_candidate E (Transformed request call action) B inputs st =
     (case backend_price B request of
        None \<Rightarrow> (None, inputs, st)
      | Some underlying \<Rightarrow>
          (case transformer_input E call inputs st of
             (None, inputs', st') \<Rightarrow> (None, inputs', st')
           | (Some input, inputs', st') \<Rightarrow> (oe_apply E action underlying input, inputs', st')))"

fun compose_feed ::
    "('d, 'act) oracle_env \<Rightarrow> fetched_backends \<Rightarrow> nat \<Rightarrow> 'act offchain_price_source list \<Rightarrow> 'd inputs
     \<Rightarrow> oracle_state \<Rightarrow> pyth_price option \<times> 'd inputs \<times> oracle_state" where
  "compose_feed E B max_age_secs [] inputs st = (None, inputs, st)"
| "compose_feed E B max_age_secs (plan # rest) inputs st =
     (case price_one_candidate E plan B inputs st of
        (None, inputs', st') \<Rightarrow> compose_feed E B max_age_secs rest inputs' st'
      | (Some p, inputs', st') \<Rightarrow>
          if publish_time_is_fresh (publish_time p) (unix_now_secs E (os_trace st')) max_age_secs
          then (Some p, inputs', ask OEClock st')
          else compose_feed E B max_age_secs rest inputs' (ask OEClock st'))"

fun compose_feeds ::
    "('d, 'act) oracle_env \<Rightarrow> fetched_backends \<Rightarrow> nat \<Rightarrow> 'act plans \<Rightarrow> (price_id \<rightharpoonup> pyth_price option) \<Rightarrow> 'd inputs
     \<Rightarrow> oracle_state \<Rightarrow> (price_id \<rightharpoonup> pyth_price option) \<times> oracle_state" where
  "compose_feeds E B max_age_secs [] response inputs st = (response, st)"
| "compose_feeds E B max_age_secs ((price_id, candidates) # rest) response inputs st =
     (case compose_feed E B max_age_secs candidates inputs st of
        (Some p, inputs', st') \<Rightarrow> compose_feeds E B max_age_secs rest (response(price_id \<mapsto> Some p)) inputs' st'
      | (None, inputs', st') \<Rightarrow> compose_feeds E B max_age_secs rest response inputs' st')"

definition compose_proxy_prices_offchain ::
    "('d, 'act) oracle_env \<Rightarrow> fetcher \<Rightarrow> account_id \<Rightarrow> price_id list \<Rightarrow> nat \<Rightarrow> oracle_state
     \<Rightarrow> (price_id \<rightharpoonup> pyth_price option) \<times> oracle_state" where
  "compose_proxy_prices_offchain E F oracle_id price_ids max_age_secs st =
     (case resolve_offchain_plans E F oracle_id price_ids [] st of
        (plans, st1) \<Rightarrow>
          if plans = [] then (Map.empty, st1)
          else
          let (symbols, wants) = collect_offchain_wants plans;
              (redstone, st2) = fetch_redstone_prices E F symbols max_age_secs st1;
              (lazer, st3) = fetch_lazer_prices E F wants max_age_secs st2
          in compose_feeds E \<lparr>fb_redstone = redstone, fb_lazer = lazer\<rparr> max_age_secs plans Map.empty [] st3)"

definition get_oracle_prices ::
    "('d, 'act) oracle_env \<Rightarrow> fetcher \<Rightarrow> account_id \<Rightarrow> price_id list \<Rightarrow> nat \<Rightarrow> oracle_state
     \<Rightarrow> (liquidator_error + (price_id \<rightharpoonup> pyth_price option)) \<times> oracle_state" where
  "get_oracle_prices E F oracle_id price_ids age st =
     (case is_proxy_oracle E oracle_id st of
        (Inl e, st1) \<Rightarrow> (Inl e, st1)
      | (Inr False, st1) \<Rightarrow>
          (Inl (PriceFetchError (WrongResponseKind (''oracle '' @ oracle_id
             @ '' is not a proxy oracle; only off-chain-composable proxy oracles are supported''))), st1)
      | (Inr True, st1) \<Rightarrow>
          (case compose_proxy_prices_offchain E F oracle_id price_ids age st1 of
             (response, st2) \<Rightarrow> (Inr response, st2)))"

section \<open>Lemmas: targets\<close>

definition in_targets :: "'f targets \<Rightarrow> account_id \<Rightarrow> 'f \<Rightarrow> bool" where
  "in_targets ts a f \<longleftrightarrow> (\<exists>fs. map_of ts a = Some fs \<and> f \<in> set fs)"

lemma in_add_target [simp]: "in_targets (add_target b g ts) a f \<longleftrightarrow> (a = b \<and> f = g) \<or> in_targets ts a f"
  by (auto simp: in_targets_def add_target_def set_insort_insert split: option.splits if_splits)

lemma in_collect_pyth_pro [simp]:
  "in_targets (collect_pyth_pro_targets_from_source s ts) a f \<longleftrightarrow>
     source_request s = LazerRequest a f \<or> in_targets ts a f"
  by (cases "(s, ts)" rule: collect_pyth_pro_targets_from_source.cases) auto

lemma in_fold_pyth_pro:
  "in_targets (fold collect_pyth_pro_targets_from_source sources ts) a f \<longleftrightarrow>
     LazerRequest a f \<in> source_request ` set sources \<or> in_targets ts a f"
  by (induction sources arbitrary: ts) auto

lemma in_add_redstone_target [simp]:
  "in_targets (add_redstone_target r ts) a f \<longleftrightarrow> r = RedStoneRequest a f \<or> in_targets ts a f"
  by (cases r) auto

lemma in_fold_redstone:
  "in_targets (fold add_redstone_target rs ts) a f \<longleftrightarrow> RedStoneRequest a f \<in> set rs \<or> in_targets ts a f"
  by (induction rs arbitrary: ts) auto

lemma is_lazer_iff: "is_lazer r \<longleftrightarrow> (\<exists>a f. r = LazerRequest a f)"
  by (cases r) auto

lemma in_collect_redstone:
  "in_targets (collect_redstone_targets_for_feed sources push ts) a f \<longleftrightarrow>
     (RedStoneRequest a f \<in> source_request ` set sources
        \<and> (push \<longrightarrow> (\<forall>b g. LazerRequest b g \<notin> source_request ` set sources)))
     \<or> in_targets ts a f"
proof -
  have "list_ex is_lazer rs \<longleftrightarrow> (\<exists>b g. LazerRequest b g \<in> set rs)" for rs
    by (auto simp: list_ex_iff is_lazer_iff)
  from this [of "map source_request sources"]
  have "list_ex is_lazer (map source_request sources) \<longleftrightarrow>
      (\<exists>b g. LazerRequest b g \<in> source_request ` set sources)" by (simp only: set_map)
  then show ?thesis by (auto simp: collect_redstone_targets_for_feed_def Let_def in_fold_redstone)
qed

section \<open>Lemmas: traces\<close>

lemma ask_simps [simp]:
  "os_trace (ask ev st) = ev # os_trace st" "os_memo (ask ev st) = os_memo st"
  "os_proxy_cache (ask ev st) = os_proxy_cache st" "os_gateway (ask ev st) = os_gateway st"
  by (simp_all add: ask_def)

text \<open>\<open>grows P st st'\<close>: the trace only gained events, and each satisfies \<open>P\<close>.\<close>

definition grows :: "(oracle_event \<Rightarrow> bool) \<Rightarrow> oracle_state \<Rightarrow> oracle_state \<Rightarrow> bool" where
  "grows P st st' \<longleftrightarrow> (\<exists>new. os_trace st' = new @ os_trace st \<and> list_all P new)"

named_theorems grows_intros \<open>one step appends one event\<close>

lemma grows_refl [grows_intros]: "os_trace st' = os_trace st \<Longrightarrow> grows P st st'"
  by (auto simp: grows_def)

lemma grows_trans: "grows P st st1 \<Longrightarrow> grows P st1 st2 \<Longrightarrow> grows P st st2"
  by (fastforce simp: grows_def)

lemma grows_step: "grows P st st1 \<Longrightarrow> os_trace st2 = ev # os_trace st1 \<Longrightarrow> P ev \<Longrightarrow> grows P st st2"
  by (auto simp: grows_def)

lemma grows_one [grows_intros]: "os_trace st' = ev # os_trace st \<Longrightarrow> P ev \<Longrightarrow> grows P st st'"
  by (auto simp: grows_def)

lemma grows_mono: "grows P st st' \<Longrightarrow> (\<And>ev. P ev \<Longrightarrow> Q ev) \<Longrightarrow> grows Q st st'"
  by (auto simp: grows_def list_all_iff)

text \<open>The calls that spend nothing.\<close>

fun spends :: "oracle_event \<Rightarrow> bool" where
  "spends (OEPushPythPro _ _) \<longleftrightarrow> True"
| "spends (OEWritePrices _ _ _) \<longleftrightarrow> True"
| "spends (OEUpdateProxy _ _) \<longleftrightarrow> True"
| "spends _ \<longleftrightarrow> False"

abbreviation is_free :: "oracle_event \<Rightarrow> bool" where
  "is_free ev \<equiv> \<not> spends ev"

text \<open>A step of the scan: free, and the push memo is untouched.\<close>

definition scans :: "oracle_state \<Rightarrow> oracle_state \<Rightarrow> bool" where
  "scans st st' \<longleftrightarrow> grows is_free st st' \<and> os_memo st' = os_memo st"

lemma scans_refl [simp]: "scans st st"
  by (simp add: scans_def grows_refl)

lemma scans_trans: "scans st st1 \<Longrightarrow> scans st1 st2 \<Longrightarrow> scans st st2"
  by (auto simp: scans_def intro: grows_trans)

lemma scans_ask [simp]: "is_free ev \<Longrightarrow> scans st (ask ev st)"
  by (auto simp: scans_def intro: grows_one)

lemma scans_frame: "scans st st1 \<Longrightarrow> os_trace st2 = os_trace st1 \<Longrightarrow> os_memo st2 = os_memo st1 \<Longrightarrow> scans st st2"
  by (auto simp: scans_def grows_def)

lemma is_proxy_oracle_scans: "is_proxy_oracle E a st = (res, st') \<Longrightarrow> scans st st'"
  by (auto simp: is_proxy_oracle_def Let_def scans_def grows_def split: if_splits sum.splits)

lemma resolve_offchain_plans_scans:
  "resolve_offchain_plans E F a ids plans st = (plans', st') \<Longrightarrow> scans st st'"
proof (induction ids arbitrary: plans st)
  case (Cons i ids)
  have "scans st (ask (OEGetProxy a i) st)" by simp
  moreover from Cons.prems obtain plans1
    where "resolve_offchain_plans E F a ids plans1 (ask (OEGetProxy a i) st) = (plans', st')"
    by (auto simp: Let_def split: sum.splits option.splits)
  ultimately show ?case using Cons.IH scans_trans by blast
qed simp

lemma resolve_offchain_plans_sound:
  assumes "resolve_offchain_plans E F a ids plans st = (plans', st')" "(i, cs) \<in> set plans'"
  shows "(i, cs) \<in> set plans \<or> (i \<in> set ids \<and> (\<exists>tr sources. oe_get_proxy E tr a i = Inr (Some sources)
    \<and> cs = plan_offchain_sources sources (offchain_legs_of F)))"
  using assms
proof (induction ids arbitrary: plans st)
  case (Cons j ids)
  let ?st1 = "ask (OEGetProxy a j) st"
  show ?case
  proof (cases "oe_get_proxy E (os_trace st) a j")
    case (Inl e)
    with Cons show ?thesis by fastforce
  next
    case (Inr r)
    show ?thesis
    proof (cases r)
      case None
      with Inr Cons show ?thesis by fastforce
    next
      case (Some sources)
      let ?cs = "plan_offchain_sources sources (offchain_legs_of F)"
      from Cons.prems(1) Inr Some
      have "resolve_offchain_plans E F a ids (if ?cs = [] then plans else plans @ [(j, ?cs)]) ?st1 = (plans', st')"
        by (simp add: Let_def)
      from Cons.IH [OF this Cons.prems(2)] Inr Some show ?thesis by (auto split: if_splits)
    qed
  qed
qed simp

text \<open>What makes a source composable: a leg with credentials.\<close>

definition composable :: "offchain_legs \<Rightarrow> 'act proxy_source \<Rightarrow> bool" where
  "composable legs s \<longleftrightarrow>
     (case source_request s of
        PythRequest \<Rightarrow> False | RedStoneRequest _ _ \<Rightarrow> leg_redstone legs | LazerRequest _ _ \<Rightarrow> leg_pyth_pro legs)"

lemma plan_source_composable: "plan_source legs s \<noteq> None \<longleftrightarrow> composable legs s"
  by (cases s; cases "source_request s") (auto simp: composable_def)

lemma plan_offchain_sources_empty: "plan_offchain_sources sources legs = [] \<longleftrightarrow> (\<forall>s\<in>set sources. \<not> composable legs s)"
proof (induction sources)
  case (Cons s sources)
  with plan_source_composable [of legs s] show ?case
    by (cases "plan_source legs s") (auto simp: plan_offchain_sources_def map_filter_simps)
qed (simp add: plan_offchain_sources_def map_filter_simps)

section \<open>Lemmas: composing\<close>

lemma fetch_redstone_prices_scans: "fetch_redstone_prices E F symbols age st = (m, st') \<Longrightarrow> scans st st'"
  by (auto simp: fetch_redstone_prices_def Let_def scans_def grows_def split: option.splits prod.splits if_splits sum.splits)

lemma fetch_lazer_prices_scans: "fetch_lazer_prices E F w age st = (m, st') \<Longrightarrow> scans st st'"
  by (auto simp: fetch_lazer_prices_def Let_def split: if_splits)

lemma transformer_input_scans: "transformer_input E call inputs st = (r, inputs', st') \<Longrightarrow> scans st st'"
  by (auto simp: transformer_input_def fetch_transformer_input_def Let_def split: option.splits sum.splits prod.splits)

lemma price_one_candidate_scans:
  "price_one_candidate E plan B inputs st = (r, inputs', st') \<Longrightarrow> scans st st'"
  by (cases plan) (auto dest: transformer_input_scans split: option.splits prod.splits)

text \<open>A price is vouched for by a reading of the clock made since \<open>base\<close>.\<close>

definition vouched_at :: "('d, 'act) oracle_env \<Rightarrow> nat \<Rightarrow> otrace \<Rightarrow> otrace \<Rightarrow> pyth_price \<Rightarrow> bool" where
  "vouched_at E age base tr p \<longleftrightarrow>
     (\<exists>later old. tr = later @ OEClock # old @ base
        \<and> publish_time_is_fresh (publish_time p) (unix_now_secs E (old @ base)) age)"

lemma vouched_at_grows:
  "vouched_at E age base (os_trace st) p \<Longrightarrow> grows P st st' \<Longrightarrow> vouched_at E age base (os_trace st') p"
proof -
  assume "vouched_at E age base (os_trace st) p" "grows P st st'"
  then obtain later old new where "os_trace st' = (new @ later) @ OEClock # old @ base"
      "publish_time_is_fresh (publish_time p) (unix_now_secs E (old @ base)) age"
    by (auto simp: vouched_at_def grows_def)
  then show ?thesis unfolding vouched_at_def by blast
qed

text \<open>The trace is one the call has reached since \<open>base\<close>.\<close>

definition since :: "otrace \<Rightarrow> oracle_state \<Rightarrow> bool" where
  "since base st \<longleftrightarrow> (\<exists>n. os_trace st = n @ base)"

lemma since_scans: "since base st \<Longrightarrow> scans st st' \<Longrightarrow> since base st'"
  by (auto simp: since_def scans_def grows_def)

lemma compose_feed_effect:
  assumes "compose_feed E B age cs inputs st = (r, inputs', st')" "since base st"
  shows "scans st st' \<and> (\<forall>p. r = Some p \<longrightarrow> vouched_at E age base (os_trace st') p)"
  using assms
proof (induction cs arbitrary: inputs st)
  case (Cons c cs)
  obtain r1 i1 st1 where one: "price_one_candidate E c B inputs st = (r1, i1, st1)"
    by (cases "price_one_candidate E c B inputs st")
  note s1 = price_one_candidate_scans [OF one]
  have b1: "since base st1" using Cons.prems(2) s1 by (rule since_scans)
  have tick: "scans st1 (ask OEClock st1)" by simp
  show ?case
  proof (cases r1)
    case None
    with Cons one s1 b1 show ?thesis by (auto intro: scans_trans)
  next
    case (Some p)
    show ?thesis
    proof (cases "publish_time_is_fresh (publish_time p) (unix_now_secs E (os_trace st1)) age")
      case True
      from b1 obtain n where n: "os_trace st1 = n @ base" by (auto simp: since_def)
      have "vouched_at E age base (os_trace (ask OEClock st1)) p"
        using True n unfolding vouched_at_def by (intro exI [of _ "[]"] exI [of _ n]) simp
      with True Some one Cons.prems s1 tick show ?thesis by (auto intro: scans_trans)
    next
      case False
      with Some one Cons.prems have "compose_feed E B age cs i1 (ask OEClock st1) = (r, inputs', st')" by simp
      from Cons.IH [OF this since_scans [OF b1 tick]] s1 tick show ?thesis by (blast intro: scans_trans)
    qed
  qed
qed simp

text \<open>Every entry of the response is a price a clock reading of the call vouches for.\<close>

definition response_ok ::
    "('d, 'act) oracle_env \<Rightarrow> nat \<Rightarrow> otrace \<Rightarrow> otrace \<Rightarrow> price_id set \<Rightarrow> (price_id \<rightharpoonup> pyth_price option) \<Rightarrow> bool" where
  "response_ok E age base tr I response \<longleftrightarrow>
     (\<forall>i r. response i = Some r \<longrightarrow> i \<in> I \<and> (\<exists>p. r = Some p \<and> vouched_at E age base tr p))"

lemma response_ok_grows:
  "response_ok E age base (os_trace st) I m \<Longrightarrow> scans st st' \<Longrightarrow> response_ok E age base (os_trace st') I m"
  unfolding response_ok_def scans_def using vouched_at_grows by blast

lemma compose_feeds_effect:
  assumes "compose_feeds E B age plans m inputs st = (m', st')" "response_ok E age base (os_trace st) I m"
    "fst ` set plans \<subseteq> I" "since base st"
  shows "scans st st' \<and> response_ok E age base (os_trace st') I m'"
  using assms
proof (induction plans arbitrary: m inputs st)
  case (Cons plan plans)
  obtain i cs where plan: "plan = (i, cs)" by (cases plan)
  obtain r i1 st1 where one: "compose_feed E B age cs inputs st = (r, i1, st1)"
    by (cases "compose_feed E B age cs inputs st")
  note e1 = compose_feed_effect [OF one Cons.prems(4)]
  have "response_ok E age base (os_trace st1) I m" using Cons.prems(2) e1 response_ok_grows by blast
  then have "response_ok E age base (os_trace st1) I (case r of Some p \<Rightarrow> m(i \<mapsto> Some p) | None \<Rightarrow> m)"
    using e1 Cons.prems(3) plan by (auto simp: response_ok_def split: option.splits)
  moreover have "compose_feeds E B age plans (case r of Some p \<Rightarrow> m(i \<mapsto> Some p) | None \<Rightarrow> m) i1 st1 = (m', st')"
    using Cons.prems(1) plan one by (cases r) auto
  moreover have "since base st1" using Cons.prems(4) e1 since_scans by blast
  ultimately show ?case using Cons.IH Cons.prems(3) e1 by (auto intro: scans_trans)
qed simp

lemma compose_effect:
  assumes "compose_proxy_prices_offchain E F a ids age st = (m, st')" "since base st"
  shows "scans st st' \<and> response_ok E age base (os_trace st') (set ids) m"
proof -
  obtain plans st1 where plans: "resolve_offchain_plans E F a ids [] st = (plans, st1)" by fastforce
  note s1 = resolve_offchain_plans_scans [OF plans]
  have ids: "fst ` set plans \<subseteq> set ids" using resolve_offchain_plans_sound [OF plans] by fastforce
  have none: "response_ok E age base tr (set ids) Map.empty" for tr by (simp add: response_ok_def)
  show ?thesis
  proof (cases "plans = []")
    case True
    with assms plans s1 none show ?thesis by (simp add: compose_proxy_prices_offchain_def)
  next
    case False
    obtain symbols w where w: "collect_offchain_wants plans = (symbols, w)" by fastforce
    obtain rs st2 where rs: "fetch_redstone_prices E F symbols age st1 = (rs, st2)" by fastforce
    obtain lz st3 where lz: "fetch_lazer_prices E F w age st2 = (lz, st3)" by fastforce
    have run: "compose_feeds E \<lparr>fb_redstone = rs, fb_lazer = lz\<rparr> age plans Map.empty [] st3 = (m, st')"
      using assms plans False w rs lz by (simp add: compose_proxy_prices_offchain_def)
    have s3: "scans st st3" using s1 fetch_redstone_prices_scans [OF rs] fetch_lazer_prices_scans [OF lz]
      by (blast intro: scans_trans)
    from compose_feeds_effect [OF run none ids since_scans [OF assms(2) s3]] s3
    show ?thesis by (blast intro: scans_trans)
  qed
qed

lemma get_oracle_prices_effect:
  assumes "get_oracle_prices E F a ids age st = (res, st')"
  shows "scans st st' \<and> (\<forall>m. res = Inr m \<longrightarrow> response_ok E age (os_trace st) (os_trace st') (set ids) m)"
proof -
  obtain r st1 where r: "is_proxy_oracle E a st = (r, st1)" by fastforce
  note s1 = is_proxy_oracle_scans [OF r]
  obtain m st2 where m: "compose_proxy_prices_offchain E F a ids age st1 = (m, st2)" by fastforce
  have "since (os_trace st) st1" using since_scans [OF _ s1] by (simp add: since_def)
  from compose_effect [OF m this] s1 assms r m show ?thesis
    by (cases r) (auto simp: get_oracle_prices_def intro: scans_trans split: bool.splits)
qed

section \<open>Lemmas: the push\<close>

text \<open>A write is justified: its payload was built for exactly these feeds under rules the adapter itself
  returned.\<close>

definition justified ::
    "('sig, 'rid, 'key) crypto \<Rightarrow> ('d, 'act) oracle_env \<Rightarrow> account_id \<Rightarrow> string list \<Rightarrow> bytes \<Rightarrow> bool" where
  "justified C E adapter feeds payload \<longleftrightarrow>
     feeds \<noteq> [] \<and> (\<exists>asked rules packages clock. oe_redstone_config E asked adapter = Inr rules
       \<and> build_payload C packages feeds rules (unix_now_ms E clock) = Inr payload)"

text \<open>What the push may do: justified RedStone writes if \<open>rs\<close>, Pyth Pro pushes if \<open>pp\<close>, and one oracle's
  re-aggregation.\<close>

definition push_event ::
    "('sig, 'rid, 'key) crypto \<Rightarrow> ('d, 'act) oracle_env \<Rightarrow> bool \<Rightarrow> bool \<Rightarrow> (account_id \<times> price_id list) option
     \<Rightarrow> oracle_event \<Rightarrow> bool" where
  "push_event C E rs pp agg ev \<longleftrightarrow>
     (case ev of
        OEWritePrices a fs payload \<Rightarrow> rs \<and> justified C E a fs payload
      | OEPushPythPro a f \<Rightarrow> pp
      | OEUpdateProxy a ids \<Rightarrow> agg = Some (a, ids)
      | _ \<Rightarrow> True)"

lemma push_event_free [simp]: "is_free ev \<Longrightarrow> push_event C E rs pp agg ev"
  by (cases ev) (auto simp: push_event_def)

lemma push_event_mono:
  "push_event C E rs pp agg ev \<Longrightarrow> (rs \<Longrightarrow> rs') \<Longrightarrow> (pp \<Longrightarrow> pp') \<Longrightarrow> agg = None \<or> agg = agg' \<Longrightarrow>
   push_event C E rs' pp' agg' ev"
  by (auto simp: push_event_def split: oracle_event.splits)

lemma scans_push_event: "scans st st' \<Longrightarrow> grows (push_event C E rs pp agg) st st'"
  by (auto simp: scans_def intro: grows_mono)

lemma update_redstone_prices_effect:
  assumes "update_redstone_prices C E adapter feed_ids packages st = (ok, st')"
  obtains (idle) "\<not> ok" "scans st st'"
    | (failed) due where "\<not> ok" "due \<noteq> []" "set due \<subseteq> set feed_ids" "grows (push_event C E True False None) st st'"
      "\<And>a f. os_memo st' (a, f) = (if a = adapter \<and> f \<in> set due then None else os_memo st (a, f))"
    | (landed) due tr where "ok" "due \<noteq> []" "set due \<subseteq> set feed_ids" "grows (push_event C E True False None) st st'"
      "\<And>a f. os_memo st' (a, f) = (if a = adapter \<and> f \<in> set due then Some (oe_instant E tr) else os_memo st (a, f))"
proof (cases "oe_redstone_config E (os_trace st) adapter")
  case (Inl e)
  with assms show thesis by (intro idle) (auto simp: update_redstone_prices_def Let_def)
next
  case (Inr rules)
  let ?st1 = "ask (OEGetConfig adapter) st"
  let ?now = "oe_instant E (os_trace ?st1)"
  obtain due memo where r: "reserve_due (os_memo st) adapter feed_ids (min_interval_ms rules) ?now = (due, memo)"
    by (cases "reserve_due (os_memo st) adapter feed_ids (min_interval_ms rules) ?now")
  note memo = reserve_due_cases(2) [OF r]
  have sub: "set due \<subseteq> set feed_ids" using reserve_due_cases(1) [OF r] by (auto simp: due_feeds_def)
  show thesis
  proof (cases "due = []")
    case True
    have "memo = os_memo st" using memo True by (auto simp: fun_eq_iff)
    with assms Inr r True show thesis
      by (intro idle) (auto simp: update_redstone_prices_def Let_def scans_def grows_def)
  next
    case False
    let ?clock = "OEClock # os_trace ?st1"
    show thesis
    proof (cases "build_payload C packages due rules (unix_now_ms E ?clock)")
      case (Inl e)
      from assms Inr r False Inl memo sub show thesis
        by (intro failed [of due])
           (auto simp: update_redstone_prices_def Let_def release_redstone_reservation_def release_feeds_def
             fold_release grows_def)
    next
      case payload: (Inr payload)
      let ?tr = "OEClock # ?clock"
      have just: "justified C E adapter due payload"
        using False Inr payload unfolding justified_def by blast
      show thesis
      proof (cases "oe_write_prices E ?tr adapter due payload")
        case (Inl e)
        from assms Inr r False Inl payload memo sub just show thesis
          by (intro failed [of due])
             (auto simp: update_redstone_prices_def Let_def release_redstone_reservation_def release_feeds_def
               fold_release grows_def push_event_def)
      next
        case res: (Inr result)
        show thesis
        proof (cases "op_status result = OpSucceeded")
          case True
          from assms Inr r False res payload memo sub just True show thesis
            by (intro landed [of due "OEWritePrices adapter due payload # ?tr"])
               (auto simp: update_redstone_prices_def Let_def fold_reserve grows_def push_event_def)
        next
          case nok: False
          from assms Inr r False res payload memo sub just nok show thesis
            by (intro failed [of due])
               (auto simp: update_redstone_prices_def Let_def release_redstone_reservation_def release_feeds_def
                 fold_release grows_def push_event_def)
        qed
      qed
    qed
  qed
qed

lemma update_redstone_prices_grows:
  "update_redstone_prices C E adapter feed_ids packages st = (ok, st') \<Longrightarrow>
   grows (push_event C E True False None) st st'"
  by (erule update_redstone_prices_effect) (auto intro: scans_push_event)

lemma push_redstone_grows:
  "push_redstone C E packages ts any st = (any', st') \<Longrightarrow> grows (push_event C E True False None) st st'"
proof (induction ts arbitrary: any st)
  case (Cons t ts)
  obtain a fs where t: "t = (a, fs)" by (cases t)
  obtain u st1 where one: "update_redstone_prices C E a fs packages st = (u, st1)" by fastforce
  with Cons t show ?case by (auto intro: grows_trans [OF update_redstone_prices_grows [OF one]])
qed (auto intro: grows_refl)

lemma update_pyth_pro_prices_grows:
  "update_pyth_pro_prices E adapter fs any st = (any', st') \<Longrightarrow> grows (push_event C E False True None) st st'"
proof (induction fs arbitrary: any st)
  case (Cons f fs)
  have "grows (push_event C E False True None) st (ask (OEPushPythPro adapter f) st)"
    by (intro grows_one) (auto simp: push_event_def)
  moreover from Cons.prems obtain any1
    where "update_pyth_pro_prices E adapter fs any1 (ask (OEPushPythPro adapter f) st) = (any', st')"
    by (auto simp: Let_def split: sum.splits)
  ultimately show ?case using Cons.IH grows_trans by blast
qed (auto intro: grows_refl)

lemma push_pyth_pro_grows:
  "push_pyth_pro E ts any st = (any', st') \<Longrightarrow> grows (push_event C E False True None) st st'"
proof (induction ts arbitrary: any st)
  case (Cons t ts)
  obtain a fs where t: "t = (a, fs)" by (cases t)
  obtain u st1 where one: "update_pyth_pro_prices E a fs False st = (u, st1)" by fastforce
  with Cons t show ?case by (auto intro: grows_trans [OF update_pyth_pro_prices_grows [OF one]])
qed (auto intro: grows_refl)

lemma fetch_for_push_scans: "fetch_for_push E cfg feeds st = (res, st') \<Longrightarrow> scans st st'"
  by (auto simp: fetch_for_push_def Let_def scans_def grows_def split: prod.splits)

lemma resolve_targets_loop_scans: "resolve_targets_loop E F a ids ts st = (res, st') \<Longrightarrow> scans st st'"
proof (induction ids arbitrary: ts st)
  case (Cons i ids)
  have step: "scans st (ask (OEGetProxy a i) st)" by simp
  show ?case
  proof (cases "oe_get_proxy E (os_trace st) a i")
    case (Inl e)
    with Cons.prems step show ?thesis by (simp add: Let_def)
  next
    case (Inr r)
    with Cons.prems obtain ts1 where "resolve_targets_loop E F a ids ts1 (ask (OEGetProxy a i) st) = (res, st')"
      by (cases r) (auto simp: Let_def)
    from Cons.IH [OF this] step show ?thesis by (blast intro: scans_trans)
  qed
qed simp

lemma resolve_update_targets_scans: "resolve_update_targets E F a ids st = (res, st') \<Longrightarrow> scans st st'"
proof -
  assume run: "resolve_update_targets E F a ids st = (res, st')"
  obtain r st1 where r: "is_proxy_oracle E a st = (r, st1)" by fastforce
  note s1 = is_proxy_oracle_scans [OF r]
  from run r s1 show ?thesis
    by (cases r) (auto simp: resolve_update_targets_def intro: scans_trans [OF s1 resolve_targets_loop_scans]
        split: bool.splits)
qed

lemma push_targets_grows:
  assumes "push_targets C E F ts st = (any, st')"
  shows "grows (push_event C E (redstone_push_client F \<noteq> None) (f_pyth_pro_updates F) None) st st'"
    (is "grows ?P st st'")
proof -
  obtain any1 st1 where one: "(if f_pyth_pro_updates F then push_pyth_pro E (ut_pyth_pro ts) False st else (False, st)) = (any1, st1)"
    by fastforce
  have g1: "grows ?P st st1"
  proof (cases "f_pyth_pro_updates F")
    case True
    with one have "push_pyth_pro E (ut_pyth_pro ts) False st = (any1, st1)" by simp
    from push_pyth_pro_grows [OF this] True show ?thesis by (blast intro: grows_mono push_event_mono)
  next
    case False
    with one show ?thesis by (auto intro: grows_refl)
  qed
  show ?thesis
  proof (cases "redstone_push_client F")
    case None
    with assms one g1 show ?thesis by (simp add: push_targets_def)
  next
    case (Some cfg)
    show ?thesis
    proof (cases "ut_redstone ts = []")
      case True
      with assms one g1 Some show ?thesis by (simp add: push_targets_def)
    next
      case False
      obtain r st2 where f: "fetch_for_push E cfg (concat (map snd (ut_redstone ts))) st1 = (r, st2)" by fastforce
      have g2: "grows ?P st st2" using g1 scans_push_event [OF fetch_for_push_scans [OF f]] by (rule grows_trans)
      show ?thesis
      proof (cases r)
        case (Inl e)
        with assms one g2 Some False f show ?thesis by (simp add: push_targets_def)
      next
        case (Inr packages)
        with assms one Some False f have "push_redstone C E packages (ut_redstone ts) any1 st2 = (any, st')"
          by (simp add: push_targets_def)
        from push_redstone_grows [OF this] have "grows ?P st2 st'" using Some by (auto intro: grows_mono push_event_mono)
        with g2 show ?thesis by (rule grows_trans)
      qed
    qed
  qed
qed

text \<open>The re-aggregation that is asked for after \<open>tr\<close> is carried out.\<close>

definition reaggregated :: "('d, 'act) oracle_env \<Rightarrow> otrace \<Rightarrow> account_id \<Rightarrow> price_id list \<Rightarrow> bool" where
  "reaggregated E tr a ids \<longleftrightarrow>
     (case oe_update_proxy E tr a ids of Inl _ \<Rightarrow> False | Inr result \<Rightarrow> op_status result = OpSucceeded)"

text \<open>A non-proxy oracle is left alone; a proxy is re-aggregated last, whatever the legs did, and the push
  counts only when that succeeded.\<close>

lemma update_onchain_prices_effect:
  assumes "update_onchain_prices C E F a ids st = (res, st')"
  obtains (idle) "scans st st'" "res \<noteq> Inr True"
    | (pushed) st2 where
      "grows (push_event C E (redstone_push_client F \<noteq> None) (f_pyth_pro_updates F) None) st st2"
      "os_trace st' = OEUpdateProxy a ids # os_trace st2"
      "res \<noteq> Inr False" "res = Inr True \<longleftrightarrow> reaggregated E (os_trace st2) a ids"
proof -
  obtain r st1 where r: "is_proxy_oracle E a st = (r, st1)" by fastforce
  note s1 = is_proxy_oracle_scans [OF r]
  show thesis
  proof (cases "r = Inr True")
    case False
    with assms r have "st' = st1 \<and> res \<noteq> Inr True"
      by (cases r) (auto simp: update_onchain_prices_def split: bool.splits)
    with s1 show thesis by (intro idle) auto
  next
    case True
    let ?go = "f_pyth_pro_updates F \<or> redstone_push_client F \<noteq> None"
    let ?push = "if ?go then (case resolve_update_targets E F a ids st1 of
        (Inr targets, st2) \<Rightarrow> push_targets C E F targets st2 | (Inl e, st2) \<Rightarrow> (False, st2)) else (False, st1)"
    obtain any st2 where push: "?push = (any, st2)" by fastforce
    let ?P = "push_event C E (redstone_push_client F \<noteq> None) (f_pyth_pro_updates F) None"
    have "grows ?P st1 st2"
    proof (cases ?go)
      case True
      obtain ts st3 where ts: "resolve_update_targets E F a ids st1 = (ts, st3)" by fastforce
      note s3 = scans_push_event [OF resolve_update_targets_scans [OF ts]]
      show ?thesis
      proof (cases ts)
        case (Inl e)
        with push True ts have "st2 = st3" by simp
        with s3 show ?thesis by simp
      next
        case (Inr targets)
        with push True ts have "push_targets C E F targets st3 = (any, st2)" by simp
        from push_targets_grows [OF this] show ?thesis by (rule grows_trans [OF s3])
      qed
    next
      case False
      with push show ?thesis by (auto intro: grows_refl)
    qed
    then have g: "grows ?P st st2" using scans_push_event [OF s1] by (blast intro: grows_trans)
    obtain res3 st3 where agg: "update_proxy_prices E a ids st2 = (res3, st3)" by fastforce
    then have "os_trace st3 = OEUpdateProxy a ids # os_trace st2" "res3 \<noteq> Inr False"
      "res3 = Inr True \<longleftrightarrow> reaggregated E (os_trace st2) a ids"
      by (auto simp: update_proxy_prices_def reaggregated_def Let_def split: sum.splits operation_status.splits)
    moreover have "st' = st3" "res = map_sum id (\<lambda>u. any \<or> u) res3"
      using assms r True push agg unfolding update_onchain_prices_def by (auto split: sum.splits)
    ultimately show thesis using g by (intro pushed [of st2]) (cases res3; auto)+
  qed
qed

end
