(* ===== verification/Pricing_Properties.thy ===== *)
theory Pricing_Properties
  imports Oracle
begin

text \<open>
  The properties of the pricing side: the off-chain scan prices (Oracle, Redstone, Lazer) and the pushes
  that precede a liquidation (Oracle, Redstone_Push).
\<close>

section \<open>Scan prices\<close>

text \<open>
  C18: A scan price is fresh and free. Whatever the gateways and the chain answer, fetching scan prices
  spends nothing (every call is a read) and leaves the push memo alone; and every price of a response is
  for a requested feed and within the market's age bound by a clock reading made during the call itself.
\<close>

theorem scan_prices_are_fresh_and_free:
  "case get_oracle_prices E F a ids age st of
     (res, st') \<Rightarrow> scans st st'
       \<and> (case res of Inr m \<Rightarrow> response_ok E age (os_trace st) (os_trace st') (set ids) m | Inl _ \<Rightarrow> True)"
proof -
  obtain res st' where run: "get_oracle_prices E F a ids age st = (res, st')" by fastforce
  with get_oracle_prices_effect [OF run] show ?thesis by (cases res) auto
qed

text \<open>
  C33: A RedStone scan price is the median of all the values the gateway's packages carry for the feed. The
  values counted are those of the voices: for every signer, the first of its packages whose value scales, and
  no other package. Sorted, the price is the middle value, or for an even number of them the mean of the two
  middle ones rounded up; so at least half of the values are not above it and at least half not below it. It
  is positive and within \<open>i64\<close>. Its publish time is the (lower) median of the same packages' stamps, not zero,
  neither too old nor too far in the future.
\<close>

theorem scan_price_is_a_median:
  assumes "scan_price packages symbol now_ms max_age_ms = Some p"
  shows "\<exists>cs vs ts m t. packages symbol = Some cs \<and> voices cs \<noteq> []
    \<and> vs = map (\<lambda>pk. the (scale_value (value_text pk))) (voices cs) \<and> ts = map timestamp_ms (voices cs)
    \<and> m = middle (sort vs)
    \<and> length vs \<le> 2 * length (filter (\<lambda>x. x \<le> m) vs) \<and> length vs \<le> 2 * length (filter (\<lambda>x. m \<le> x) vs)
    \<and> 1 \<le> m \<and> int m \<le> i64_max
    \<and> t = sort ts ! ((length ts - 1) div 2) \<and> 0 < t
    \<and> now_ms - int t \<le> max_age_ms \<and> int t - now_ms \<le> MAX_FUTURE_SKEW_MS
    \<and> p = \<lparr>price_mantissa = int m, price_expo = SYNTH_EXPO, price_conf = 0, publish_time = int t div 1000\<rparr>"
proof -
  from assms obtain cs vs ts m t where c: "packages symbol = Some cs"
    "vs = map (\<lambda>p. the (scale_value (value_text p))) (voices cs)" "ts = map timestamp_ms (voices cs)"
    "voices cs \<noteq> []" "median_of (sort vs) = Some m" "1 \<le> m" "int m \<le> i64_max"
    "t = sort ts ! ((length ts - 1) div 2)" "0 < t"
    "now_ms - int t \<le> max_age_ms" "int t - now_ms \<le> MAX_FUTURE_SKEW_MS"
    "p = \<lparr>price_mantissa = int m, price_expo = SYNTH_EXPO, price_conf = 0, publish_time = int t div 1000\<rparr>"
    by (elim scan_price_cases)
  from c(2,4) have "vs \<noteq> []" by simp
  with c median_of_balanced [OF c(5)] median_of_middle [OF c(5)] show ?thesis by blast
qed

definition px_package :: "string \<Rightarrow> nat \<Rightarrow> signed_package" where
  "px_package v k = \<lparr>feed_id = ''USDC'', value_text = v, timestamp_ms = 60000,
     signature = replicate 65 k, claimed_signer = replicate 20 k\<rparr>"

definition px_packages :: package_map where
  "px_packages = [''USDC'' \<mapsto> [px_package ''1.5'' 7, px_package ''1.25'' 8, px_package ''2'' 9]]"

lemma px_scales:
  "scale_value ''1.5'' = Some 150000000" "scale_value ''1.25'' = Some 125000000" "scale_value ''2'' = Some 200000000"
  by code_simp+

lemma px_collect:
  "scan_collect [px_package ''1.5'' 7, px_package ''1.25'' 8, px_package ''2'' 9] {} [] []
     = ([150000000, 125000000, 200000000], [60000, 60000, 60000])"
  by (simp add: px_package_def px_scales)

lemma px_median: "median_of [125000000, 150000000, 200000000] = Some 150000000"
  by code_simp

theorem scan_price_is_a_median_witness:
  "scan_price px_packages ''USDC'' 61000 5000
     = Some \<lparr>price_mantissa = 150000000, price_expo = -8, price_conf = 0, publish_time = 60\<rparr>
   \<and> (\<exists>m. 1 \<le> m \<and> int m = 150000000)"
proof -
  have run: "scan_price px_packages ''USDC'' 61000 5000
     = Some \<lparr>price_mantissa = 150000000, price_expo = -8, price_conf = 0, publish_time = 60\<rparr>"
    using px_collect px_median
    by (simp add: scan_price_def px_packages_def i64_max_def MAX_FUTURE_SKEW_MS_def SYNTH_EXPO_def)
  from scan_price_is_a_median [OF run] have "\<exists>m. 1 \<le> m \<and> int m = 150000000" by auto
  with run show ?thesis by blast
qed

text \<open>
  C34: Decimal texts are scaled exactly: a value that scales is the decimal number the text denotes, times
  \<open>10^8\<close>, rounded half up, and it fits a \<open>u128\<close>. No rounding through a floating-point number happens.
\<close>

theorem scaling_is_exact:
  assumes "scale_value txt = Some n"
  shows "\<exists>ip fp e. decimal_parts txt = Some (ip, fp, e) \<and> list_all is_digit ip \<and> list_all is_digit fp
    \<and> int n = \<lfloor>decimal_value ip fp e * 10 ^ 8 + 1 / 2\<rfloor> \<and> n \<le> u128_max"
  using assms scale_mantissa_exact decimal_parts_digits by (elim scale_value_cases) blast

theorem scaling_is_exact_witness:
  "scale_value ''1.25'' = Some 125000000 \<and> 125000000 \<le> u128_max"
  using scaling_is_exact [OF px_scales(2)] px_scales(2) by blast

text \<open>
  Fail-over: the gateways are asked in their configured order, each only after every earlier one
  failed, the first answer is the result, and only when all of them failed does the fetch fail, with every
  failure in the message.
\<close>

theorem gateways_fail_over_in_order:
  "fetch_packages G cfg feeds = failover G (gateways cfg) feeds"
  by (rule fetch_packages_failover)

text \<open>
  C37: A gateway configuration that parses holds the API keys safely: every gateway is an https URL without
  credentials, query or fragment, carrying a printable key, and it is the entry of the same position.
\<close>

theorem gateway_keys_travel_over_https:
  assumes "gateway_config_parse url_parse from_str raw service = Inr (Some cfg)"
  shows "\<exists>entries. from_str (unquote raw) = Inr entries \<and> entries \<noteq> [] \<and> data_service_id cfg = service
    \<and> list_all2 (\<lambda>entry gw. gateway_ok gw \<and> url_parse (fst entry) = Inr (gw_url gw) \<and> gw_api_key gw = snd entry)
        entries (gateways cfg)"
  using assms parse_gateways_ok
  by (fastforce simp: gateway_config_parse_def Let_def split: if_splits sum.splits)

definition px_url :: parsed_url where
  "px_url = \<lparr>url_scheme = ''https'', url_username = [], url_password = None, url_query = None,
     url_fragment = None, url_origin = ''https://g.example'', url_path = ''/''\<rparr>"

theorem gateway_keys_travel_over_https_witness:
  "\<exists>cfg. gateway_config_parse (\<lambda>_. Inr px_url) (\<lambda>_. Inr [(''https://g.example'', ''k1'')]) ''[x]'' ''primary''
       = Inr (Some cfg)
     \<and> list_all gateway_ok (gateways cfg)"
proof -
  let ?cfg = "\<lparr>gateways = [\<lparr>gw_url = px_url, gw_api_key = ''k1''\<rparr>], data_service_id = ''primary''\<rparr>"
  have "unquote ''[x]'' \<noteq> []" by code_simp
  then have run: "gateway_config_parse (\<lambda>_. Inr px_url) (\<lambda>_. Inr [(''https://g.example'', ''k1'')]) ''[x]'' ''primary''
       = Inr (Some ?cfg)"
    by (simp add: gateway_config_parse_def Let_def parse_gateway_def px_url_def is_ascii_graphic_def byte_def)
  from gateway_keys_travel_over_https [OF run] have "list_all gateway_ok (gateways ?cfg)"
    by (auto simp: list_all_iff list_all2_iff)
  with run show ?thesis by blast
qed

text \<open>
  C38: The Lazer pass is bounded and its prices are vouched for: for \<open>n\<close> feeds it makes at most \<open>1 + 2n\<close>
  requests, however the API rejects them, and every price it returns for a feed is one that the API answered
  to a request of this very pass: a successful response, sent after exactly the requests before it, whose
  payload carries that feed with that EMA price, exponent and publish time, fresh at the age bound by the
  clock read when that response had arrived.
\<close>

theorem lazer_pass_is_bounded:
  "case get_ema_prices S ids age reqs of
     (prices, reqs') \<Rightarrow> vouched S age reqs reqs' prices
       \<and> (\<exists>new. reqs' = new @ reqs \<and> length new \<le> 1 + 2 * length ids)"
proof -
  obtain prices reqs' where run: "get_ema_prices S ids age reqs = (prices, reqs')" by fastforce
  from get_ema_prices_effect [OF run] run show ?thesis by simp
qed

section \<open>Pushes\<close>

text \<open>
  C16: A push is justified. Bringing an oracle's prices on-chain either only reads (and then never reports a
  push), or ends with the one re-aggregation of that oracle; before it, it writes to a RedStone adapter
  only if the push is configured, and only payloads that were built for exactly the written feeds under
  rules the adapter itself returned, and it pushes Pyth Pro prices only if that client is configured.
\<close>

theorem pushes_are_justified:
  "case update_onchain_prices C E F a ids st of
     (res, st') \<Rightarrow>
       (scans st st' \<and> res \<noteq> Inr True)
       \<or> (\<exists>st2. grows (push_event C E (redstone_push_client F \<noteq> None) (f_pyth_pro_updates F) None) st st2
            \<and> os_trace st' = OEUpdateProxy a ids # os_trace st2 \<and> res \<noteq> Inr False)"
proof -
  obtain res st' where run: "update_onchain_prices C E F a ids st = (res, st')" by fastforce
  show ?thesis unfolding run prod.case by (rule update_onchain_prices_effect [OF run]) blast+
qed

text \<open>
  C17: A payload is built exactly when every feed has enough usable signers and the packages fit its
  16-bit count; it is then the signed bytes of the packages picked for the feeds in order, the count and
  the protocol's marker, and what is picked for a feed is acceptable to the adapter: packages the gateway
  returned, fresh by the adapter's bounds, recovering to a distinct trusted signer each, as many as its
  threshold.
\<close>

theorem payload_is_acceptable:
  "(build_payload C packages feeds rules now_ms = Inr out \<longleftrightarrow>
      list_all (enough_signers C packages rules now_ms) feeds
      \<and> length (concat (map (picks C packages rules now_ms) feeds)) \<le> 65535
      \<and> out = concat (map package_bytes (concat (map (picks C packages rules now_ms) feeds)))
          @ be_bytes 2 (length (concat (map (picks C packages rules now_ms) feeds))) @ [0, 0, 0] @ REDSTONE_MARKER)
   \<and> (list_all (enough_signers C packages rules now_ms) feeds \<longleftrightarrow>
      list_all (\<lambda>feed. well_picked C packages rules now_ms feed (picks C packages rules now_ms feed)) feeds)"
  by (auto simp: build_payload_eq enough_signers_iff list_all_iff)



text \<open>
  C36: Concurrent callers do not push a feed twice: of successive reservations of one adapter's feeds, any
  two that obtain the same feed are at least the adapter's minimum interval apart.
\<close>

theorem push_reservations_are_spaced:
  assumes "sorted (map fst calls)"
  shows "spaced min_interval (reservations memo adapter min_interval calls)"
  using assms by (rule reservations_spaced)

theorem push_reservations_are_spaced_witness:
  "spaced 40000 (reservations Map.empty ''a'' 40000
     [(0, [''USDC'', ''BTC'']), (10000, [''USDC'']), (50000, [''USDC'', ''BTC''])])
   \<and> reservations Map.empty ''a'' 40000
       [(0, [''USDC'', ''BTC'']), (10000, [''USDC'']), (50000, [''USDC'', ''BTC''])]
     = [(0, [''USDC'', ''BTC'']), (10000, []), (50000, [''USDC'', ''BTC''])]"
proof -
  have "spaced 40000 (reservations Map.empty ''a'' 40000
     [(0, [''USDC'', ''BTC'']), (10000, [''USDC'']), (50000, [''USDC'', ''BTC''])])"
    by (rule push_reservations_are_spaced) simp
  moreover have "reservations Map.empty ''a'' 40000
       [(0, [''USDC'', ''BTC'']), (10000, [''USDC'']), (50000, [''USDC'', ''BTC''])]
     = [(0, [''USDC'', ''BTC'']), (10000, []), (50000, [''USDC'', ''BTC''])]"
    by (simp add: reserve_due_def due_feeds_def Let_def)
  ultimately show ?thesis by blast
qed

end
