(* ===== verification/Metrics.thy ===== *)
theory Metrics
  imports Round "HOL-Library.List_Lexorder" "HOL-Library.Char_ord"
begin

text \<open>
  src/metrics.rs: the process-wide counters and gauges, the tally of filtered markets and the text the
  endpoint serves.

  A counter is an \<open>AtomicU64\<close>: \<open>fetch_add\<close> wraps. A \<open>BTreeMap\<close> is an association list kept sorted by key.
  The process aborts on a panic, so no mutex is ever poisoned.
\<close>

section \<open>Ordered maps\<close>

fun btree_insert :: "'k::linorder \<Rightarrow> 'v \<Rightarrow> ('k \<times> 'v) list \<Rightarrow> ('k \<times> 'v) list" where
  "btree_insert k v [] = [(k, v)]"
| "btree_insert k v ((k', v') # rest) =
     (if k = k' then (k, v) # rest
      else if k < k' then (k, v) # (k', v') # rest
      else (k', v') # btree_insert k v rest)"

lemma map_of_btree_insert [simp]: "map_of (btree_insert k v al) = (map_of al)(k \<mapsto> v)"
  by (induction al) (auto simp: fun_eq_iff)

lemma keys_btree_insert: "fst ` set (btree_insert k v al) = insert k (fst ` set al)"
proof -
  have "dom (map_of (btree_insert k v al)) = insert k (dom (map_of al))" by simp
  then show ?thesis by (simp only: dom_map_of_conv_image_fst)
qed

lemma sorted_btree_insert:
  "sorted_wrt (<) (map fst al) \<Longrightarrow> sorted_wrt (<) (map fst (btree_insert k v al))"
proof (induction al)
  case (Cons kv al)
  obtain k' v' where kv: "kv = (k', v')" by (cases kv)
  have "set (map fst (btree_insert k v al)) = insert k (set (map fst al))"
    using keys_btree_insert [of k v al] by simp
  with Cons kv show ?case by (auto simp del: set_map intro: less_trans)
qed simp

section \<open>Why a market is filtered\<close>

datatype filter_reason =
    Ignored | Deprecated | NotAMarket | VersionUnsupported | OracleUnpriceable | AssetFilter
  | ConfigReadError | VersionReadError | OracleProbeError

text \<open>The derived \<open>Ord\<close> follows the order of the variants.\<close>

fun filter_reason_index :: "filter_reason \<Rightarrow> nat" where
  "filter_reason_index Ignored = 0"
| "filter_reason_index Deprecated = 1"
| "filter_reason_index NotAMarket = 2"
| "filter_reason_index VersionUnsupported = 3"
| "filter_reason_index OracleUnpriceable = 4"
| "filter_reason_index AssetFilter = 5"
| "filter_reason_index ConfigReadError = 6"
| "filter_reason_index VersionReadError = 7"
| "filter_reason_index OracleProbeError = 8"

lemma filter_reason_index_inj: "filter_reason_index a = filter_reason_index b \<longleftrightarrow> a = b"
  by (cases a; cases b; simp)

instantiation filter_reason :: linorder
begin
definition less_eq_filter_reason :: "filter_reason \<Rightarrow> filter_reason \<Rightarrow> bool" where
  "less_eq_filter_reason a b \<longleftrightarrow> filter_reason_index a \<le> filter_reason_index b"
definition less_filter_reason :: "filter_reason \<Rightarrow> filter_reason \<Rightarrow> bool" where
  "less_filter_reason a b \<longleftrightarrow> filter_reason_index a < filter_reason_index b"
instance
  by standard (auto simp: less_eq_filter_reason_def less_filter_reason_def filter_reason_index_inj)
end

fun filter_reason_label :: "filter_reason \<Rightarrow> string" where
  "filter_reason_label Ignored = ''ignored''"
| "filter_reason_label Deprecated = ''deprecated''"
| "filter_reason_label NotAMarket = ''not-a-market''"
| "filter_reason_label VersionUnsupported = ''version''"
| "filter_reason_label OracleUnpriceable = ''oracle''"
| "filter_reason_label AssetFilter = ''asset-filter''"
| "filter_reason_label ConfigReadError = ''config-read-error''"
| "filter_reason_label VersionReadError = ''version-read-error''"
| "filter_reason_label OracleProbeError = ''oracle-probe-error''"

lemma filter_reason_label_inj: "filter_reason_label a = filter_reason_label b \<longleftrightarrow> a = b"
  by (cases a; cases b; simp)

type_synonym filter_tally = "(filter_reason \<times> nat) list"

definition tally_record :: "filter_reason \<Rightarrow> filter_tally \<Rightarrow> filter_tally" where
  "tally_record reason t =
     btree_insert reason ((case map_of t reason of None \<Rightarrow> 0 | Some n \<Rightarrow> n) + 1) t"

definition filter_total :: "filter_tally \<Rightarrow> nat" where
  "filter_total t = sum_list (map snd t)"

definition by_label :: "filter_tally \<Rightarrow> (string \<times> nat) list" where
  "by_label t = fold (\<lambda>(reason, n). btree_insert (filter_reason_label reason) n) t []"

section \<open>Counters and gauges\<close>

record metrics =
  scans_total :: nat
  market_scan_failures_total :: nat
  candidates_found_total :: nat
  liquidations_attempted_total :: nat
  liquidations_succeeded_total :: nat
  liquidations_skipped_unfunded_total :: nat
  liquidations_failed_total :: nat
  last_successful_scan_unix :: nat
  reserved_by_asset :: "(string \<times> nat) list"
  markets_registered :: nat
  filtered_by_reason :: "(string \<times> nat) list"

definition metrics_default :: metrics where
  "metrics_default =
     \<lparr>scans_total = 0, market_scan_failures_total = 0, candidates_found_total = 0,
      liquidations_attempted_total = 0, liquidations_succeeded_total = 0,
      liquidations_skipped_unfunded_total = 0, liquidations_failed_total = 0,
      last_successful_scan_unix = 0, reserved_by_asset = [], markets_registered = 0, filtered_by_reason = []\<rparr>"

definition fetch_add :: "nat \<Rightarrow> nat \<Rightarrow> nat" where
  "fetch_add a b = (a + b) mod (u64_max + 1)"

definition inc_scan :: "metrics \<Rightarrow> metrics" where
  "inc_scan m = m\<lparr>scans_total := fetch_add (scans_total m) 1\<rparr>"

definition inc_market_scan_failure :: "metrics \<Rightarrow> metrics" where
  "inc_market_scan_failure m = m\<lparr>market_scan_failures_total := fetch_add (market_scan_failures_total m) 1\<rparr>"

definition add_round :: "round_summary \<Rightarrow> metrics \<Rightarrow> metrics" where
  "add_round s m =
     m\<lparr>candidates_found_total := fetch_add (candidates_found_total m) (rs_candidates s),
       liquidations_attempted_total := fetch_add (liquidations_attempted_total m) (rs_attempted s),
       liquidations_succeeded_total := fetch_add (liquidations_succeeded_total m) (rs_succeeded s),
       liquidations_failed_total := fetch_add (liquidations_failed_total m) (rs_failed s),
       liquidations_skipped_unfunded_total :=
         fetch_add (liquidations_skipped_unfunded_total m) (rs_skipped_unfunded s)\<rparr>"

definition mark_scan_success :: "nat \<Rightarrow> metrics \<Rightarrow> metrics" where
  "mark_scan_success now_unix m = m\<lparr>last_successful_scan_unix := now_unix\<rparr>"

definition set_registry_counts :: "nat \<Rightarrow> filter_tally \<Rightarrow> metrics \<Rightarrow> metrics" where
  "set_registry_counts registered filtered m =
     m\<lparr>markets_registered := registered,
       filtered_by_reason :=
         fold (\<lambda>(label, n). btree_insert label n) (by_label filtered)
           (map (\<lambda>(label, n). (label, 0)) (filtered_by_reason m))\<rparr>"

definition set_reserved_raw :: "string \<Rightarrow> nat \<Rightarrow> metrics \<Rightarrow> metrics" where
  "set_reserved_raw a amount m = m\<lparr>reserved_by_asset := btree_insert a amount (reserved_by_asset m)\<rparr>"

definition healthy :: "nat \<Rightarrow> metrics \<Rightarrow> nat \<Rightarrow> bool" where
  "healthy now_unix m max_age_secs \<longleftrightarrow>
     last_successful_scan_unix m \<noteq> 0 \<and> now_unix - last_successful_scan_unix m \<le> max_age_secs"

section \<open>The exposition text\<close>

definition escape_label_value :: "string \<Rightarrow> string" where
  "escape_label_value v =
     replace_char (CHR 0x0A) (CHR 0x5C # ''n'')
       (replace_char (CHR 0x22) [CHR 0x5C, CHR 0x22]
         (replace_char (CHR 0x5C) [CHR 0x5C, CHR 0x5C] v))"

definition metric_prefix :: string where "metric_prefix = ''templar_liquidator_''"

definition metric_lines :: "string \<Rightarrow> string \<Rightarrow> string \<Rightarrow> nat \<Rightarrow> string" where
  "metric_lines kind n help v =
     ''# HELP '' @ metric_prefix @ n @ '' '' @ help @ newline
     @ ''# TYPE '' @ metric_prefix @ n @ '' '' @ kind @ newline
     @ metric_prefix @ n @ '' '' @ show_nat v @ newline"

definition family_lines :: "string \<Rightarrow> string \<Rightarrow> string \<Rightarrow> (string \<times> nat) list \<Rightarrow> string" where
  "family_lines n help label al =
     ''# HELP '' @ metric_prefix @ n @ '' '' @ help @ newline
     @ ''# TYPE '' @ metric_prefix @ n @ '' gauge'' @ newline
     @ concat (map (\<lambda>(k, v). metric_prefix @ n @ ''{'' @ label @ ''='' @ [CHR 0x22] @ escape_label_value k
         @ [CHR 0x22] @ ''} '' @ show_nat v @ newline) al)"

definition render :: "metrics \<Rightarrow> string" where
  "render m = concat
     [metric_lines ''counter'' ''scans_total'' ''Liquidation scan cycles started.'' (scans_total m),
      metric_lines ''counter'' ''market_scan_failures_total''
        ''Individual market scan failures; one cycle can contribute several.'' (market_scan_failures_total m),
      metric_lines ''counter'' ''candidates_found_total''
        ''Positions that reached profitability evaluation or a submitted transaction.'' (candidates_found_total m),
      metric_lines ''counter'' ''liquidations_attempted_total''
        ''Liquidation transactions submitted (or simulated in dry-run).'' (liquidations_attempted_total m),
      metric_lines ''counter'' ''liquidations_succeeded_total''
        ''Liquidations that landed successfully.'' (liquidations_succeeded_total m),
      metric_lines ''counter'' ''liquidations_failed_total''
        ''Liquidations that failed after a transaction was submitted.'' (liquidations_failed_total m),
      metric_lines ''counter'' ''liquidations_skipped_unfunded_total''
        ''Liquidatable positions skipped for funding alone; topping up inventory is the fix.''
        (liquidations_skipped_unfunded_total m),
      metric_lines ''gauge'' ''last_successful_scan_timestamp_seconds''
        ''Unix time of the last cycle with at least one clean market scan; 0 = never.'' (last_successful_scan_unix m),
      family_lines ''inventory_reserved_raw''
        ''Raw token units currently reserved for in-flight liquidations, per asset.'' ''asset'' (reserved_by_asset m),
      metric_lines ''gauge'' ''markets_registered'' ''Markets admitted at the last registry refresh.'' (markets_registered m),
      family_lines ''markets_filtered''
        ''Markets filtered out at the last registry refresh, per reason.'' ''reason'' (filtered_by_reason m)]"

section \<open>Lemmas\<close>

lemma tally_record_total: "sorted_wrt (<) (map fst t) \<Longrightarrow> filter_total (tally_record r t) = filter_total t + 1"
proof -
  have "sum_list (map snd (btree_insert r v t)) + (case map_of t r of None \<Rightarrow> 0 | Some n \<Rightarrow> n) = sum_list (map snd t) + v"
    if "sorted_wrt (<) (map fst t)" for v :: nat
    using that
  proof (induction t)
    case (Cons kv t)
    obtain k n where kv: "kv = (k, n)" by (cases kv)
    have "map_of t r = None" if "r < k"
      using that Cons.prems kv by (force simp: map_of_eq_None_iff)
    with Cons kv show ?case by auto
  qed simp
  from this [of "(case map_of t r of None \<Rightarrow> 0 | Some n \<Rightarrow> n) + 1"]
  show "sorted_wrt (<) (map fst t) \<Longrightarrow> filter_total (tally_record r t) = filter_total t + 1"
    by (simp add: filter_total_def tally_record_def)
qed

lemma tally_record_sorted: "sorted_wrt (<) (map fst t) \<Longrightarrow> sorted_wrt (<) (map fst (tally_record r t))"
  by (simp add: tally_record_def sorted_btree_insert)

lemma by_label_apply:
  assumes "distinct (map fst t)"
  shows "map_of (by_label t) (filter_reason_label r) = map_of t r"
proof -
  have "map_of (fold (\<lambda>(reason, n). btree_insert (filter_reason_label reason) n) t acc) (filter_reason_label r)
      = (case map_of t r of Some n \<Rightarrow> Some n | None \<Rightarrow> map_of acc (filter_reason_label r))"
    if "distinct (map fst t)" for t acc
    using that
  proof (induction t arbitrary: acc)
    case (Cons kn t)
    obtain k n where kn: "kn = (k, n)" by (cases kn)
    have "map_of t r = None" if "r = k"
      using that Cons.prems kn by (simp add: map_of_eq_None_iff)
    with Cons kn show ?case by (auto simp: filter_reason_label_inj split: option.splits)
  qed simp
  from this [OF assms] show ?thesis by (simp add: by_label_def split: option.splits)
qed

text \<open>The escaped text read back.\<close>

fun unescape_label :: "string \<Rightarrow> string" where
  "unescape_label [] = []"
| "unescape_label (c # s) =
     (if c = CHR 0x5C then
        (case s of [] \<Rightarrow> [c] | d # t \<Rightarrow> (if d = CHR ''n'' then CHR 0x0A else d) # unescape_label t)
      else c # unescape_label s)"

lemma escape_label_Cons:
  "escape_label_value (c # s) =
     (if c = CHR 0x5C then [CHR 0x5C, CHR 0x5C] else if c = CHR 0x22 then [CHR 0x5C, CHR 0x22]
      else if c = CHR 0x0A then CHR 0x5C # ''n'' else [c]) @ escape_label_value s"
  by (simp add: escape_label_value_def)

lemma unescape_escape: "unescape_label (escape_label_value s) = s"
  by (induction s) (simp_all add: escape_label_Cons, simp add: escape_label_value_def)

lemma escape_label_clean: "CHR 0x0A \<notin> set (escape_label_value s)"
  by (induction s) (auto simp: escape_label_Cons, simp add: escape_label_value_def)

end
