(* ===== verification/Service.thy ===== *)
theory Service
  imports Metrics Oracle "HOL-Library.Sublist"
begin

text \<open>
  src/service.rs: the registry refresh that admits markets and builds their liquidators, the round over
  all markets with its failure fails, the batch swap of held collateral, and the cycle that composes
  them.

  The gateway's registry and version reads are \<open>registry_reads\<close>; the oracle side of the admission is the
  component Oracle itself, run on the state it shares with the markets. A round runs the markets' own
  \<open>run_liquidations\<close>. A \<open>HashMap\<close> that is iterated is an association list. Signals, the HTTP endpoint and
  the timers of the event loop are I/O; what they decide is the shutdown flag of the environment.
\<close>

section \<open>Configuration and state\<close>

record 'd service_config =
  cf_registries :: "account_id list"
  cf_strategy :: "'d strategy"
  cf_collateral_strategy :: collateral_strategy
  cf_dry_run :: bool
  cf_allowed_collateral_assets :: "asset list"
  cf_ignored_collateral_assets :: "asset list"
  cf_allowed_markets :: "account_id list"
  cf_ignored_markets :: "account_id list"
  cf_deprecated_markets :: "account_id list"
  cf_loop_liquidation :: bool
  cf_max_loop_iterations :: nat
  cf_min_swap_value_usd :: f64
  cf_batch_swap_on_cycle_start :: bool
  cf_swap_retry_config :: swap_retry_config
  cf_scan_failure_notify_threshold :: nat

record collateral_price_info =
  cpi_oracle_account :: account_id
  cpi_price_id :: price_id
  cpi_decimals :: int
  cpi_target_borrow_asset :: asset

record 'd service =
  sv_markets :: "(account_id \<times> 'd liquidator) list"
  sv_swap_provider :: "(asset \<Rightarrow> asset \<Rightarrow> bool) option"
  sv_collateral_price_map :: "(string \<times> collateral_price_info) list"
  sv_scan_failure_counts :: "account_id \<rightharpoonup> nat"
  sv_metrics :: metrics
  sv_oracle :: oracle_state

section \<open>Admission\<close>

fun dedupe_loop :: "account_id list \<Rightarrow> account_id list \<Rightarrow> account_id list" where
  "dedupe_loop seen [] = []"
| "dedupe_loop seen (market # rest) =
     (if market \<in> set seen then dedupe_loop seen rest else market # dedupe_loop (market # seen) rest)"

definition dedupe_deployments :: "account_id list \<Rightarrow> account_id list" where
  "dedupe_deployments listed = dedupe_loop [] listed"

definition market_rejection_reason ::
    "account_id \<Rightarrow> account_id list \<Rightarrow> account_id list \<Rightarrow> account_id list \<Rightarrow> (filter_reason \<times> string) option" where
  "market_rejection_reason market allowed_markets deprecated_markets ignored_markets =
     (if market \<in> set deprecated_markets then Some (Deprecated, ''deprecated market'')
      else if allowed_markets \<noteq> [] \<and> market \<notin> set allowed_markets then Some (Ignored, ''not in ALLOWED_MARKETS'')
      else if market \<in> set ignored_markets then Some (Ignored, ''ignored market'')
      else None)"

definition decimals_are_sane :: "int \<Rightarrow> int \<Rightarrow> bool" where
  "decimals_are_sane borrow_decimals collateral_decimals \<longleftrightarrow>
     (0 \<le> borrow_decimals \<and> borrow_decimals \<le> 38) \<and> (0 \<le> collateral_decimals \<and> collateral_decimals \<le> 38)"

definition should_process_market :: "'d service_config \<Rightarrow> 'd market_configuration \<Rightarrow> bool \<times> string option" where
  "should_process_market cf config =
     (let oc = price_oracle_configuration config; c = collateral_asset config in
      if \<not> decimals_are_sane (borrow_asset_decimals oc) (collateral_asset_decimals oc) then
        (False, Some (''asset decimals out of sane range [0, 38]: borrow='' @ show_int (borrow_asset_decimals oc)
           @ '', collateral='' @ show_int (collateral_asset_decimals oc)))
      else if c \<in> set (cf_ignored_collateral_assets cf) then
        (False, Some (''collateral '' @ apos @ c @ apos @ '' is in ignore list''))
      else if cf_allowed_collateral_assets cf \<noteq> [] \<and> c \<notin> set (cf_allowed_collateral_assets cf) then
        (False, Some (''collateral '' @ apos @ c @ apos @ '' not in allowlist''))
      else (True, None))"

record 'd registry_reads =
  rr_list_deployments :: "account_id \<Rightarrow> string + account_id list" \<comment> \<open>all pages of one registry\<close>
  rr_completion :: "account_id list \<Rightarrow> account_id list" \<comment> \<open>the order the registries answer in\<close>
  rr_configuration :: "account_id \<Rightarrow> string + 'd market_configuration"
  rr_version :: "account_id \<Rightarrow> string + string"
  rr_supported :: "(asset \<Rightarrow> asset \<Rightarrow> bool) option" \<comment> \<open>the reloaded token list's answers, if it could be read\<close>

text \<open>
  The registries are read concurrently: their lists are joined in the order of their answers, up to the
  first error.
\<close>

fun concat_deployments :: "'d registry_reads \<Rightarrow> account_id list \<Rightarrow> string + account_id list" where
  "concat_deployments rr [] = Inr []"
| "concat_deployments rr (registry # rest) =
     (case rr_list_deployments rr registry of
        Inl e \<Rightarrow> Inl e
      | Inr ids \<Rightarrow> (case concat_deployments rr rest of Inl e \<Rightarrow> Inl e | Inr others \<Rightarrow> Inr (ids @ others)))"

definition list_all_deployments :: "'d registry_reads \<Rightarrow> account_id list \<Rightarrow> string + account_id list" where
  "list_all_deployments rr registries = concat_deployments rr (rr_completion rr registries)"

definition market_price_ids :: "'d market_configuration \<Rightarrow> price_id list" where
  "market_price_ids config =
     (let oc = price_oracle_configuration config in [borrow_asset_price_id oc, collateral_asset_price_id oc])"

text \<open>One deployment: why it is filtered, or its configuration and version.\<close>

definition admit_market ::
    "('x, 'act) oracle_env \<Rightarrow> fetcher \<Rightarrow> 'd service_config \<Rightarrow> 'd registry_reads \<Rightarrow> account_id \<Rightarrow> oracle_state
     \<Rightarrow> (filter_reason + 'd market_configuration \<times> market_version) \<times> oracle_state" where
  "admit_market E F cf rr market st =
     (case market_rejection_reason market (cf_allowed_markets cf) (cf_deprecated_markets cf) (cf_ignored_markets cf) of
        Some (label, reason) \<Rightarrow> (Inl label, st)
      | None \<Rightarrow>
     (case rr_configuration rr market of
        Inl e \<Rightarrow> (Inl (if gateway_is_method_not_found e then NotAMarket else ConfigReadError), st)
      | Inr config \<Rightarrow>
     (case rr_version rr market of
        Inl e \<Rightarrow> (Inl (if gateway_is_method_not_found e then VersionUnsupported else VersionReadError), st)
      | Inr version_string \<Rightarrow>
     (case market_version_parse version_string of
        None \<Rightarrow> (Inl VersionUnsupported, st)
      | Some version \<Rightarrow>
          if version < MIN_SUPPORTED then (Inl VersionUnsupported, st)
          else
          let oracle_account = oracle_account_id (price_oracle_configuration config);
              st1 = detect_and_register_proxy_oracle E oracle_account st in
          (case offchain_priceable E F oracle_account (market_price_ids config) st1 of
             (Inl e, st2) \<Rightarrow> (Inl OracleProbeError, st2)
           | (Inr (Some reason), st2) \<Rightarrow> (Inl OracleUnpriceable, st2)
           | (Inr None, st2) \<Rightarrow>
               if fst (should_process_market cf config) then (Inr (config, version), st2)
               else (Inl AssetFilter, st2))))))"

fun admission_loop ::
    "('x, 'act) oracle_env \<Rightarrow> fetcher \<Rightarrow> 'd service_config \<Rightarrow> 'd registry_reads \<Rightarrow> account_id list \<Rightarrow> filter_tally
     \<Rightarrow> oracle_state \<Rightarrow> (account_id \<times> 'd market_configuration \<times> market_version) list \<times> filter_tally \<times> oracle_state" where
  "admission_loop E F cf rr [] filtered st = ([], filtered, st)"
| "admission_loop E F cf rr (market # rest) filtered st =
     (case admit_market E F cf rr market st of
        (Inl reason, st1) \<Rightarrow> admission_loop E F cf rr rest (tally_record reason filtered) st1
      | (Inr cv, st1) \<Rightarrow>
          (case admission_loop E F cf rr rest filtered st1 of
             (configs, filtered', st') \<Rightarrow> ((market, cv) # configs, filtered', st')))"

section \<open>The refresh\<close>

definition liquidator_new ::
    "'d service_config \<Rightarrow> (asset \<Rightarrow> asset \<Rightarrow> bool) option \<Rightarrow> account_id \<Rightarrow> 'd market_configuration
     \<Rightarrow> market_version \<Rightarrow> 'd liquidator" where
  "liquidator_new cf provider market config version =
     \<lparr>lq_market = market, lq_config = config, lq_strategy = cf_strategy cf,
      lq_loop_liquidation = cf_loop_liquidation cf, lq_max_loop_iterations = cf_max_loop_iterations cf,
      lq_market_version = Some version,
      lq_executor =
        \<lparr>ex_market = market, ex_dry_run = cf_dry_run cf, ex_collateral_strategy = cf_collateral_strategy cf,
         ex_swap_provider = provider, ex_swap_retry_config = cf_swap_retry_config cf,
         ex_min_swap_value_usd = cf_min_swap_value_usd cf,
         ex_collateral_decimals = collateral_asset_decimals (price_oracle_configuration config),
         ex_borrow_decimals = borrow_asset_decimals (price_oracle_configuration config)\<rparr>\<rparr>"

definition KNOWN_USDC_IDS :: "string list" where
  "KNOWN_USDC_IDS =
     [''17208628f84f5d6ad33f0da3bbbeb27ffcb398eac501a31bd6ad2011e36133a1'',
      ''eth-0xa0b86991c6218b36c1d19d4a2e9eb0ce3606eb48.omft.near'',
      ''sol-5ce3bf3a31af18be40ba30f721101b4341690186.omft.near'',
      ''1100_111bzqbb65gxapavoxqmmcgyo5os3txhqs1uh1cgahkquetuq1tju'',
      ''usdc.near'',
      ''usdc.fakes.testnet'']"

definition is_usdc_asset :: "asset \<Rightarrow> bool" where
  "is_usdc_asset a \<longleftrightarrow> list_ex (\<lambda>segment. segment \<in> set KNOWN_USDC_IDS) (split_on (\<lambda>c. c = CHR '':'') (to_lower a))"

definition price_info_of :: "'d market_configuration \<Rightarrow> collateral_price_info" where
  "price_info_of config =
     (let oc = price_oracle_configuration config in
      \<lparr>cpi_oracle_account = oracle_account_id oc, cpi_price_id = collateral_asset_price_id oc,
       cpi_decimals = collateral_asset_decimals oc, cpi_target_borrow_asset = borrow_asset config\<rparr>)"

definition build_collateral_price_map ::
    "(account_id \<times> 'd liquidator) list \<Rightarrow> (string \<times> collateral_price_info) list" where
  "build_collateral_price_map markets =
     fold (\<lambda>(market, lq) mp.
        let config = lq_config lq; key = collateral_asset config;
            existing_is_usdc = (case map_of mp key of Some info \<Rightarrow> is_usdc_asset (cpi_target_borrow_asset info) | None \<Rightarrow> False)
        in if existing_is_usdc then mp else AList.update key (price_info_of config) mp) markets []"

text \<open>
  The token cache of the swap provider is one shared cell (an \<open>Arc\<close>): every liquidator holds a clone of the
  provider, so a reload shows in all of them. A list that could not be read leaves the cache as it was.
\<close>

definition share_tokens :: "(asset \<Rightarrow> asset \<Rightarrow> bool) \<Rightarrow> 'd liquidator \<Rightarrow> 'd liquidator" where
  "share_tokens supports lq =
     lq\<lparr>lq_executor := (lq_executor lq)\<lparr>ex_swap_provider := map_option (\<lambda>_. supports) (ex_swap_provider (lq_executor lq))\<rparr>\<rparr>"

definition reload_tokens :: "(asset \<Rightarrow> asset \<Rightarrow> bool) option \<Rightarrow> 'd service \<Rightarrow> 'd service" where
  "reload_tokens answer sv =
     (case sv_swap_provider sv of
        None \<Rightarrow> sv
      | Some _ \<Rightarrow>
     (case answer of
        None \<Rightarrow> sv
      | Some supports \<Rightarrow>
          sv\<lparr>sv_swap_provider := Some supports,
             sv_markets := map (\<lambda>(market, lq). (market, share_tokens supports lq)) (sv_markets sv)\<rparr>))"

text \<open>On success the markets are replaced, the inventory learns the assets, the gauges are set and the
  token list is reloaded; on a listing error nothing changes.\<close>

definition refresh_registry ::
    "('x, 'act) oracle_env \<Rightarrow> fetcher \<Rightarrow> 'd service_config \<Rightarrow> 'd registry_reads \<Rightarrow> nat \<Rightarrow> 'd service \<Rightarrow> world
     \<Rightarrow> (liquidator_error, unit) outcome \<times> 'd service \<times> world" where
  "refresh_registry E F cf rr now sv w =
     (case list_all_deployments rr (cf_registries cf) of
        Inl e \<Rightarrow> (Err (ListDeploymentsError (rpc_error_from_gateway e)), sv, w)
      | Inr listed \<Rightarrow>
          let (configs, filtered, st) = admission_loop E F cf rr (dedupe_deployments listed) [] (sv_oracle sv);
              cs = map (\<lambda>(market, config, version). config) configs;
              w1 = w\<lparr>w_inventory := discover_collateral_assets now cs (discover_assets now cs (w_inventory w))\<rparr>;
              supported = map (\<lambda>(market, config, version).
                (market, liquidator_new cf (sv_swap_provider sv) market config version)) configs
          in (Ok (),
              reload_tokens (rr_supported rr)
                (sv\<lparr>sv_markets := supported,
                    sv_collateral_price_map := build_collateral_price_map supported,
                    sv_metrics := set_registry_counts (length supported) filtered (sv_metrics sv),
                    sv_oracle := st\<rparr>), w1))"

section \<open>The round over all markets\<close>

definition is_rate_limit_error :: "liquidator_error \<Rightarrow> bool" where
  "is_rate_limit_error e = message_indicates_rate_limit (liquidator_error_to_string e)"

definition failure_count :: "(account_id \<rightharpoonup> nat) \<Rightarrow> account_id \<Rightarrow> nat" where
  "failure_count fails market = (case fails market of None \<Rightarrow> 0 | Some n \<Rightarrow> n)"

text \<open>A clean scan clears the market's count; it announces a recovery if an alert had been due.\<close>

definition scan_succeeded :: "nat \<Rightarrow> account_id \<Rightarrow> (account_id \<rightharpoonup> nat) \<Rightarrow> (account_id \<rightharpoonup> nat) \<times> nat option" where
  "scan_succeeded threshold market fails =
     (let prev = failure_count fails market
      in (fails(market := None), if 0 < threshold \<and> threshold \<le> prev then Some prev else None))"

text \<open>A failed scan fails (a \<open>u32\<close>, whose overflow panics); it alerts when the count reaches the threshold.\<close>

definition scan_failed ::
    "nat \<Rightarrow> account_id \<Rightarrow> (account_id \<rightharpoonup> nat) \<Rightarrow> ('e, (account_id \<rightharpoonup> nat) \<times> nat option) outcome" where
  "scan_failed threshold market fails =
     (let n = failure_count fails market + 1
      in if u32_max < n then Panic
         else Ok (fails(market \<mapsto> n), if 0 < threshold \<and> n = threshold then Some n else None))"

record ('d, 'p) service_env =
  se_params :: "account_id \<Rightarrow> ('d, 'p) params"
  se_env :: env
  se_pow10 :: "int \<Rightarrow> f64"
  se_oracle_prices :: "event list \<Rightarrow> account_id \<Rightarrow> price_id list \<Rightarrow> liquidator_error + oracle_response"
  se_balance :: "event list \<Rightarrow> asset \<Rightarrow> string + nat"
  se_clk :: "event list \<Rightarrow> nat \<Rightarrow> nat"
  se_unix_secs :: "event list \<Rightarrow> nat"

record round_acc =
  ra_summary :: round_summary
  ra_counts :: "account_id \<rightharpoonup> nat"
  ra_metrics :: metrics

text \<open>What one market's result does to the summary, the fails, the metrics and the trace.\<close>

definition market_scanned ::
    "nat \<Rightarrow> account_id \<Rightarrow> round_summary \<Rightarrow> round_acc \<Rightarrow> world \<Rightarrow> (liquidator_error, round_acc) outcome \<times> world" where
  "market_scanned threshold market s acc w =
     (case obind (round_summary_merge (ra_summary acc) s) (\<lambda>merged.
           obind (add_u64 (rs_markets_scanned_ok merged) 1) (\<lambda>n.
           Ok (merged\<lparr>rs_markets_scanned_ok := n\<rparr>))) of
        Ok summary \<Rightarrow>
          let (fails, recovered) = scan_succeeded threshold market (ra_counts acc) in
          (Ok (acc\<lparr>ra_summary := summary, ra_counts := fails\<rparr>),
           case recovered of Some prev \<Rightarrow> emit (EvNotifyScanRecovered market prev) w | None \<Rightarrow> w)
      | Err e \<Rightarrow> (Err e, w)
      | Panic \<Rightarrow> (Panic, w))"

definition market_failed ::
    "nat \<Rightarrow> account_id \<Rightarrow> liquidator_error \<Rightarrow> round_acc \<Rightarrow> world \<Rightarrow> (liquidator_error, round_acc) outcome \<times> world" where
  "market_failed threshold market e acc w =
     (case add_u64 (rs_markets_failed (ra_summary acc)) 1 of
        Ok n \<Rightarrow>
          let w1 = (if is_rate_limit_error e then emit (EvPause 60000) w else w) in
          (case scan_failed threshold market (ra_counts acc) of
             Ok (fails, alert) \<Rightarrow>
               (Ok \<lparr>ra_summary = (ra_summary acc)\<lparr>rs_markets_failed := n\<rparr>, ra_counts = fails,
                    ra_metrics = inc_market_scan_failure (ra_metrics acc)\<rparr>,
                case alert of
                  Some c \<Rightarrow> emit (EvNotifyScanFailures market c (liquidator_error_to_string e)) w1
                | None \<Rightarrow> w1)
           | Err e' \<Rightarrow> (Err e', w1)
           | Panic \<Rightarrow> (Panic, w1))
      | Err e' \<Rightarrow> (Err e', w)
      | Panic \<Rightarrow> (Panic, w))"

fun round_loop ::
    "('d, 'p) service_env \<Rightarrow> nat \<Rightarrow> (account_id \<times> 'd liquidator) list \<Rightarrow> account_id list \<Rightarrow> round_acc \<Rightarrow> world
     \<Rightarrow> (liquidator_error, round_acc) outcome \<times> world" where
  "round_loop SE threshold markets [] acc w = (Ok acc, w)"
| "round_loop SE threshold markets (market # rest) acc w =
     (if e_shutdown (se_env SE) (w_trace w) then (Ok acc, w)
      else
      case map_of markets market of
        None \<Rightarrow> round_loop SE threshold markets rest acc w
      | Some lq \<Rightarrow>
          (case run_liquidations (se_params SE market) lq w of
             (Panic, w1) \<Rightarrow> (Panic, w1)
           | (result, w1) \<Rightarrow>
               (case (case result of
                        Ok s \<Rightarrow> market_scanned threshold market s acc w1
                      | Err e \<Rightarrow> market_failed threshold market e acc w1
                      | Panic \<Rightarrow> (Panic, w1)) of
                  (Ok acc', w2) \<Rightarrow>
                    round_loop SE threshold markets rest acc' (if rest \<noteq> [] then emit (EvPause 5000) w2 else w2)
                | (Err e, w2) \<Rightarrow> (Err e, w2)
                | (Panic, w2) \<Rightarrow> (Panic, w2))))"

definition run_liquidation_round ::
    "('d, 'p) service_env \<Rightarrow> 'd service_config \<Rightarrow> 'd service \<Rightarrow> world
     \<Rightarrow> (liquidator_error, round_summary \<times> 'd service) outcome \<times> world" where
  "run_liquidation_round SE cf sv w =
     (case round_loop SE (cf_scan_failure_notify_threshold cf) (sv_markets sv) (map fst (sv_markets sv))
             \<lparr>ra_summary = round_summary_default, ra_counts = sv_scan_failure_counts sv, ra_metrics = sv_metrics sv\<rparr> w of
        (Ok acc, w1) \<Rightarrow>
          (Ok (ra_summary acc, sv\<lparr>sv_scan_failure_counts := ra_counts acc, sv_metrics := ra_metrics acc\<rparr>), w1)
      | (Err e, w1) \<Rightarrow> (Err e, w1)
      | (Panic, w1) \<Rightarrow> (Panic, w1))"

section \<open>The batch swap\<close>

type_synonym price_map = "(string \<times> collateral_price_info) list"

definition group_by_oracle :: "price_map \<Rightarrow> string list \<Rightarrow> (account_id \<times> (string \<times> price_id) list) list" where
  "group_by_oracle mp asset_keys =
     fold (\<lambda>key groups. case map_of mp key of
             None \<Rightarrow> groups
           | Some info \<Rightarrow>
               AList.update (cpi_oracle_account info)
                 ((case map_of groups (cpi_oracle_account info) of None \<Rightarrow> [] | Some g \<Rightarrow> g)
                    @ [(key, cpi_price_id info)]) groups) asset_keys []"

text \<open>An unusable price is left out, as a missing one is.\<close>

definition insert_usd_price ::
    "(int \<Rightarrow> f64) \<Rightarrow> oracle_response \<Rightarrow> string \<times> price_id \<Rightarrow> (string \<rightharpoonup> f64) \<Rightarrow> (string \<rightharpoonup> f64)" where
  "insert_usd_price pow10 response kp prices =
     (case response (snd kp) of
        Some (Some p) \<Rightarrow> (case price_to_usd pow10 p of Ok usd \<Rightarrow> prices(fst kp \<mapsto> usd) | _ \<Rightarrow> prices)
      | _ \<Rightarrow> prices)"

fun fetch_prices_loop ::
    "('d, 'p) service_env \<Rightarrow> (account_id \<times> (string \<times> price_id) list) list \<Rightarrow> (string \<rightharpoonup> f64) \<Rightarrow> world
     \<Rightarrow> (string \<rightharpoonup> f64) \<times> world" where
  "fetch_prices_loop SE [] prices w = (prices, w)"
| "fetch_prices_loop SE ((oracle_id, assets) # rest) prices w =
     (let w1 = emit (EvPricesFetched oracle_id (map snd assets)) w in
      case se_oracle_prices SE (w_trace w) oracle_id (map snd assets) of
        Inl e \<Rightarrow> fetch_prices_loop SE rest prices w1
      | Inr response \<Rightarrow>
          fetch_prices_loop SE rest (fold (insert_usd_price (se_pow10 SE) response) assets prices) w1)"

definition fetch_collateral_usd_prices ::
    "('d, 'p) service_env \<Rightarrow> price_map \<Rightarrow> string list \<Rightarrow> world \<Rightarrow> (string \<rightharpoonup> f64) \<times> world" where
  "fetch_collateral_usd_prices SE mp asset_keys w = fetch_prices_loop SE (group_by_oracle mp asset_keys) Map.empty w"

definition collateral_usd_value :: "(int \<Rightarrow> f64) \<Rightarrow> price_map \<Rightarrow> string \<Rightarrow> nat \<Rightarrow> f64 \<Rightarrow> f64" where
  "collateral_usd_value pow10 mp asset_key raw_amount usd_price =
     (let decimals = (case map_of mp asset_key of Some info \<Rightarrow> cpi_decimals info | None \<Rightarrow> 8)
      in f64_mul (f64_div (f64_of_nat raw_amount) (pow10 decimals)) usd_price)"

text \<open>Of a failed batch swap only an unknown outcome alerts.\<close>

fun batch_failure_notifies :: "swap_error_kind \<Rightarrow> bool" where
  "batch_failure_notifies (PostDeposit (Indeterminate _ _)) \<longleftrightarrow> True"
| "batch_failure_notifies _ \<longleftrightarrow> False"

text \<open>Whether one holding is swapped: the target and the value it would be swapped at.\<close>

definition batch_candidate ::
    "('d, 'p) service_env \<Rightarrow> 'd service_config \<Rightarrow> price_map \<Rightarrow> (string \<rightharpoonup> f64) \<Rightarrow> (asset \<Rightarrow> asset \<Rightarrow> bool)
     \<Rightarrow> asset \<Rightarrow> nat \<Rightarrow> collateral_price_info option" where
  "batch_candidate SE cf mp prices supports c bal =
     (case prices c of
        None \<Rightarrow> None
      | Some usd_price \<Rightarrow>
          let usd_value = collateral_usd_value (se_pow10 SE) mp c bal usd_price in
          if \<not> is_finite usd_value then None
          else if f64_lt usd_value (cf_min_swap_value_usd cf) then None
          else
          (case map_of mp c of
             None \<Rightarrow> None
           | Some info \<Rightarrow> if supports c (cpi_target_borrow_asset info) then Some info else None))"

fun batch_loop ::
    "('d, 'p) service_env \<Rightarrow> 'd service_config \<Rightarrow> price_map \<Rightarrow> (string \<rightharpoonup> f64) \<Rightarrow> (asset \<Rightarrow> asset \<Rightarrow> bool)
     \<Rightarrow> (asset \<times> nat) list \<Rightarrow> nat \<Rightarrow> nat \<Rightarrow> world \<Rightarrow> (nat \<times> nat) \<times> world" where
  "batch_loop SE cf mp prices supports [] swapped skipped w = ((swapped, skipped), w)"
| "batch_loop SE cf mp prices supports ((c, bal) # rest) swapped skipped w =
     (if e_shutdown (se_env SE) (w_trace w) then ((swapped, skipped), w)
      else
      case batch_candidate SE cf mp prices supports c bal of
        None \<Rightarrow> batch_loop SE cf mp prices supports rest swapped (skipped + 1) w
      | Some info \<Rightarrow>
          if cf_dry_run cf then batch_loop SE cf mp prices supports rest (swapped + 1) skipped w
          else
          (case swap_with_retry (cf_swap_retry_config cf) (''batch:'' @ c)
                  (swap_operation (se_env SE) c (cpi_target_borrow_asset info) bal) w of
             (Inr _, w1, lg) \<Rightarrow> batch_loop SE cf mp prices supports rest (swapped + 1) skipped w1
           | (Inl e, w1, lg) \<Rightarrow>
               batch_loop SE cf mp prices supports rest swapped (skipped + 1)
                 (if batch_failure_notifies (swap_kind e)
                  then emit (EvNotifySwap ''batch'' (Failed (short_asset_name c)
                         (short_asset_name (cpi_target_borrow_asset info))
                         (format_amount_short (se_pow10 SE) bal (cpi_decimals info) c) (swap_error_to_string e))) w1
                  else w1)))"

definition batch_swap_collateral :: "('d, 'p) service_env \<Rightarrow> 'd service_config \<Rightarrow> 'd service \<Rightarrow> world \<Rightarrow> world" where
  "batch_swap_collateral SE cf sv w =
     (let holdings = collateral_holdings (w_inventory w) in
      if holdings = [] then w
      else
      case fetch_collateral_usd_prices SE (sv_collateral_price_map sv) (map fst holdings) w of
        (prices, w1) \<Rightarrow>
          (case sv_swap_provider sv of
             None \<Rightarrow> w1
           | Some supports \<Rightarrow>
               snd (batch_loop SE cf (sv_collateral_price_map sv) prices supports holdings 0 0 w1)))"

section \<open>The cycle\<close>

definition refresh_collateral_in :: "('d, 'p) service_env \<Rightarrow> world \<Rightarrow> world" where
  "refresh_collateral_in SE w =
     emit EvCollateralRefreshed
       (w\<lparr>w_inventory := snd (refresh_collateral (se_clk SE (w_trace w)) (se_balance SE (w_trace w)) (w_inventory w))\<rparr>)"

definition refresh_inventory :: "('d, 'p) service_env \<Rightarrow> world \<Rightarrow> world" where
  "refresh_inventory SE w =
     emit EvBorrowRefreshed
       (w\<lparr>w_inventory := snd (refresh (se_clk SE (w_trace w)) (se_balance SE (w_trace w)) (w_inventory w))\<rparr>)"

definition liquidation_cycle ::
    "('d, 'p) service_env \<Rightarrow> 'd service_config \<Rightarrow> 'd service \<Rightarrow> world \<Rightarrow> (liquidator_error, 'd service) outcome \<times> world" where
  "liquidation_cycle SE cf sv w =
     (let sv1 = sv\<lparr>sv_metrics := inc_scan (sv_metrics sv)\<rparr>;
          w1 = refresh_collateral_in SE w;
          w2 = (if cf_batch_swap_on_cycle_start cf then batch_swap_collateral SE cf sv1 w1 else w1);
          w3 = refresh_inventory SE w2 in
      case run_liquidation_round SE cf sv1 w3 of
        (Ok (summary, sv2), w4) \<Rightarrow>
          let sv3 = sv2\<lparr>sv_metrics := add_round summary (sv_metrics sv2)\<rparr>;
              w5 = refresh_collateral_in SE w4
          in (Ok (if 0 < rs_markets_scanned_ok summary
                  then sv3\<lparr>sv_metrics := mark_scan_success (se_unix_secs SE (w_trace w5)) (sv_metrics sv3)\<rparr>
                  else sv3), w5)
      | (Err e, w4) \<Rightarrow> (Err e, w4)
      | (Panic, w4) \<Rightarrow> (Panic, w4))"

text \<open>\<open>run_once\<close>: a failed refresh or an empty registry is the error of the run.\<close>

definition run_once ::
    "('x, 'act) oracle_env \<Rightarrow> fetcher \<Rightarrow> ('d, 'p) service_env \<Rightarrow> 'd service_config \<Rightarrow> 'd registry_reads
     \<Rightarrow> nat \<Rightarrow> 'd service \<Rightarrow> world \<Rightarrow> (liquidator_error, unit) outcome \<times> 'd service \<times> world" where
  "run_once E F SE cf rr now sv w =
     (case refresh_registry E F cf rr now sv w of
        (Ok _, sv1, w1) \<Rightarrow>
          if sv_markets sv1 = [] then (Err NoMarkets, sv1, w1)
          else
          (case liquidation_cycle SE cf sv1 w1 of
             (Ok sv2, w2) \<Rightarrow> (Ok (), sv2, w2)
           | (Err e, w2) \<Rightarrow> (Err e, sv1, w2)
           | (Panic, w2) \<Rightarrow> (Panic, sv1, w2))
      | (Err e, sv1, w1) \<Rightarrow> (Err e, sv1, w1)
      | (Panic, sv1, w1) \<Rightarrow> (Panic, sv1, w1))"

section \<open>Lemmas: admission\<close>

lemma dedupe_loop_props:
  "distinct (dedupe_loop seen xs) \<and> set (dedupe_loop seen xs) = set xs - set seen
   \<and> subseq (dedupe_loop seen xs) xs"
proof (induction xs arbitrary: seen)
  case (Cons x xs)
  from Cons [of seen] Cons [of "x # seen"] show ?case by auto
qed simp

definition tally_ok :: "filter_tally \<Rightarrow> bool" where
  "tally_ok t \<longleftrightarrow> sorted_wrt (<) (map fst t)"

lemma tally_ok_record [simp]: "tally_ok t \<Longrightarrow> tally_ok (tally_record r t)"
  by (simp add: tally_ok_def tally_record_sorted)

lemma tally_ok_distinct: "tally_ok t \<Longrightarrow> distinct (map fst t)"
  by (simp add: tally_ok_def strict_sorted_iff)

text \<open>What admits a market.\<close>

definition admissible ::
    "('x, 'act) oracle_env \<Rightarrow> fetcher \<Rightarrow> 'd service_config \<Rightarrow> 'd registry_reads \<Rightarrow> account_id
     \<Rightarrow> 'd market_configuration \<Rightarrow> market_version \<Rightarrow> bool" where
  "admissible E F cf rr market config version \<longleftrightarrow>
     market \<notin> set (cf_deprecated_markets cf) \<and> market \<notin> set (cf_ignored_markets cf)
     \<and> (cf_allowed_markets cf = [] \<or> market \<in> set (cf_allowed_markets cf))
     \<and> rr_configuration rr market = Inr config
     \<and> (\<exists>vtext. rr_version rr market = Inr vtext \<and> market_version_parse vtext = Some version)
     \<and> MIN_SUPPORTED \<le> version
     \<and> decimals_are_sane (borrow_asset_decimals (price_oracle_configuration config))
         (collateral_asset_decimals (price_oracle_configuration config))
     \<and> collateral_asset config \<notin> set (cf_ignored_collateral_assets cf)
     \<and> (cf_allowed_collateral_assets cf = [] \<or> collateral_asset config \<in> set (cf_allowed_collateral_assets cf))
     \<and> (\<forall>pid \<in> set (market_price_ids config). \<exists>tr sources.
           oe_get_proxy E tr (oracle_account_id (price_oracle_configuration config)) pid = Inr (Some sources)
           \<and> (\<exists>s \<in> set sources. composable (offchain_legs_of F) s))"

lemma offchain_priceable_sound:
  assumes "offchain_priceable E F a ids st = (Inr None, st')" "pid \<in> set ids"
  shows "\<exists>tr sources. oe_get_proxy E tr a pid = Inr (Some sources)
           \<and> (\<exists>s \<in> set sources. composable (offchain_legs_of F) s)"
proof -
  obtain r st1 where r: "is_proxy_oracle E a st = (r, st1)" by fastforce
  obtain plans st2 where plans: "resolve_offchain_plans E F a ids [] st1 = (plans, st2)" by fastforce
  have "offchain_admission ids plans = None"
    using assms(1) r plans by (cases r) (auto simp: offchain_priceable_def split: bool.splits)
  then obtain cs where cs: "(pid, cs) \<in> set plans" "cs \<noteq> []"
    using assms(2) by (force simp: offchain_admission_def list_all_iff list_ex_iff split: if_splits)
  from resolve_offchain_plans_sound [OF plans cs(1)] obtain tr sources
    where "oe_get_proxy E tr a pid = Inr (Some sources)" "cs = plan_offchain_sources sources (offchain_legs_of F)"
    by auto
  with cs(2) plan_offchain_sources_empty show ?thesis by metis
qed

lemma market_rejection_None:
  "market_rejection_reason market allowed deprecated ignored = None \<longleftrightarrow>
     market \<notin> set deprecated \<and> market \<notin> set ignored \<and> (allowed = [] \<or> market \<in> set allowed)"
  by (auto simp: market_rejection_reason_def)

lemma should_process_iff:
  "fst (should_process_market cf config) \<longleftrightarrow>
     decimals_are_sane (borrow_asset_decimals (price_oracle_configuration config))
         (collateral_asset_decimals (price_oracle_configuration config))
     \<and> collateral_asset config \<notin> set (cf_ignored_collateral_assets cf)
     \<and> (cf_allowed_collateral_assets cf = [] \<or> collateral_asset config \<in> set (cf_allowed_collateral_assets cf))"
  by (auto simp: should_process_market_def Let_def)

lemma admit_market_sound:
  assumes "admit_market E F cf rr market st = (Inr (config, version), st')"
  shows "admissible E F cf rr market config version"
proof -
  have none: "market_rejection_reason market (cf_allowed_markets cf) (cf_deprecated_markets cf) (cf_ignored_markets cf) = None"
    using assms by (auto simp: admit_market_def split: option.splits)
  have cfg: "rr_configuration rr market = Inr config"
    using assms none by (auto simp: admit_market_def Let_def split: option.splits sum.splits prod.splits if_splits)
  obtain vtext where vtext: "rr_version rr market = Inr vtext"
    using assms none cfg by (auto simp: admit_market_def Let_def split: option.splits sum.splits prod.splits if_splits)
  have ver: "market_version_parse vtext = Some version"
    using assms none cfg vtext by (auto simp: admit_market_def Let_def split: option.splits sum.splits prod.splits if_splits)
  let ?a = "oracle_account_id (price_oracle_configuration config)"
  obtain r st2 where pr: "offchain_priceable E F ?a (market_price_ids config) (snd (is_proxy_oracle E ?a st)) = (r, st2)"
    by fastforce
  have rest: "\<not> version < MIN_SUPPORTED" "r = Inr None" "fst (should_process_market cf config)"
    using assms none cfg vtext ver pr
    by (auto simp: admit_market_def Let_def split: option.splits sum.splits prod.splits if_splits)
  have "MIN_SUPPORTED \<le> version" using rest(1) by simp
  moreover have "\<forall>pid \<in> set (market_price_ids config). \<exists>tr sources.
           oe_get_proxy E tr ?a pid = Inr (Some sources) \<and> (\<exists>s \<in> set sources. composable (offchain_legs_of F) s)"
    using offchain_priceable_sound pr rest(2) by blast
  ultimately show ?thesis
    using none cfg vtext ver rest(3) unfolding admissible_def market_rejection_None should_process_iff by blast
qed

lemma admission_loop_props:
  assumes "admission_loop E F cf rr markets t st = (cs, t', st')" "tally_ok t"
  shows "tally_ok t' \<and> filter_total t' + length cs = filter_total t + length markets
    \<and> subseq (map fst cs) markets
    \<and> (\<forall>(market, config, version) \<in> set cs. admissible E F cf rr market config version)"
  using assms
proof (induction markets arbitrary: t st cs t' st')
  case (Cons m ms)
  obtain r st1 where r: "admit_market E F cf rr m st = (r, st1)" by fastforce
  show ?case
  proof (cases r)
    case (Inl reason)
    with Cons.prems r have "admission_loop E F cf rr ms (tally_record reason t) st1 = (cs, t', st')" by simp
    from Cons.IH [OF this] Cons.prems(2) show ?thesis
      by (auto simp: tally_record_total tally_ok_def tally_record_sorted)
  next
    case (Inr cv)
    obtain cs1 where cs1: "admission_loop E F cf rr ms t st1 = (cs1, t', st')" "cs = (m, cv) # cs1"
      using Cons.prems(1) r Inr by (auto split: prod.splits)
    obtain config version where cv: "cv = (config, version)" by (cases cv)
    with r Inr have "admissible E F cf rr m config version" by (simp add: admit_market_sound)
    with Cons.IH [OF cs1(1) Cons.prems(2)] cs1(2) cv show ?thesis by simp
  qed
qed simp

lemma gauge_after_set:
  assumes "tally_ok t"
  shows "map_of (filtered_by_reason (set_registry_counts n t m)) (filter_reason_label r) =
     (case map_of t r of Some k \<Rightarrow> Some k
      | None \<Rightarrow> if map_of (filtered_by_reason m) (filter_reason_label r) = None then None else Some 0)"
proof -
  have fold: "map_of (fold (\<lambda>(label, n). btree_insert label n) al acc) k =
      (case map_of (rev al) k of Some v \<Rightarrow> Some v | None \<Rightarrow> map_of acc k)" for al :: "(string \<times> nat) list" and acc k
    by (induction al arbitrary: acc) (auto simp: map_add_def split: option.splits)
  have "sorted_wrt (<) (map fst (by_label t))"
  proof -
    have "sorted_wrt (<) (map fst (fold (\<lambda>(reason, n). btree_insert (filter_reason_label reason) n) t acc))"
      if "sorted_wrt (<) (map fst acc)" for acc :: "(string \<times> nat) list"
      using that by (induction t arbitrary: acc) (auto simp: sorted_btree_insert)
    then show ?thesis by (simp add: by_label_def)
  qed
  then have "distinct (map fst (by_label t))" by (simp add: strict_sorted_iff)
  then have "map_of (rev (by_label t)) = map_of (by_label t)"
    by (intro map_of_inject_set [THEN iffD2]) (simp_all flip: rev_map)
  moreover have "map_of (map (\<lambda>(label, n). (label, 0 :: nat)) al) k = map_option (\<lambda>_. 0) (map_of al k)"
    for al :: "(string \<times> nat) list" and k
    by (induction al) auto
  ultimately show ?thesis
    using by_label_apply [OF tally_ok_distinct [OF assms], of r]
    by (simp add: set_registry_counts_def fold split: option.splits)
qed

text \<open>A reload only changes which pairs the provider takes.\<close>

lemma reload_tokens_keeps [simp]:
  "sv_collateral_price_map (reload_tokens answer sv) = sv_collateral_price_map sv"
  "sv_scan_failure_counts (reload_tokens answer sv) = sv_scan_failure_counts sv"
  "sv_metrics (reload_tokens answer sv) = sv_metrics sv"
  "sv_oracle (reload_tokens answer sv) = sv_oracle sv"
  "map fst (sv_markets (reload_tokens answer sv)) = map fst (sv_markets sv)"
  "sv_markets (reload_tokens answer sv) = [] \<longleftrightarrow> sv_markets sv = []"
  "reload_tokens None sv = sv"
  by (auto simp: reload_tokens_def split: option.splits)

lemma share_tokens_new:
  "share_tokens supports (liquidator_new cf (Some p) market config version)
     = liquidator_new cf (Some supports) market config version"
  by (simp add: share_tokens_def liquidator_new_def)

text \<open>Liquidators built with the provider's clone are, after a reload, those built with the reloaded one.\<close>

lemma reload_tokens_built:
  assumes "sv_markets sv = map (\<lambda>(market, config, version).
      (market, liquidator_new cf (sv_swap_provider sv) market config version)) configs"
  shows "sv_markets (reload_tokens answer sv) = map (\<lambda>(market, config, version).
      (market, liquidator_new cf (sv_swap_provider (reload_tokens answer sv)) market config version)) configs"
  using assms by (auto simp: reload_tokens_def share_tokens_new split: option.splits)

lemma refresh_registry_Ok:
  assumes "refresh_registry E F cf rr now sv w = (Ok (), sv', w')"
  obtains listed t configs st where
    "list_all_deployments rr (cf_registries cf) = Inr listed" "tally_ok t"
    "admission_loop E F cf rr (dedupe_deployments listed) [] (sv_oracle sv) = (configs, t, st)"
    "sv_markets sv' = map (\<lambda>(market, config, version).
        (market, liquidator_new cf (sv_swap_provider sv') market config version)) configs"
    "sv_swap_provider sv' = sv_swap_provider (reload_tokens (rr_supported rr) sv)"
    "sv_metrics sv' = set_registry_counts (length configs) t (sv_metrics sv)"
    "sv_scan_failure_counts sv' = sv_scan_failure_counts sv"
    "\<And>a. get_reserved_balance (w_inventory w') a = get_reserved_balance (w_inventory w) a"
    "w_trace w' = w_trace w"
proof -
  obtain listed where listed: "list_all_deployments rr (cf_registries cf) = Inr listed"
    using assms by (auto simp: refresh_registry_def split: sum.splits)
  obtain configs t st where run: "admission_loop E F cf rr (dedupe_deployments listed) [] (sv_oracle sv) = (configs, t, st)"
    by (metis prod_cases3)
  define sv1 where "sv1 = sv\<lparr>sv_markets := map (\<lambda>(market, config, version).
      (market, liquidator_new cf (sv_swap_provider sv) market config version)) configs,
    sv_collateral_price_map := build_collateral_price_map (map (\<lambda>(market, config, version).
      (market, liquidator_new cf (sv_swap_provider sv) market config version)) configs),
    sv_metrics := set_registry_counts (length configs) t (sv_metrics sv), sv_oracle := st\<rparr>"
  have sv': "sv' = reload_tokens (rr_supported rr) sv1"
    using assms listed run by (simp add: refresh_registry_def Let_def sv1_def)
  have "tally_ok t" using admission_loop_props [OF run] by (simp add: tally_ok_def)
  moreover have "sv_markets sv' = map (\<lambda>(market, config, version).
      (market, liquidator_new cf (sv_swap_provider sv') market config version)) configs"
    unfolding sv' by (rule reload_tokens_built) (simp add: sv1_def)
  moreover have "sv_swap_provider sv' = sv_swap_provider (reload_tokens (rr_supported rr) sv)"
    by (simp add: sv' reload_tokens_def sv1_def split: option.splits)
  ultimately show thesis
    using assms listed run
    by (intro that) (auto simp: refresh_registry_def Let_def ledger_views sv' sv1_def)
qed

lemma refresh_registry_Err: "refresh_registry E F cf rr now sv w = (Err e, sv', w') \<Longrightarrow> sv' = sv"
  by (auto simp: refresh_registry_def Let_def split: sum.splits prod.splits)

lemma refresh_registry_no_panic: "fst (refresh_registry E F cf rr now sv w) \<noteq> Panic"
  by (auto simp: refresh_registry_def Let_def split: sum.splits prod.splits)

section \<open>Lemmas: failure alerts\<close>

datatype alert = AlertFailing nat | AlertRecovered nat

text \<open>The alerts one market's results give, clean or failed, in order.\<close>

fun scan_alerts :: "nat \<Rightarrow> account_id \<Rightarrow> bool list \<Rightarrow> (account_id \<rightharpoonup> nat) \<Rightarrow> alert list" where
  "scan_alerts threshold market [] fails = []"
| "scan_alerts threshold market (True # results) fails =
     (case scan_succeeded threshold market fails of
        (fails', recovered) \<Rightarrow>
          (case recovered of Some n \<Rightarrow> [AlertRecovered n] | None \<Rightarrow> []) @ scan_alerts threshold market results fails')"
| "scan_alerts threshold market (False # results) fails =
     (case (scan_failed threshold market fails :: (liquidator_error, (account_id \<rightharpoonup> nat) \<times> nat option) outcome) of
        Ok (fails', alert) \<Rightarrow>
          (case alert of Some n \<Rightarrow> [AlertFailing n] | None \<Rightarrow> []) @ scan_alerts threshold market results fails'
      | _ \<Rightarrow> [])"

text \<open>Alternating, beginning with a failure alert unless one is \<open>pending\<close>.\<close>

fun alternating :: "nat \<Rightarrow> bool \<Rightarrow> alert list \<Rightarrow> bool" where
  "alternating threshold pending [] = True"
| "alternating threshold pending (AlertFailing n # rest) =
     (\<not> pending \<and> n = threshold \<and> alternating threshold True rest)"
| "alternating threshold pending (AlertRecovered n # rest) =
     (pending \<and> threshold \<le> n \<and> alternating threshold False rest)"

lemma scan_alerts_alternate:
  assumes "0 < threshold"
  shows "alternating threshold (threshold \<le> failure_count fails market) (scan_alerts threshold market results fails)"
proof (induction results arbitrary: fails)
  case (Cons scan results)
  let ?n = "failure_count fails market"
  show ?case
  proof (cases scan)
    case True
    have f0: "failure_count (fails(market := None)) market = 0" by (simp add: failure_count_def)
    have "alternating threshold False (scan_alerts threshold market results (fails(market := None)))"
      using Cons [of "fails(market := None)"] f0 assms by (metis not_less)
    with True assms show ?thesis by (simp add: scan_succeeded_def Let_def)
  next
    case False
    show ?thesis
    proof (cases "u32_max < ?n + 1")
      case True
      with False show ?thesis by (simp add: scan_failed_def)
    next
      case fits: False
      have f1: "failure_count (fails(market \<mapsto> ?n + 1)) market = ?n + 1" by (simp add: failure_count_def)
      have "alternating threshold (threshold \<le> ?n + 1) (scan_alerts threshold market results (fails(market \<mapsto> ?n + 1)))"
        using Cons [of "fails(market \<mapsto> ?n + 1)"] unfolding f1 .
      with False fits assms show ?thesis
        by (cases "?n + 1 = threshold"; cases "threshold \<le> ?n") (auto simp: scan_failed_def Let_def)
    qed
  qed
qed simp

lemma scan_alerts_disabled: "scan_alerts 0 market results fails = []"
proof (induction results arbitrary: fails)
  case (Cons scan results)
  then show ?case by (cases scan) (simp_all add: scan_succeeded_def scan_failed_def Let_def)
qed simp

section \<open>Lemmas: the round\<close>

text \<open>No reservation moved and every amount is still a \<open>u128\<close>.\<close>

definition ledger_kept :: "inventory_manager \<Rightarrow> inventory_manager \<Rightarrow> bool" where
  "ledger_kept m m' \<longleftrightarrow>
     manager_id m' = manager_id m \<and> (\<forall>a. get_reserved_balance m' a = get_reserved_balance m a) \<and> ledger_ok m'"

lemma ledger_kept_refl: "ledger_ok m \<Longrightarrow> ledger_kept m m"
  by (simp add: ledger_kept_def)

lemma ledger_kept_trans: "ledger_kept m m1 \<Longrightarrow> ledger_kept m1 m2 \<Longrightarrow> ledger_kept m m2"
  by (simp add: ledger_kept_def)

lemma settled_kept: "settled b m m' \<Longrightarrow> ledger_kept m m'"
  by (simp add: settled_def ledger_kept_def)

text \<open>A stage of the service: it appends to the trace, keeps the ledger, and if \<open>dry\<close> moves nothing.\<close>

definition stage :: "bool \<Rightarrow> world \<Rightarrow> world \<Rightarrow> bool" where
  "stage dry w w' \<longleftrightarrow>
     (\<exists>new. extends w w' new \<and> (dry \<longrightarrow> money new = [])) \<and> ledger_kept (w_inventory w) (w_inventory w')"

lemma stage_refl: "ledger_ok (w_inventory w) \<Longrightarrow> stage dry w w"
  by (auto simp: stage_def ledger_kept_refl intro: exI [of _ "[]"])

lemma stage_trans: "stage dry w w1 \<Longrightarrow> stage dry w1 w2 \<Longrightarrow> stage dry w w2"
  unfolding stage_def by (metis append_Nil2 extends_trans ledger_kept_trans trace_filters_append(4))

lemma stage_ledger: "stage dry w w' \<Longrightarrow> ledger_ok (w_inventory w')"
  by (simp add: stage_def ledger_kept_def)

lemma stage_emit: "ledger_ok (w_inventory w) \<Longrightarrow> \<not> is_money_event ev \<Longrightarrow> stage dry w (emit ev w)"
  by (auto simp: stage_def extends_def ledger_kept_refl intro: exI [of _ "[ev]"])

definition summary_balanced :: "round_summary \<Rightarrow> bool" where
  "summary_balanced s \<longleftrightarrow> rs_attempted s = rs_succeeded s + rs_failed s"

lemma run_liquidations_stage:
  assumes "run_liquidations P lq w = (res, w')" "env_ok (p_env P)" "ledger_ok (w_inventory w)"
  shows "stage (dry_run_mode lq) w w'"
    "res = Ok s \<Longrightarrow> summary_balanced s \<and> rs_markets_scanned_ok s = 0 \<and> rs_markets_failed s = 0"
proof -
  have "stage (dry_run_mode lq) w w' \<and> (\<forall>s. res = Ok s \<longrightarrow>
      summary_balanced s \<and> rs_markets_scanned_ok s = 0 \<and> rs_markets_failed s = 0)"
    using assms
  proof (cases rule: run_liquidations_cases)
    case (idle new)
    then show ?thesis
      using assms(3)
      by (auto simp: stage_def ledger_kept_refl summary_balanced_def round_summary_default_def)
  next
    case (processed resp candidates screened results w1 new old)
    have "ledger_kept (w_inventory w) (w_inventory w')"
      using processed(5,6) by (auto simp: round_effect_def intro: settled_kept)
    moreover have "extends w w' (new @ old)" "dry_run_mode lq \<longrightarrow> money (new @ old) = []"
      using processed by (auto simp: round_effect_def intro: extends_trans)
    ultimately have "stage (dry_run_mode lq) w w'" unfolding stage_def by blast
    with processed(7) show ?thesis by (auto simp: summary_balanced_def round_summary_of_def split: if_splits)
  qed
  then show "stage (dry_run_mode lq) w w'"
    "res = Ok s \<Longrightarrow> summary_balanced s \<and> rs_markets_scanned_ok s = 0 \<and> rs_markets_failed s = 0" by simp_all
qed

lemma round_summary_merge_Ok:
  assumes "round_summary_merge a b = Ok c"
  shows "rs_candidates c = rs_candidates a + rs_candidates b
    \<and> rs_skipped_unfunded c = rs_skipped_unfunded a + rs_skipped_unfunded b
    \<and> rs_attempted c = rs_attempted a + rs_attempted b \<and> rs_succeeded c = rs_succeeded a + rs_succeeded b
    \<and> rs_failed c = rs_failed a + rs_failed b
    \<and> rs_markets_scanned_ok c = rs_markets_scanned_ok a + rs_markets_scanned_ok b
    \<and> rs_markets_failed c = rs_markets_failed a + rs_markets_failed b"
  using assms by (auto simp: round_summary_merge_def add_u64_def split: if_splits)

text \<open>Between two scans the service only pauses and tells the operator.\<close>

fun is_quiet_event :: "event \<Rightarrow> bool" where
  "is_quiet_event (EvPause _) \<longleftrightarrow> True"
| "is_quiet_event (EvNotifyScanFailures _ _ _) \<longleftrightarrow> True"
| "is_quiet_event (EvNotifyScanRecovered _ _) \<longleftrightarrow> True"
| "is_quiet_event _ \<longleftrightarrow> False"

definition only_waits :: "world \<Rightarrow> world \<Rightarrow> bool" where
  "only_waits w w' \<longleftrightarrow> w_inventory w' = w_inventory w \<and> (\<exists>new. extends w w' new \<and> list_all is_quiet_event new)"

lemma only_waits_refl [simp]: "only_waits w w"
  by (auto simp: only_waits_def intro: exI [of _ "[]"])

lemma only_waits_trans: "only_waits w w1 \<Longrightarrow> only_waits w1 w2 \<Longrightarrow> only_waits w w2"
  unfolding only_waits_def by (metis extends_trans list_all_append)

lemma only_waits_emit: "only_waits w w1 \<Longrightarrow> is_quiet_event ev \<Longrightarrow> only_waits w (emit ev w1)"
  by (rule only_waits_trans) (auto simp: only_waits_def extends_def intro: exI [of _ "[ev]"])

lemma only_waits_stage:
  assumes "only_waits w w'" "ledger_ok (w_inventory w)"
  shows "stage dry w w'"
proof -
  obtain new where new: "extends w w' new" "list_all is_quiet_event new" using assms(1) by (auto simp: only_waits_def)
  have "is_quiet_event ev \<Longrightarrow> \<not> is_money_event ev" for ev by (cases ev) (auto simp: is_money_event_def)
  with new(2) have "money new = []" by (auto simp: money_def list_all_iff filter_empty_conv)
  with new(1) assms show ?thesis by (auto simp: stage_def only_waits_def ledger_kept_refl)
qed

text \<open>What a clean and what a failed scan add to the round.\<close>

lemma market_scanned_effect:
  assumes "market_scanned threshold market s acc w = (res, w')"
  shows "only_waits w w'"
    "res = Ok acc' \<Longrightarrow> \<exists>merged. round_summary_merge (ra_summary acc) s = (Ok merged :: (liquidator_error, round_summary) outcome)
       \<and> ra_summary acc' = merged\<lparr>rs_markets_scanned_ok := rs_markets_scanned_ok merged + 1\<rparr>
       \<and> ra_metrics acc' = ra_metrics acc"
  using assms
  by (auto simp: market_scanned_def add_u64_def intro: only_waits_emit
      split: outcome.splits prod.splits option.splits if_splits)

lemma market_failed_effect:
  assumes "market_failed threshold market e acc w = (res, w')"
  shows "only_waits w w'"
    "res = Ok acc' \<Longrightarrow>
       ra_summary acc' = (ra_summary acc)\<lparr>rs_markets_failed := rs_markets_failed (ra_summary acc) + 1\<rparr>
       \<and> ra_metrics acc' = inc_market_scan_failure (ra_metrics acc)"
proof -
  have "only_waits w (if is_rate_limit_error e then emit (EvPause 60000) w else w)"
    by (auto intro: only_waits_emit)
  with assms show "only_waits w w'"
    by (auto simp: market_failed_def Let_def intro: only_waits_emit split: outcome.splits prod.splits option.splits)
  show "res = Ok acc' \<Longrightarrow>
       ra_summary acc' = (ra_summary acc)\<lparr>rs_markets_failed := rs_markets_failed (ra_summary acc) + 1\<rparr>
       \<and> ra_metrics acc' = inc_market_scan_failure (ra_metrics acc)"
    using assms by (auto simp: market_failed_def add_u64_def Let_def split: outcome.splits prod.splits if_splits)
qed

end
