(* ===== verification/Cycle.thy ===== *)
theory Cycle
  imports Service
begin

text \<open>
  What the stages of src/service.rs do to the world: the round over all markets, the batch swap of the
  held collateral, the two refreshes and the cycle they make up. Each is a \<open>stage\<close>: the trace only grows,
  no reservation moves, every amount stays a \<open>u128\<close>, and in a dry run nothing is spent.
\<close>

section \<open>Stages\<close>

lemma stage_mono: "stage dry w w' \<Longrightarrow> (dry' \<Longrightarrow> dry) \<Longrightarrow> stage dry' w w'"
  unfolding stage_def by blast

text \<open>Every balance the outside answers with is a \<open>u128\<close>.\<close>

definition service_env_ok :: "('d, 'p) service_env \<Rightarrow> bool" where
  "service_env_ok SE \<longleftrightarrow>
     (\<forall>market. env_ok (p_env (se_params SE market)))
     \<and> (\<forall>tr a v. se_balance SE tr a = Inr v \<longrightarrow> v \<le> u128_max)"

lemma service_env_okD:
  assumes "service_env_ok SE"
  shows "env_ok (p_env (se_params SE market))" "se_balance SE tr a = Inr v \<Longrightarrow> v \<le> u128_max"
  using assms by (auto simp: service_env_ok_def)

section \<open>The round over all markets\<close>

text \<open>One market's scan: the market, the world it started in, its result, the world it left.\<close>

type_synonym market_scan = "account_id \<times> world \<times> (liquidator_error, round_summary) outcome \<times> world"

text \<open>The scans of a round, in order, from world to world: each is a run of the market's own liquidator, and
  between them the service only waits and notifies.\<close>

fun scan_chain ::
    "('d, 'p) service_env \<Rightarrow> (account_id \<times> 'd liquidator) list \<Rightarrow> world \<Rightarrow> market_scan list \<Rightarrow> world \<Rightarrow> bool" where
  "scan_chain SE markets w [] w' \<longleftrightarrow> only_waits w w'"
| "scan_chain SE markets w ((market, w1, result, w2) # rest) w' \<longleftrightarrow>
     only_waits w w1
     \<and> (case map_of markets market of None \<Rightarrow> False
        | Some lq \<Rightarrow> run_liquidations (se_params SE market) lq w1 = (result, w2))
     \<and> scan_chain SE markets w2 rest w'"

lemma scan_chain_later: "only_waits w w1 \<Longrightarrow> scan_chain SE markets w1 scs w' \<Longrightarrow> scan_chain SE markets w scs w'"
  by (cases scs) (auto intro: only_waits_trans)

text \<open>The summaries of the clean scans, and how many failed.\<close>

fun clean_scans :: "market_scan list \<Rightarrow> round_summary list" where
  "clean_scans [] = []"
| "clean_scans ((market, w1, result, w2) # rest) =
     (case result of Ok s \<Rightarrow> s # clean_scans rest | _ \<Rightarrow> clean_scans rest)"

fun failed_scans :: "market_scan list \<Rightarrow> nat" where
  "failed_scans [] = 0"
| "failed_scans ((market, w1, result, w2) # rest) =
     (case result of Err e \<Rightarrow> Suc (failed_scans rest) | _ \<Rightarrow> failed_scans rest)"

abbreviation total_of :: "(round_summary \<Rightarrow> nat) \<Rightarrow> market_scan list \<Rightarrow> nat" where
  "total_of f scs \<equiv> sum_list (map f (clean_scans scs))"

text \<open>The accumulator after those scans.\<close>

definition tallied :: "market_scan list \<Rightarrow> round_acc \<Rightarrow> round_acc \<Rightarrow> bool" where
  "tallied scs acc acc' \<longleftrightarrow>
     (let s = ra_summary acc; s' = ra_summary acc' in
      rs_candidates s' = rs_candidates s + total_of rs_candidates scs
      \<and> rs_skipped_unfunded s' = rs_skipped_unfunded s + total_of rs_skipped_unfunded scs
      \<and> rs_attempted s' = rs_attempted s + total_of rs_attempted scs
      \<and> rs_succeeded s' = rs_succeeded s + total_of rs_succeeded scs
      \<and> rs_failed s' = rs_failed s + total_of rs_failed scs
      \<and> (0 < rs_markets_scanned_ok s' \<longleftrightarrow> 0 < rs_markets_scanned_ok s \<or> clean_scans scs \<noteq> [])
      \<and> ra_metrics acc' = (inc_market_scan_failure ^^ failed_scans scs) (ra_metrics acc))"

lemma market_step_tallied:
  "fst (market_scanned threshold market s acc w) = Ok acc' \<Longrightarrow> tallied [(market, w1, Ok s, w2)] acc acc'"
  "fst (market_failed threshold market e acc w) = Ok acc' \<Longrightarrow> tallied [(market, w1, Err e, w2)] acc acc'"
proof -
  assume "fst (market_scanned threshold market s acc w) = Ok acc'"
  then obtain w' where "market_scanned threshold market s acc w = (Ok acc', w')" by (metis prod.collapse)
  from market_scanned_effect(2) [OF this refl] show "tallied [(market, w1, Ok s, w2)] acc acc'"
    by (auto simp: tallied_def Let_def dest!: round_summary_merge_Ok)
next
  assume "fst (market_failed threshold market e acc w) = Ok acc'"
  then obtain w' where "market_failed threshold market e acc w = (Ok acc', w')" by (metis prod.collapse)
  from market_failed_effect(2) [OF this refl] show "tallied [(market, w1, Err e, w2)] acc acc'"
    by (simp add: tallied_def Let_def)
qed

lemma tallied_Cons:
  assumes "tallied [sc] acc acc1" "tallied scs acc1 acc'"
  shows "tallied (sc # scs) acc acc'"
proof -
  obtain market w1 result w2 where "sc = (market, w1, result, w2)" by (metis prod_cases4)
  with assms show ?thesis
    by (cases result) (auto simp: tallied_def Let_def funpow_swap1)
qed

lemma tallied_Nil [simp]: "tallied [] acc acc"
  by (simp add: tallied_def Let_def)

text \<open>A round that ends made a chain of scans over a prefix of its markets; a proper one only if the shutdown
  flag stopped it.\<close>

lemma round_loop_scans:
  assumes "round_loop SE threshold markets ms acc w = (Ok acc', w')"
    and "service_env_ok SE" "ledger_ok (w_inventory w)" "list_all (\<lambda>m. map_of markets m \<noteq> None) ms"
  shows "\<exists>scs. scan_chain SE markets w scs w' \<and> map fst scs = take (length scs) ms
    \<and> (length scs < length ms \<longrightarrow> e_shutdown (se_env SE) (w_trace w'))
    \<and> list_all summary_balanced (clean_scans scs)
    \<and> length (clean_scans scs) + failed_scans scs = length scs \<and> tallied scs acc acc'"
  using assms(1,3,4)
proof (induction ms arbitrary: acc w)
  case Nil
  then show ?case by (intro exI [of _ "[]"]) simp
next
  case (Cons market rest)
  show ?case
  proof (cases "e_shutdown (se_env SE) (w_trace w)")
    case True
    with Cons.prems(1) show ?thesis by (intro exI [of _ "[]"]) simp
  next
    case False
    obtain lq where lq: "map_of markets market = Some lq" using Cons.prems(3) by auto
    obtain result w1 where run: "run_liquidations (se_params SE market) lq w = (result, w1)" by fastforce
    note scan = run_liquidations_stage [OF run service_env_okD(1) [OF assms(2)] Cons.prems(2)]
    let ?step = "case result of Ok s \<Rightarrow> market_scanned threshold market s acc w1
        | Err e \<Rightarrow> market_failed threshold market e acc w1 | Panic \<Rightarrow> (Panic, w1)"
    obtain res2 w2 where step: "?step = (res2, w2)" by fastforce
    obtain acc2 where acc2: "res2 = Ok acc2" "result \<noteq> Panic"
      using Cons.prems(1) lq False run step by (cases result; cases res2) auto
    have one: "only_waits w1 w2 \<and> tallied [(market, w, result, w1)] acc acc2 \<and> list_all summary_balanced (clean_scans [(market, w, result, w1)])"
    proof (cases result)
      case (Ok s)
      with step acc2 have "market_scanned threshold market s acc w1 = (outcome.Ok acc2, w2)" by simp
      with market_scanned_effect(1) [OF this] market_step_tallied(1) [of threshold market s acc w1 acc2] scan(2) Ok show ?thesis by simp
    next
      case (Err e)
      with step acc2 have "market_failed threshold market e acc w1 = (outcome.Ok acc2, w2)" by simp
      with market_failed_effect(1) [OF this] market_step_tallied(2) [of threshold market e acc w1 acc2] Err show ?thesis by simp
    qed (use acc2 in simp)
    let ?w3 = "if rest \<noteq> [] then emit (EvPause 5000) w2 else w2"
    have rec: "round_loop SE threshold markets rest acc2 ?w3 = (Ok acc', w')"
      using Cons.prems(1) lq False run step acc2 by (cases result) auto
    have waits: "only_waits w1 ?w3" using one only_waits_emit by auto
    have "ledger_ok (w_inventory ?w3)"
      by (rule stage_ledger [OF stage_trans [OF scan(1) only_waits_stage [OF waits stage_ledger [OF scan(1)]]]])
    from Cons.IH [OF rec this] Cons.prems(3) obtain scs where s: "scan_chain SE markets ?w3 scs w'"
      "map fst scs = take (length scs) rest" "length scs < length rest \<longrightarrow> e_shutdown (se_env SE) (w_trace w')"
      "list_all summary_balanced (clean_scans scs)" "length (clean_scans scs) + failed_scans scs = length scs"
      "tallied scs acc2 acc'" by auto
    let ?all = "(market, w, result, w1) # scs"
    have "scan_chain SE markets w ?all w'" using lq run scan_chain_later [OF waits s(1)] by simp
    moreover have "list_all summary_balanced (clean_scans ?all)" using one s(4) by (cases result) auto
    moreover have "length (clean_scans ?all) + failed_scans ?all = length ?all" using acc2(2) s(5) by (cases result) auto
    moreover have "tallied ?all acc acc'" using one s(6) tallied_Cons by blast
    ultimately show ?thesis using s(2,3) by (intro exI [of _ ?all]) simp
  qed
qed

lemma round_loop_stage:
  assumes "round_loop SE threshold markets ms acc w = (res, w')"
    and "service_env_ok SE" "ledger_ok (w_inventory w)"
    and "\<And>market lq. map_of markets market = Some lq \<Longrightarrow> dry \<Longrightarrow> dry_run_mode lq"
  shows "stage dry w w'"
  using assms(1,3)
proof (induction ms arbitrary: acc w)
  case Nil
  then show ?case by (auto simp: stage_refl)
next
  case (Cons market rest)
  show ?case
  proof (cases "e_shutdown (se_env SE) (w_trace w) \<or> map_of markets market = None")
    case True
    then show ?thesis using Cons.prems Cons.IH [of acc w] by (auto simp: stage_refl split: if_splits option.splits)
  next
    case False
    then obtain lq where lq: "map_of markets market = Some lq" "\<not> e_shutdown (se_env SE) (w_trace w)" by auto
    obtain result w1 where run: "run_liquidations (se_params SE market) lq w = (result, w1)" by fastforce
    note scan = run_liquidations_stage [OF run service_env_okD(1) [OF assms(2)] Cons.prems(2)]
    have s1: "stage dry w w1" using scan(1) assms(4) [OF lq(1)] by (rule stage_mono)
    let ?step = "case result of Ok s \<Rightarrow> market_scanned threshold market s acc w1
        | Err e \<Rightarrow> market_failed threshold market e acc w1 | Panic \<Rightarrow> (Panic, w1)"
    obtain res2 w2 where step: "?step = (res2, w2)" by fastforce
    have waits: "only_waits w1 w2"
      using step market_scanned_effect(1) market_failed_effect(1) by (cases result) auto
    have w2: "stage dry w w2" by (rule stage_trans [OF s1 only_waits_stage [OF waits stage_ledger [OF s1]]])
    show ?thesis
    proof (cases res2)
      case (Ok acc2)
      let ?w3 = "if rest \<noteq> [] then emit (EvPause 5000) w2 else w2"
      have s3: "stage dry w ?w3"
        using stage_trans [OF w2 stage_emit [OF stage_ledger [OF w2], of "EvPause 5000"]] w2
        by (simp add: is_money_event_def)
      have rec: "round_loop SE threshold markets rest acc2 ?w3 = (res, w')"
        using Cons.prems(1) lq run step Ok by (auto split: outcome.splits)
      from stage_trans [OF s3 Cons.IH [OF rec stage_ledger [OF s3]]] show ?thesis .
    next
      case (Err e)
      then have "w' = w2" using Cons.prems(1) lq run step by (auto split: outcome.splits)
      with w2 show ?thesis by simp
    next
      case Panic
      then have "w' = w2" using Cons.prems(1) lq run step by (auto split: outcome.splits)
      with w2 show ?thesis by simp
    qed
  qed
qed

lemma run_liquidation_round_stage:
  assumes "run_liquidation_round SE cf sv w = (res, w')"
    and "service_env_ok SE" "ledger_ok (w_inventory w)"
    and "\<And>market lq. (market, lq) \<in> set (sv_markets sv) \<Longrightarrow> dry \<Longrightarrow> dry_run_mode lq"
  shows "stage dry w w'"
proof -
  let ?acc = "\<lparr>ra_summary = round_summary_default, ra_counts = sv_scan_failure_counts sv, ra_metrics = sv_metrics sv\<rparr>"
  obtain r w1 where loop: "round_loop SE (cf_scan_failure_notify_threshold cf) (sv_markets sv)
      (map fst (sv_markets sv)) ?acc w = (r, w1)" by fastforce
  have "map_of (sv_markets sv) market = Some lq \<Longrightarrow> dry \<Longrightarrow> dry_run_mode lq" for market lq
    using assms(4) map_of_SomeD by fast
  from round_loop_stage [OF loop assms(2,3) this] have "stage dry w w1" .
  moreover have "w' = w1" using assms(1) loop by (auto simp: run_liquidation_round_def split: outcome.splits)
  ultimately show ?thesis by simp
qed

lemma run_liquidation_round_scans:
  assumes "run_liquidation_round SE cf sv w = (Ok (summary, sv'), w')"
    and "service_env_ok SE" "ledger_ok (w_inventory w)"
  obtains scs acc' where "scan_chain SE (sv_markets sv) w scs w'"
    "map fst scs = take (length scs) (map fst (sv_markets sv))"
    "length scs < length (sv_markets sv) \<longrightarrow> e_shutdown (se_env SE) (w_trace w')"
    "list_all summary_balanced (clean_scans scs)" "length (clean_scans scs) + failed_scans scs = length scs"
    "tallied scs \<lparr>ra_summary = round_summary_default, ra_counts = sv_scan_failure_counts sv, ra_metrics = sv_metrics sv\<rparr> acc'"
    "summary = ra_summary acc'" "sv' = sv\<lparr>sv_scan_failure_counts := ra_counts acc', sv_metrics := ra_metrics acc'\<rparr>"
proof -
  let ?acc = "\<lparr>ra_summary = round_summary_default, ra_counts = sv_scan_failure_counts sv, ra_metrics = sv_metrics sv\<rparr>"
  obtain acc' where acc': "round_loop SE (cf_scan_failure_notify_threshold cf) (sv_markets sv)
      (map fst (sv_markets sv)) ?acc w = (Ok acc', w')" "summary = ra_summary acc'"
      "sv' = sv\<lparr>sv_scan_failure_counts := ra_counts acc', sv_metrics := ra_metrics acc'\<rparr>"
    using assms(1) by (auto simp: run_liquidation_round_def split: outcome.splits prod.splits)
  have "list_all (\<lambda>m. map_of (sv_markets sv) m \<noteq> None) (map fst (sv_markets sv))"
    by (auto simp: list_all_iff map_of_eq_None_iff)
  from round_loop_scans [OF acc'(1) assms(2,3) this] that acc'(2,3) show thesis by auto
qed

section \<open>The batch swap and the refreshes\<close>

lemma stage_swaps:
  assumes "extends w w' (replicate n (EvSwap c b k))" "w_inventory w' = w_inventory w"
    "ledger_ok (w_inventory w)" "\<not> dry"
  shows "stage dry w w'"
  using assms by (auto simp: stage_def ledger_kept_refl)

lemma batch_loop_stage:
  "batch_loop SE cf mp prices supports hs swapped skipped w = (res, w') \<Longrightarrow> ledger_ok (w_inventory w) \<Longrightarrow>
     stage (cf_dry_run cf) w w'
     \<and> (\<exists>n. fst res + snd res + n = swapped + skipped + length hs)"
proof (induction hs arbitrary: swapped skipped w)
  case Nil
  then show ?case by (auto simp: stage_refl)
next
  case (Cons h hs)
  obtain c bal where h: "h = (c, bal)" by (cases h)
  show ?case
  proof (cases "e_shutdown (se_env SE) (w_trace w)")
    case True
    with Cons.prems h show ?thesis by (auto simp: stage_refl)
  next
    case live: False
    show ?thesis
    proof (cases "batch_candidate SE cf mp prices supports c bal")
      case None
      with Cons.prems h live Cons.IH [of swapped "skipped + 1" w] show ?thesis by auto
    next
      case (Some info)
      show ?thesis
      proof (cases "cf_dry_run cf")
        case True
        with Cons.prems h live Some Cons.IH [of "swapped + 1" skipped w] show ?thesis by auto
      next
        case wet: False
        obtain r w1 lg where sw: "swap_with_retry (cf_swap_retry_config cf) (''batch:'' @ c)
            (swap_operation (se_env SE) c (cpi_target_borrow_asset info) bal) w = (r, w1, lg)"
          by (metis prod_cases3)
        have eff: "w_inventory w1 = w_inventory w"
          "extends w w1 (replicate (length lg) (EvSwap c (cpi_target_borrow_asset info) bal))"
          using retry_loop_swaps [OF sw [unfolded swap_with_retry_def]] by simp_all
        have s1: "stage (cf_dry_run cf) w w1" by (rule stage_swaps [OF eff(2,1) Cons.prems(2) wet])
        show ?thesis
        proof (cases r)
          case (Inr u)
          with Cons.prems(1) h live Some wet sw
          have "batch_loop SE cf mp prices supports hs (swapped + 1) skipped w1 = (res, w')" by simp
          from Cons.IH [OF this stage_ledger [OF s1]] stage_trans [OF s1] show ?thesis by auto
        next
          case (Inl e)
          define w2 where "w2 = (if batch_failure_notifies (swap_kind e)
                  then emit (EvNotifySwap ''batch'' (Failed (short_asset_name c)
                         (short_asset_name (cpi_target_borrow_asset info))
                         (format_amount_short (se_pow10 SE) bal (cpi_decimals info) c) (swap_error_to_string e))) w1
                  else w1)"
          have s2: "stage (cf_dry_run cf) w w2"
            using s1 stage_trans [OF s1 stage_emit [OF stage_ledger [OF s1]]]
            by (simp add: w2_def is_money_event_def)
          have "batch_loop SE cf mp prices supports hs swapped (skipped + 1) w2 = (res, w')"
            using Cons.prems(1) h live Some wet sw Inl by (simp add: w2_def)
          from Cons.IH [OF this stage_ledger [OF s2]] stage_trans [OF s2] show ?thesis by auto
        qed
      qed
    qed
  qed
qed

lemma fetch_prices_loop_stage:
  "fetch_prices_loop SE gs prices w = (prices', w') \<Longrightarrow> ledger_ok (w_inventory w) \<Longrightarrow>
     stage dry w w' \<and> w_inventory w' = w_inventory w"
proof (induction gs arbitrary: prices w)
  case Nil
  then show ?case by (auto simp: stage_refl)
next
  case (Cons g gs)
  obtain oid assets where g: "g = (oid, assets)" by (cases g)
  let ?w1 = "emit (EvPricesFetched oid (map snd assets)) w"
  have s1: "stage dry w ?w1" using Cons.prems(2) by (rule stage_emit) (simp add: is_money_event_def)
  obtain p where "fetch_prices_loop SE gs p ?w1 = (prices', w')"
    using Cons.prems(1) g by (auto simp: Let_def split: sum.splits)
  from Cons.IH [OF this] Cons.prems(2) stage_trans [OF s1] show ?case by auto
qed

lemma batch_swap_stage:
  assumes "ledger_ok (w_inventory w)"
  shows "stage (cf_dry_run cf) w (batch_swap_collateral SE cf sv w)"
proof (cases "collateral_holdings (w_inventory w) = []")
  case True
  with assms show ?thesis by (simp add: batch_swap_collateral_def stage_refl)
next
  case False
  let ?hs = "collateral_holdings (w_inventory w)"
  obtain prices w1 where f: "fetch_collateral_usd_prices SE (sv_collateral_price_map sv) (map fst ?hs) w = (prices, w1)"
    by fastforce
  have s1: "stage (cf_dry_run cf) w w1"
    using fetch_prices_loop_stage [OF f [unfolded fetch_collateral_usd_prices_def] assms] by blast
  show ?thesis
  proof (cases "sv_swap_provider sv")
    case None
    with False f s1 show ?thesis by (simp add: batch_swap_collateral_def Let_def)
  next
    case (Some supports)
    obtain res w2 where b: "batch_loop SE cf (sv_collateral_price_map sv) prices supports ?hs 0 0 w1 = (res, w2)"
      by fastforce
    have "stage (cf_dry_run cf) w w2"
      using stage_trans [OF s1] batch_loop_stage [OF b stage_ledger [OF s1]] by blast
    with False f Some b show ?thesis by (simp add: batch_swap_collateral_def Let_def)
  qed
qed

lemma refresh_collateral_stage:
  "ledger_ok (w_inventory w) \<Longrightarrow> stage dry w (refresh_collateral_in SE w)"
  by (auto simp: stage_def refresh_collateral_in_def extends_def ledger_kept_def ledger_ok_def ledger_views
      is_money_event_def intro!: exI [of _ "[EvCollateralRefreshed]"])

lemma refresh_inventory_stage:
  assumes "service_env_ok SE" "ledger_ok (w_inventory w)"
  shows "stage dry w (refresh_inventory SE w)"
proof -
  have "get_total_balance (snd (refresh (se_clk SE (w_trace w)) (se_balance SE (w_trace w)) (w_inventory w))) a \<le> u128_max"
    for a
    using assms service_env_okD(2) by (intro refresh_balance_le) (auto simp: ledger_ok_def)
  with assms(2) show ?thesis
    by (auto simp: stage_def refresh_inventory_def extends_def ledger_kept_def ledger_ok_def ledger_views
        is_money_event_def intro!: exI [of _ "[EvBorrowRefreshed]"])
qed

section \<open>The cycle\<close>

text \<open>What one cycle adds to the counters of the metrics: what its clean scans found, attempted and achieved, the
  scans that failed, and when something was scanned without error, the time at which the cycle ended.\<close>

definition counted :: "market_scan list \<Rightarrow> nat \<Rightarrow> metrics \<Rightarrow> metrics \<Rightarrow> bool" where
  "counted scs now m m' \<longleftrightarrow>
     scans_total m' = fetch_add (scans_total m) 1
     \<and> candidates_found_total m' = fetch_add (candidates_found_total m) (total_of rs_candidates scs)
     \<and> liquidations_attempted_total m' = fetch_add (liquidations_attempted_total m) (total_of rs_attempted scs)
     \<and> liquidations_succeeded_total m' = fetch_add (liquidations_succeeded_total m) (total_of rs_succeeded scs)
     \<and> liquidations_failed_total m' = fetch_add (liquidations_failed_total m) (total_of rs_failed scs)
     \<and> liquidations_skipped_unfunded_total m'
         = fetch_add (liquidations_skipped_unfunded_total m) (total_of rs_skipped_unfunded scs)
     \<and> market_scan_failures_total m' = (if failed_scans scs = 0 then market_scan_failures_total m
         else fetch_add (market_scan_failures_total m) (failed_scans scs))
     \<and> last_successful_scan_unix m' = (if clean_scans scs = [] then last_successful_scan_unix m else now)"

lemma inc_failures: "(inc_market_scan_failure ^^ n) m = m\<lparr>market_scan_failures_total :=
    (if n = 0 then market_scan_failures_total m else fetch_add (market_scan_failures_total m) n)\<rparr>"
  by (induction n) (auto simp: inc_market_scan_failure_def fetch_add_def mod_simps)

text \<open>The world the round of a cycle starts in.\<close>

definition round_start :: "('d, 'p) service_env \<Rightarrow> 'd service_config \<Rightarrow> 'd service \<Rightarrow> world \<Rightarrow> world" where
  "round_start SE cf sv w =
     (let w1 = refresh_collateral_in SE w in
      refresh_inventory SE (if cf_batch_swap_on_cycle_start cf then batch_swap_collateral SE cf sv w1 else w1))"

lemma round_start_stage:
  assumes "service_env_ok SE" "ledger_ok (w_inventory w)" "dry \<Longrightarrow> cf_dry_run cf"
  shows "stage dry w (round_start SE cf sv w)"
proof -
  let ?w1 = "refresh_collateral_in SE w"
  have s1: "stage dry w ?w1" by (rule refresh_collateral_stage [OF assms(2)])
  have s2: "stage dry ?w1 (if cf_batch_swap_on_cycle_start cf then batch_swap_collateral SE cf sv ?w1 else ?w1)"
    using stage_ledger [OF s1] stage_mono [OF batch_swap_stage assms(3)] stage_refl by auto
  show ?thesis
    unfolding round_start_def Let_def
    by (rule stage_trans [OF s1 stage_trans [OF s2 refresh_inventory_stage [OF assms(1) stage_ledger [OF s2]]]])
qed

lemma batch_swap_metrics: "batch_swap_collateral SE cf (sv\<lparr>sv_metrics := m\<rparr>) = batch_swap_collateral SE cf sv"
  by (rule ext) (simp add: batch_swap_collateral_def Let_def cong: option.case_cong if_cong prod.case_cong)

lemma liquidation_cycle_round:
  "liquidation_cycle SE cf sv w =
     (case run_liquidation_round SE cf (sv\<lparr>sv_metrics := inc_scan (sv_metrics sv)\<rparr>) (round_start SE cf sv w) of
        (Ok (summary, sv2), w4) \<Rightarrow>
          let sv3 = sv2\<lparr>sv_metrics := add_round summary (sv_metrics sv2)\<rparr>;
              w5 = refresh_collateral_in SE w4
          in (Ok (if 0 < rs_markets_scanned_ok summary
                  then sv3\<lparr>sv_metrics := mark_scan_success (se_unix_secs SE (w_trace w5)) (sv_metrics sv3)\<rparr>
                  else sv3), w5)
      | (Err e, w4) \<Rightarrow> (Err e, w4)
      | (Panic, w4) \<Rightarrow> (Panic, w4))"
  by (simp add: liquidation_cycle_def round_start_def batch_swap_metrics Let_def)

lemma cycle_stage:
  assumes "liquidation_cycle SE cf sv w = (res, w')"
    and "service_env_ok SE" "ledger_ok (w_inventory w)"
    and "\<And>market lq. (market, lq) \<in> set (sv_markets sv) \<Longrightarrow> dry \<Longrightarrow> dry_run_mode lq"
    and "dry \<Longrightarrow> cf_dry_run cf"
  shows "stage dry w w'"
proof -
  let ?sv1 = "sv\<lparr>sv_metrics := inc_scan (sv_metrics sv)\<rparr>" and ?w3 = "round_start SE cf sv w"
  obtain r w4 where round: "run_liquidation_round SE cf ?sv1 ?w3 = (r, w4)" by fastforce
  have s3: "stage dry w ?w3" by (rule round_start_stage [OF assms(2,3,5)])
  have "(market, lq) \<in> set (sv_markets ?sv1) \<Longrightarrow> dry \<Longrightarrow> dry_run_mode lq" for market lq
    using assms(4) by simp
  from stage_trans [OF s3 run_liquidation_round_stage [OF round assms(2) stage_ledger [OF s3] this]]
  have s4: "stage dry w w4" .
  have "w' = w4 \<or> w' = refresh_collateral_in SE w4"
    using assms(1) round by (auto simp: liquidation_cycle_round Let_def split: outcome.splits prod.splits)
  with s4 stage_trans [OF s4 refresh_collateral_stage [OF stage_ledger [OF s4]]] show ?thesis by auto
qed

lemma cycle_scans:
  assumes "liquidation_cycle SE cf sv w = (Ok sv', w')" "service_env_ok SE" "ledger_ok (w_inventory w)"
  obtains scs w4 where "scan_chain SE (sv_markets sv) (round_start SE cf sv w) scs w4"
    "w' = refresh_collateral_in SE w4"
    "map fst scs = take (length scs) (map fst (sv_markets sv))"
    "length scs < length (sv_markets sv) \<longrightarrow> e_shutdown (se_env SE) (w_trace w4)"
    "list_all summary_balanced (clean_scans scs)" "length (clean_scans scs) + failed_scans scs = length scs"
    "counted scs (se_unix_secs SE (w_trace w')) (sv_metrics sv) (sv_metrics sv')"
proof -
  let ?sv1 = "sv\<lparr>sv_metrics := inc_scan (sv_metrics sv)\<rparr>" and ?w3 = "round_start SE cf sv w"
  obtain summary sv2 w4 where round: "run_liquidation_round SE cf ?sv1 ?w3 = (Ok (summary, sv2), w4)"
    using assms(1) by (auto simp: liquidation_cycle_round split: outcome.splits prod.splits)
  have w': "w' = refresh_collateral_in SE w4" and sv': "sv_metrics sv' = (if 0 < rs_markets_scanned_ok summary
      then mark_scan_success (se_unix_secs SE (w_trace w')) (add_round summary (sv_metrics sv2))
      else add_round summary (sv_metrics sv2))"
    using assms(1) round by (auto simp: liquidation_cycle_round Let_def split: if_splits)
  have "ledger_ok (w_inventory ?w3)" by (rule stage_ledger [OF round_start_stage [OF assms(2,3), of False]]) simp
  from round assms(2) this obtain scs acc where scs: "scan_chain SE (sv_markets ?sv1) ?w3 scs w4"
    "map fst scs = take (length scs) (map fst (sv_markets ?sv1))"
    "length scs < length (sv_markets ?sv1) \<longrightarrow> e_shutdown (se_env SE) (w_trace w4)"
    "list_all summary_balanced (clean_scans scs)" "length (clean_scans scs) + failed_scans scs = length scs"
    "tallied scs \<lparr>ra_summary = round_summary_default, ra_counts = sv_scan_failure_counts ?sv1, ra_metrics = sv_metrics ?sv1\<rparr> acc"
    "summary = ra_summary acc" "sv2 = ?sv1\<lparr>sv_scan_failure_counts := ra_counts acc, sv_metrics := ra_metrics acc\<rparr>"
    by (rule run_liquidation_round_scans)
  have "counted scs (se_unix_secs SE (w_trace w')) (sv_metrics sv) (sv_metrics sv')"
    using scs(6-8)
    by (auto simp: sv' counted_def tallied_def Let_def round_summary_default_def inc_failures inc_scan_def
        add_round_def mark_scan_success_def)
  with scs(1-5) w' show thesis by (intro that) simp_all
qed

section \<open>The errors of a run\<close>

text \<open>A cycle has no error: a market that fails is counted and passed over.\<close>

lemma market_steps_no_error:
  "market_scanned threshold market s acc w \<noteq> (Err e, w')" "market_failed threshold market e1 acc w \<noteq> (Err e, w')"
  by (auto simp: market_scanned_def market_failed_def scan_failed_def round_summary_merge_def add_u64_def Let_def
      split: outcome.splits prod.splits if_splits)

lemma round_loop_no_error: "round_loop SE threshold markets ms acc w \<noteq> (Err e, w')"
proof (induction ms arbitrary: acc w)
  case (Cons market rest)
  then show ?case by (auto simp: market_steps_no_error split: option.splits prod.splits outcome.splits)
qed simp

lemma cycle_no_error: "liquidation_cycle SE cf sv w \<noteq> (Err e, w')"
  by (auto simp: liquidation_cycle_def run_liquidation_round_def round_loop_no_error Let_def
      split: outcome.splits prod.splits)

lemma run_once_error_iff:
  "fst (run_once E F SE cf rr now sv w) = Err e \<longleftrightarrow>
     (case list_all_deployments rr (cf_registries cf) of
        Inl msg \<Rightarrow> e = ListDeploymentsError (rpc_error_from_gateway msg)
      | Inr listed \<Rightarrow> fst (admission_loop E F cf rr (dedupe_deployments listed) [] (sv_oracle sv)) = [] \<and> e = NoMarkets)"
proof (cases "list_all_deployments rr (cf_registries cf)")
  case (Inl msg)
  then show ?thesis by (auto simp: run_once_def refresh_registry_def)
next
  case (Inr listed)
  obtain cs t st where run: "admission_loop E F cf rr (dedupe_deployments listed) [] (sv_oracle sv) = (cs, t, st)"
    by (metis prod_cases3)
  obtain sv1 w1 where r: "refresh_registry E F cf rr now sv w = (Ok (), sv1, w1)"
      "sv_markets sv1 = [] \<longleftrightarrow> cs = []"
    using Inr run by (simp add: refresh_registry_def Let_def)
  show ?thesis
  proof (cases "cs = []")
    case True
    with r Inr run show ?thesis by (auto simp: run_once_def)
  next
    case False
    with r Inr run cycle_no_error [of SE cf sv1 w1] show ?thesis
      by (auto simp: run_once_def split: outcome.splits prod.splits)
  qed
qed

end
