(* ===== verification/Run.thy ===== *)
theory Run
  imports Cycle
begin

text \<open>
  The event loop of src/service.rs (\<open>run\<close>): one refresh, then registry ticks and liquidation ticks in
  whatever order the timers fire, until the shutdown flag is seen at the top of the loop.

  A tick is a step. What the registries answer may differ at every tick, so a registry tick carries its
  reads; everything else is a function of the trace. Binding the HTTP endpoint and the signal handlers is
  I/O; a failed refresh resets the registry timer, which is the state's \<open>rn_refresh_in\<close>.
\<close>

section \<open>The loop\<close>

datatype run_phase = Looping | Stopped | Crashed

record 'd run_state =
  rn_service :: "'d service"
  rn_world :: world
  rn_refresh_in :: nat \<comment> \<open>seconds to the next registry tick\<close>
  rn_phase :: run_phase

datatype 'd tick = RegistryTick "'d registry_reads" nat | LiquidationTick

definition refresh_retry_secs :: "liquidator_error \<Rightarrow> nat" where
  "refresh_retry_secs e = (if is_rate_limit_error e then 60 else 300)"

definition registry_tick ::
    "('x, 'act) oracle_env \<Rightarrow> fetcher \<Rightarrow> 'd service_config \<Rightarrow> nat \<Rightarrow> 'd registry_reads \<Rightarrow> nat
     \<Rightarrow> 'd run_state \<Rightarrow> 'd run_state" where
  "registry_tick E F cf interval rr now s =
     (case refresh_registry E F cf rr now (rn_service s) (rn_world s) of
        (Ok _, sv, w) \<Rightarrow> s\<lparr>rn_service := sv, rn_world := w, rn_refresh_in := interval\<rparr>
      | (Err e, sv, w) \<Rightarrow> s\<lparr>rn_service := sv, rn_world := w, rn_refresh_in := refresh_retry_secs e\<rparr>
      | (Panic, sv, w) \<Rightarrow> s\<lparr>rn_service := sv, rn_world := w, rn_phase := Crashed\<rparr>)"

definition liquidation_tick ::
    "('d, 'p) service_env \<Rightarrow> 'd service_config \<Rightarrow> 'd run_state \<Rightarrow> 'd run_state" where
  "liquidation_tick SE cf s =
     (case liquidation_cycle SE cf (rn_service s) (rn_world s) of
        (Ok sv, w) \<Rightarrow> s\<lparr>rn_service := sv, rn_world := w\<rparr>
      | (_, w) \<Rightarrow> s\<lparr>rn_world := w, rn_phase := Crashed\<rparr>)"

text \<open>The token list is loaded once before the initial refresh, which only logs a failure; the timer starts
  afterwards either way.\<close>

definition run_start ::
    "('x, 'act) oracle_env \<Rightarrow> fetcher \<Rightarrow> 'd service_config \<Rightarrow> nat \<Rightarrow> (asset \<Rightarrow> asset \<Rightarrow> bool) option
     \<Rightarrow> 'd registry_reads \<Rightarrow> nat \<Rightarrow> 'd service \<Rightarrow> world \<Rightarrow> 'd run_state" where
  "run_start E F cf interval supported rr now sv w =
     (case refresh_registry E F cf rr now (reload_tokens supported sv) w of
        (res, sv', w') \<Rightarrow> \<lparr>rn_service = sv', rn_world = w', rn_refresh_in = interval,
            rn_phase = (case res of Panic \<Rightarrow> Crashed | _ \<Rightarrow> Looping)\<rparr>)"

definition run_tick ::
    "('x, 'act) oracle_env \<Rightarrow> fetcher \<Rightarrow> ('d, 'p) service_env \<Rightarrow> 'd service_config \<Rightarrow> nat \<Rightarrow> 'd tick
     \<Rightarrow> 'd run_state \<Rightarrow> 'd run_state" where
  "run_tick E F SE cf interval tk s =
     (if e_shutdown (se_env SE) (w_trace (rn_world s)) then s\<lparr>rn_phase := Stopped\<rparr>
      else case tk of
        RegistryTick rr now \<Rightarrow> registry_tick E F cf interval rr now s
      | LiquidationTick \<Rightarrow> liquidation_tick SE cf s)"

inductive run_reach ::
    "('x, 'act) oracle_env \<Rightarrow> fetcher \<Rightarrow> ('d, 'p) service_env \<Rightarrow> 'd service_config \<Rightarrow> nat
     \<Rightarrow> 'd service \<Rightarrow> world \<Rightarrow> 'd run_state \<Rightarrow> bool"
  for E F SE cf interval sv0 w0 where
  start: "run_reach E F SE cf interval sv0 w0 (run_start E F cf interval supported rr now sv0 w0)"
| step: "run_reach E F SE cf interval sv0 w0 s \<Longrightarrow> rn_phase s = Looping \<Longrightarrow>
     run_reach E F SE cf interval sv0 w0 (run_tick E F SE cf interval tk s)"

inductive_cases run_reach_cases: "run_reach E F SE cf interval sv0 w0 s"

section \<open>Lemmas\<close>

lemma subseq_imp_distinct: "subseq xs ys \<Longrightarrow> distinct ys \<Longrightarrow> distinct xs"
  by (induction rule: list_emb.induct) (auto dest: list_emb_set)

lemma refresh_registry_stage:
  assumes "refresh_registry E F cf rr now sv w = (res, sv', w')" "ledger_ok (w_inventory w)"
  shows "stage dry w w'"
  using assms
  by (auto simp: refresh_registry_def Let_def stage_def extends_def ledger_kept_def ledger_ok_def ledger_views
      split: sum.splits prod.splits)

text \<open>Every market of the service was admitted, and its liquidator was built from what admitted it.\<close>

definition market_admitted ::
    "('x, 'act) oracle_env \<Rightarrow> fetcher \<Rightarrow> 'd service_config \<Rightarrow> (asset \<Rightarrow> asset \<Rightarrow> bool) option
     \<Rightarrow> account_id \<times> 'd liquidator \<Rightarrow> bool" where
  "market_admitted E F cf provider ml \<longleftrightarrow>
     (\<exists>rr config version. admissible E F cf rr (fst ml) config version
        \<and> snd ml = liquidator_new cf provider (fst ml) config version)"

lemma market_admitted_dry: "market_admitted E F cf provider ml \<Longrightarrow> dry_run_mode (snd ml) = cf_dry_run cf"
  by (auto simp: market_admitted_def dry_run_mode_def liquidator_new_def)

definition registry_ok ::
    "('x, 'act) oracle_env \<Rightarrow> fetcher \<Rightarrow> 'd service_config \<Rightarrow> 'd service \<Rightarrow> bool" where
  "registry_ok E F cf sv \<longleftrightarrow> distinct (map fst (sv_markets sv))
     \<and> list_all (market_admitted E F cf (sv_swap_provider sv)) (sv_markets sv)"

lemma reload_tokens_ok:
  assumes "registry_ok E F cf sv"
  shows "registry_ok E F cf (reload_tokens answer sv)"
proof -
  have "market_admitted E F cf (Some supports) (market, share_tokens supports lq)"
    if "market_admitted E F cf (Some p) (market, lq)" for p supports market lq
    using that unfolding market_admitted_def fst_conv snd_conv by (metis share_tokens_new)
  with assms show ?thesis
    by (auto simp: registry_ok_def reload_tokens_def list_all_iff comp_def case_prod_unfold split: option.splits)
qed

lemma refresh_registry_ok:
  assumes "refresh_registry E F cf rr now sv w = (res, sv', w')" "registry_ok E F cf sv"
  shows "registry_ok E F cf sv'"
proof (cases res)
  case (Ok u)
  let ?build = "\<lambda>(market, config, version). (market, liquidator_new cf (sv_swap_provider sv') market config version)"
  obtain listed t cs st where r:
      "admission_loop E F cf rr (dedupe_deployments listed) [] (sv_oracle sv) = (cs, t, st)"
      "sv_markets sv' = map ?build cs"
    using assms(1) unfolding Ok by (auto elim: refresh_registry_Ok)
  note props = admission_loop_props [OF r(1), unfolded tally_ok_def, simplified]
  have "map fst (map ?build cs) = map fst cs" by (induction cs) auto
  moreover have "distinct (map fst cs)"
    using props dedupe_loop_props [of "[]" listed]
    by (auto simp: dedupe_deployments_def dest: subseq_imp_distinct)
  moreover have "list_all (market_admitted E F cf (sv_swap_provider sv')) (map ?build cs)"
    using props by (fastforce simp: list_all_iff market_admitted_def)
  ultimately show ?thesis unfolding registry_ok_def r(2) by (simp only: simp_thms)
next
  case (Err e)
  with assms refresh_registry_Err show ?thesis by metis
next
  case Panic
  with assms(1) refresh_registry_no_panic show ?thesis by (metis fst_conv)
qed

lemma cycle_keeps_markets:
  assumes "liquidation_cycle SE cf sv w = (Ok sv', w')"
  shows "sv_markets sv' = sv_markets sv" "sv_swap_provider sv' = sv_swap_provider sv"
proof -
  have "sv_markets sv' = sv_markets sv \<and> sv_swap_provider sv' = sv_swap_provider sv"
  proof -
    define sv1 where "sv1 = sv\<lparr>sv_metrics := inc_scan (sv_metrics sv)\<rparr>"
    obtain sv2 acc where "sv_markets sv' = sv_markets sv2" "sv_swap_provider sv' = sv_swap_provider sv2"
        "sv2 = sv1\<lparr>sv_scan_failure_counts := ra_counts acc, sv_metrics := ra_metrics acc\<rparr>"
      using assms unfolding liquidation_cycle_def Let_def sv1_def [symmetric] run_liquidation_round_def
      by (auto split: outcome.splits prod.splits if_splits)
    then show ?thesis by (simp add: sv1_def)
  qed
  then show "sv_markets sv' = sv_markets sv" "sv_swap_provider sv' = sv_swap_provider sv" by simp_all
qed

text \<open>The invariant of the loop.\<close>

definition run_ok ::
    "('x, 'act) oracle_env \<Rightarrow> fetcher \<Rightarrow> 'd service_config \<Rightarrow> world \<Rightarrow> 'd run_state \<Rightarrow> bool" where
  "run_ok E F cf w0 s \<longleftrightarrow> stage (cf_dry_run cf) w0 (rn_world s) \<and> registry_ok E F cf (rn_service s)"

lemma registry_tick_ok:
  assumes "run_ok E F cf w0 s"
  shows "run_ok E F cf w0 (registry_tick E F cf interval rr now s)"
proof -
  obtain res sv w where r: "refresh_registry E F cf rr now (rn_service s) (rn_world s) = (res, sv, w)"
    by (metis prod_cases3)
  have "stage (cf_dry_run cf) w0 (rn_world s)" "registry_ok E F cf (rn_service s)"
    using assms by (simp_all add: run_ok_def)
  then have "stage (cf_dry_run cf) w0 w" "registry_ok E F cf sv"
    using stage_trans [OF _ refresh_registry_stage [OF r stage_ledger]] refresh_registry_ok [OF r] by blast+
  then show ?thesis using r by (cases res) (simp_all add: registry_tick_def run_ok_def)
qed

lemma liquidation_tick_ok:
  assumes "run_ok E F cf w0 s" "service_env_ok SE"
  shows "run_ok E F cf w0 (liquidation_tick SE cf s)"
proof -
  obtain res w where c: "liquidation_cycle SE cf (rn_service s) (rn_world s) = (res, w)" by fastforce
  have ok: "stage (cf_dry_run cf) w0 (rn_world s)" "registry_ok E F cf (rn_service s)"
    using assms(1) by (simp_all add: run_ok_def)
  have dry: "(market, lq) \<in> set (sv_markets (rn_service s)) \<Longrightarrow> cf_dry_run cf \<Longrightarrow> dry_run_mode lq" for market lq
    using ok(2) market_admitted_dry by (fastforce simp: registry_ok_def list_all_iff)
  have "stage (cf_dry_run cf) (rn_world s) w"
    using cycle_stage [OF c assms(2) stage_ledger [OF ok(1)], of "cf_dry_run cf"] dry by blast
  then have "stage (cf_dry_run cf) w0 w" by (rule stage_trans [OF ok(1)])
  moreover have "registry_ok E F cf sv" if "res = Ok sv" for sv
    using ok(2) cycle_keeps_markets [OF c [unfolded that]] by (simp add: registry_ok_def)
  ultimately show ?thesis using c ok(2) by (cases res) (simp_all add: liquidation_tick_def run_ok_def)
qed

lemma run_reach_ok:
  assumes "run_reach E F SE cf interval sv0 w0 s"
    and "service_env_ok SE" "ledger_ok (w_inventory w0)" "registry_ok E F cf sv0"
  shows "run_ok E F cf w0 s"
  using assms(1)
proof (induction rule: run_reach.induct)
  case (start supported rr now)
  obtain res sv w where r: "refresh_registry E F cf rr now (reload_tokens supported sv0) w0 = (res, sv, w)"
    by (metis prod_cases3)
  with refresh_registry_stage [OF r assms(3)] refresh_registry_ok [OF r reload_tokens_ok [OF assms(4)]] show ?case
    by (simp add: run_start_def run_ok_def)
next
  case (step s tk)
  show ?case
  proof (cases "e_shutdown (se_env SE) (w_trace (rn_world s))")
    case True
    with step.IH show ?thesis by (simp add: run_tick_def run_ok_def)
  next
    case False
    with registry_tick_ok [OF step.IH] liquidation_tick_ok [OF step.IH assms(2)] show ?thesis
      by (cases tk) (simp_all add: run_tick_def)
  qed
qed

end
