(* ===== verification/Push_Check.thy ===== *)
theory Push_Check
  imports Service
begin

text \<open>
  src/push_check.rs and its runner in src/service.rs (\<open>run_push_check\<close>, \<open>push_check_cycle\<close>,
  \<open>freshness\<close>) with the one on-chain price read of src/oracle.rs it needs (\<open>onchain_publish_times\<close>).

  The gateway's view call, the JSON of its arguments and \<open>hex::encode\<close> are \<open>push_check_env\<close>. The push is
  the oracle's own \<open>update_onchain_prices\<close>. The order of the markets is that of their account ids.
\<close>

section \<open>Verdicts and reports\<close>

record feed_freshness =
  ff_price_id :: price_id
  publish_time_secs :: "int option"

datatype push_verdict = Fresh | Stale string

fun push_verdict_to_string :: "push_verdict \<Rightarrow> string" where
  "push_verdict_to_string Fresh = ''fresh''"
| "push_verdict_to_string (Stale reason) = ''stale ('' @ reason @ '')''"

definition saturating_sub_i64 :: "int \<Rightarrow> int \<Rightarrow> int" where
  "saturating_sub_i64 a b = max i64_min (min i64_max (a - b))"

definition short_id :: "(string \<Rightarrow> string) \<Rightarrow> price_id \<Rightarrow> string" where
  "short_id hex_encode pid = hex_encode (take 4 pid) @ ellipsis"

definition feed_problem :: "(string \<Rightarrow> string) \<Rightarrow> int \<Rightarrow> nat \<Rightarrow> feed_freshness \<Rightarrow> string option" where
  "feed_problem hex_encode now_secs max_age_secs feed =
     (case publish_time_secs feed of
        None \<Rightarrow> Some (short_id hex_encode (ff_price_id feed) @ '': no cached price'')
      | Some published \<Rightarrow>
          let age = saturating_sub_i64 now_secs published in
          if int max_age_secs < age
          then Some (short_id hex_encode (ff_price_id feed) @ '': '' @ show_int age @ ''s old, bound ''
                 @ show_nat max_age_secs @ ''s'')
          else None)"

definition judge :: "(string \<Rightarrow> string) \<Rightarrow> int \<Rightarrow> nat \<Rightarrow> feed_freshness list \<Rightarrow> push_verdict" where
  "judge hex_encode now_secs max_age_secs feeds =
     (let problems = List.map_filter (feed_problem hex_encode now_secs max_age_secs) feeds
      in if problems = [] then Fresh else Stale (join_with ''; '' problems))"

definition render_ages :: "(string \<Rightarrow> string) \<Rightarrow> int \<Rightarrow> feed_freshness list \<Rightarrow> string" where
  "render_ages hex_encode now_secs feeds =
     join_with '', '' (map (\<lambda>feed.
       case publish_time_secs feed of
         None \<Rightarrow> short_id hex_encode (ff_price_id feed) @ '': none''
       | Some published \<Rightarrow> short_id hex_encode (ff_price_id feed) @ '': ''
           @ show_int (saturating_sub_i64 now_secs published) @ ''s'') feeds)"

record market_push_report =
  mp_market :: account_id
  mp_oracle :: account_id
  mp_max_age_secs :: nat
  mp_pushed :: bool
  mp_before :: "feed_freshness list"
  mp_after :: "feed_freshness list"
  mp_verdict :: push_verdict

record push_check_report =
  pr_dry_run :: bool
  pr_markets :: "market_push_report list"

definition passed :: "push_check_report \<Rightarrow> bool" where
  "passed r \<longleftrightarrow> \<not> pr_dry_run r \<and> pr_markets r \<noteq> []
     \<and> list_all (\<lambda>m. mp_pushed m \<and> mp_verdict m = Fresh) (pr_markets r)"

definition pushed_count :: "push_check_report \<Rightarrow> nat" where
  "pushed_count r = length (filter mp_pushed (pr_markets r))"

definition fresh_count :: "push_check_report \<Rightarrow> nat" where
  "fresh_count r = length (filter (\<lambda>m. mp_verdict m = Fresh) (pr_markets r))"

section \<open>The run\<close>

record push_check_env =
  pc_args :: "price_id list \<Rightarrow> nat \<Rightarrow> string + string" \<comment> \<open>the JSON of the arguments\<close>
  pc_view :: "otrace \<Rightarrow> view_call \<Rightarrow> string + (string + (price_id \<rightharpoonup> pyth_price option))"
  pc_hex :: "string \<Rightarrow> string"

definition WIDE_BOUND_SECS :: nat where
  "WIDE_BOUND_SECS = 10 * 365 * 24 * 60 * 60"

definition onchain_publish_times ::
    "push_check_env \<Rightarrow> account_id \<Rightarrow> price_id list \<Rightarrow> oracle_state
     \<Rightarrow> (liquidator_error + (price_id \<rightharpoonup> int option)) \<times> oracle_state" where
  "onchain_publish_times PC oracle_id price_ids st =
     (case pc_args PC price_ids WIDE_BOUND_SECS of
        Inl error \<Rightarrow> (Inl (PriceFetchError (DeserializeError error)), st)
      | Inr args \<Rightarrow>
          let call = \<lparr>call_account = oracle_id, call_method = ''list_ema_prices_no_older_than'', call_args = args\<rparr>;
              st1 = ask (OEView call) st
          in (case pc_view PC (os_trace st) call of
                Inl error \<Rightarrow> (Inl (PriceFetchError (rpc_error_from_gateway error)), st1)
              | Inr (Inl error) \<Rightarrow> (Inl (PriceFetchError (DeserializeError error)), st1)
              | Inr (Inr response) \<Rightarrow> (Inr (\<lambda>pid. map_option (map_option publish_time) (response pid)), st1)))"

definition freshness ::
    "push_check_env \<Rightarrow> account_id \<Rightarrow> price_id list \<Rightarrow> oracle_state
     \<Rightarrow> (liquidator_error + feed_freshness list) \<times> oracle_state" where
  "freshness PC oracle_id price_ids st =
     (case onchain_publish_times PC oracle_id price_ids st of
        (Inl e, st1) \<Rightarrow> (Inl e, st1)
      | (Inr published, st1) \<Rightarrow>
          (Inr (map (\<lambda>pid. \<lparr>ff_price_id = pid, publish_time_secs = Option.bind (published pid) id\<rparr>) price_ids), st1))"

text \<open>One market: read, push unless this is a dry run, read again, judge the last read.\<close>

definition check_market ::
    "('sig, 'rid, 'key) crypto \<Rightarrow> ('x, 'act) oracle_env \<Rightarrow> fetcher \<Rightarrow> push_check_env \<Rightarrow> bool
     \<Rightarrow> account_id \<Rightarrow> 'd market_configuration \<Rightarrow> oracle_state \<Rightarrow> market_push_report \<times> oracle_state" where
  "check_market C E F PC dry_run market config st =
     (let oc = price_oracle_configuration config;
          oracle_id = oracle_account_id oc; ids = market_price_ids config;
          (before_read, st1) = freshness PC oracle_id ids st;
          before_now = unix_now_secs E (os_trace st1); st2 = ask OEClock st1;
          before = (case before_read of Inr feeds \<Rightarrow> feeds | Inl _ \<Rightarrow> []);
          (pushed, st3) = (if dry_run then (False, st2)
             else (case update_onchain_prices C E F oracle_id ids st2 of
                     (Inr pushed, st3) \<Rightarrow> (pushed, st3) | (Inl _, st3) \<Rightarrow> (False, st3)));
          ((after_read, after_now), st4) = (if dry_run then ((before_read, before_now), st3)
             else let (read, st4) = freshness PC oracle_id ids st3
                  in ((read, unix_now_secs E (os_trace st4)), ask OEClock st4));
          (after, verdict) = (case after_read of
               Inr feeds \<Rightarrow> (feeds, judge (pc_hex PC) after_now (price_maximum_age_s oc) feeds)
             | Inl error \<Rightarrow> ([], Stale (''freshness read failed: '' @ liquidator_error_to_string error)))
      in (\<lparr>mp_market = market, mp_oracle = oracle_id, mp_max_age_secs = price_maximum_age_s oc,
           mp_pushed = pushed, mp_before = before, mp_after = after, mp_verdict = verdict\<rparr>, st4))"

fun check_loop ::
    "('sig, 'rid, 'key) crypto \<Rightarrow> ('x, 'act) oracle_env \<Rightarrow> fetcher \<Rightarrow> push_check_env \<Rightarrow> bool
     \<Rightarrow> (account_id \<times> 'd liquidator) list \<Rightarrow> oracle_state \<Rightarrow> market_push_report list \<times> oracle_state" where
  "check_loop C E F PC dry_run [] st = ([], st)"
| "check_loop C E F PC dry_run ((market, lq) # rest) st =
     (let (report, st1) = check_market C E F PC dry_run market (lq_config lq) st;
          (reports, st2) = check_loop C E F PC dry_run rest st1
      in (report # reports, st2))"

definition push_check_cycle ::
    "('sig, 'rid, 'key) crypto \<Rightarrow> ('x, 'act) oracle_env \<Rightarrow> fetcher \<Rightarrow> push_check_env \<Rightarrow> 'd service_config
     \<Rightarrow> 'd service \<Rightarrow> push_check_report \<times> 'd service" where
  "push_check_cycle C E F PC cf sv =
     (let (reports, st) = check_loop C E F PC (cf_dry_run cf) (sort_key fst (sv_markets sv)) (sv_oracle sv)
      in (\<lparr>pr_dry_run = cf_dry_run cf, pr_markets = reports\<rparr>, sv\<lparr>sv_oracle := st\<rparr>))"

definition run_push_check ::
    "('sig, 'rid, 'key) crypto \<Rightarrow> ('x, 'act) oracle_env \<Rightarrow> fetcher \<Rightarrow> push_check_env \<Rightarrow> 'd service_config
     \<Rightarrow> 'd registry_reads \<Rightarrow> nat \<Rightarrow> 'd service \<Rightarrow> world
     \<Rightarrow> (liquidator_error, push_check_report) outcome \<times> 'd service \<times> world" where
  "run_push_check C E F PC cf rr now sv w =
     (case refresh_registry E F cf rr now sv w of
        (Ok _, sv1, w1) \<Rightarrow>
          if sv_markets sv1 = [] then (Err NoMarkets, sv1, w1)
          else (case push_check_cycle C E F PC cf sv1 of (report, sv2) \<Rightarrow> (Ok report, sv2, w1))
      | (Err e, sv1, w1) \<Rightarrow> (Err e, sv1, w1)
      | (Panic, sv1, w1) \<Rightarrow> (Panic, sv1, w1))"

section \<open>Lemmas\<close>

lemma saturating_sub_within:
  assumes "i64_min \<le> a" "a \<le> i64_max" "i64_min \<le> b" "b \<le> i64_max" "n \<le> u32_max"
  shows "saturating_sub_i64 a b \<le> int n \<longleftrightarrow> a - b \<le> int n"
  using assms by (auto simp: saturating_sub_i64_def i64_max_def i64_min_def u32_max_def)

lemma judge_Fresh_iff:
  "judge hex_encode now_secs max_age feeds = Fresh \<longleftrightarrow>
     (\<forall>feed \<in> set feeds. \<exists>t. publish_time_secs feed = Some t \<and> saturating_sub_i64 now_secs t \<le> int max_age)"
proof -
  have "List.map_filter f xs = [] \<longleftrightarrow> (\<forall>x \<in> set xs. f x = None)" for f :: "feed_freshness \<Rightarrow> string option" and xs
    by (induction xs) (auto simp: List.map_filter_simps split: option.splits)
  moreover have "feed_problem hex_encode now_secs max_age feed = None \<longleftrightarrow>
      (\<exists>t. publish_time_secs feed = Some t \<and> saturating_sub_i64 now_secs t \<le> int max_age)" for feed
    by (auto simp: feed_problem_def Let_def split: option.splits)
  ultimately show ?thesis by (simp add: judge_def Let_def)
qed

lemma judge_total: "judge hex_encode now_secs max_age feeds = Fresh \<or> (\<exists>r. judge hex_encode now_secs max_age feeds = Stale r)"
  by (cases "judge hex_encode now_secs max_age feeds") auto

text \<open>The view call, made after \<open>tr\<close>, asks for exactly these feeds, is answered, and the answer gives every
  one of them a price within the bound by the clock as it stands after the call.\<close>

definition read_fresh ::
    "('x, 'act) oracle_env \<Rightarrow> push_check_env \<Rightarrow> otrace \<Rightarrow> view_call \<Rightarrow> account_id \<Rightarrow> price_id list \<Rightarrow> nat \<Rightarrow> bool" where
  "read_fresh E PC tr call oracle_id ids max_age \<longleftrightarrow>
     call_account call = oracle_id \<and> call_method call = ''list_ema_prices_no_older_than''
     \<and> pc_args PC ids WIDE_BOUND_SECS = Inr (call_args call)
     \<and> (\<exists>response. pc_view PC tr call = Inr (Inr response)
          \<and> (\<forall>pid \<in> set ids. \<exists>p. response pid = Some (Some p)
               \<and> saturating_sub_i64 (unix_now_secs E (OEView call # tr)) (publish_time p) \<le> int max_age))"

lemma freshness_scans: "freshness PC a ids st = (res, st') \<Longrightarrow> scans st st'"
  by (auto simp: freshness_def onchain_publish_times_def Let_def split: sum.splits)

lemma freshness_read_fresh:
  assumes "freshness PC a ids st = (Inr feeds, st')"
    and "judge (pc_hex PC) (unix_now_secs E (os_trace st')) max_age feeds = Fresh"
  shows "\<exists>call. os_trace st' = OEView call # os_trace st \<and> read_fresh E PC (os_trace st) call a ids max_age"
proof -
  obtain args where args: "pc_args PC ids WIDE_BOUND_SECS = Inr args"
    using assms(1) by (auto simp: freshness_def onchain_publish_times_def split: sum.splits)
  let ?call = "\<lparr>call_account = a, call_method = ''list_ema_prices_no_older_than'', call_args = args\<rparr>"
  obtain response where r: "pc_view PC (os_trace st) ?call = Inr (Inr response)"
    using assms(1) args by (auto simp: freshness_def onchain_publish_times_def Let_def split: sum.splits)
  have st': "os_trace st' = OEView ?call # os_trace st"
    and feeds: "feeds = map (\<lambda>pid. \<lparr>ff_price_id = pid,
        publish_time_secs = Option.bind (map_option (map_option publish_time) (response pid)) id\<rparr>) ids"
    using assms(1) args r by (auto simp: freshness_def onchain_publish_times_def Let_def)
  have "\<exists>p. response pid = Some (Some p)
      \<and> saturating_sub_i64 (unix_now_secs E (OEView ?call # os_trace st)) (publish_time p) \<le> int max_age"
    if "pid \<in> set ids" for pid
    using bspec [OF assms(2) [unfolded judge_Fresh_iff st' feeds], of "\<lparr>ff_price_id = pid,
        publish_time_secs = Option.bind (map_option (map_option publish_time) (response pid)) id\<rparr>"] that
    by (auto simp: bind_eq_Some_conv)
  with args r have "read_fresh E PC (os_trace st) ?call a ids max_age" unfolding read_fresh_def by simp
  with st' show ?thesis by blast
qed

text \<open>What one market's report is evidence of, in a run that started at \<open>base\<close>: a verdict of fresh is a view
  call of the run that read every feed fresh, and in a market that counts as pushed that call came right
  after a re-aggregation the run asked for and that was carried out.\<close>

definition report_backed ::
    "('x, 'act) oracle_env \<Rightarrow> push_check_env \<Rightarrow> otrace \<Rightarrow> otrace \<Rightarrow> 'd market_configuration \<Rightarrow> market_push_report \<Rightarrow> bool" where
  "report_backed E PC base tr config r \<longleftrightarrow>
     (let oc = price_oracle_configuration config; a = oracle_account_id oc; ids = market_price_ids config in
      mp_verdict r = Fresh \<longrightarrow>
        (\<exists>later call mine. tr = later @ OEView call # mine @ base
           \<and> read_fresh E PC (mine @ base) call a ids (price_maximum_age_s oc)
           \<and> (mp_pushed r \<longrightarrow> (\<exists>pre. mine = OEUpdateProxy a ids # pre \<and> reaggregated E (pre @ base) a ids))))"

lemma report_backedI:
  assumes "mp_verdict r = Fresh \<Longrightarrow> \<exists>later call mine. tr = later @ OEView call # mine @ base
      \<and> read_fresh E PC (mine @ base) call (oracle_account_id (price_oracle_configuration config))
          (market_price_ids config) (price_maximum_age_s (price_oracle_configuration config))
      \<and> (mp_pushed r \<longrightarrow> (\<exists>pre. mine = OEUpdateProxy (oracle_account_id (price_oracle_configuration config))
              (market_price_ids config) # pre
            \<and> reaggregated E (pre @ base) (oracle_account_id (price_oracle_configuration config)) (market_price_ids config)))"
  shows "report_backed E PC base tr config r"
  using assms by (simp add: report_backed_def Let_def)

lemma report_backed_widen:
  assumes "report_backed E PC (new @ base) tr config r"
  shows "report_backed E PC base (more_events @ tr) config r"
proof (rule report_backedI)
  let ?oc = "price_oracle_configuration config"
  let ?a = "oracle_account_id ?oc" and ?ids = "market_price_ids config"
  assume "mp_verdict r = Fresh"
  with assms obtain later call mine where m: "tr = later @ OEView call # mine @ new @ base"
    "read_fresh E PC (mine @ new @ base) call ?a ?ids (price_maximum_age_s ?oc)"
    "mp_pushed r \<longrightarrow> (\<exists>pre. mine = OEUpdateProxy ?a ?ids # pre \<and> reaggregated E (pre @ new @ base) ?a ?ids)"
    unfolding report_backed_def Let_def by blast
  from m have "more_events @ tr = (more_events @ later) @ OEView call # (mine @ new) @ base
    \<and> read_fresh E PC ((mine @ new) @ base) call ?a ?ids (price_maximum_age_s ?oc)
    \<and> (mp_pushed r \<longrightarrow> (\<exists>pre. mine @ new = OEUpdateProxy ?a ?ids # pre \<and> reaggregated E (pre @ base) ?a ?ids))"
    by auto
  then show "\<exists>later call mine. more_events @ tr = later @ OEView call # mine @ base
    \<and> read_fresh E PC (mine @ base) call ?a ?ids (price_maximum_age_s ?oc)
    \<and> (mp_pushed r \<longrightarrow> (\<exists>pre. mine = OEUpdateProxy ?a ?ids # pre \<and> reaggregated E (pre @ base) ?a ?ids))"
    by blast
qed

lemma check_market_effect:
  assumes "check_market C E F PC dry market config st = (r, st')"
  shows "mp_market r = market \<and> report_backed E PC (os_trace st) (os_trace st') config r
    \<and> (\<exists>new. os_trace st' = new @ os_trace st) \<and> (dry \<longrightarrow> scans st st' \<and> \<not> mp_pushed r)"
proof -
  let ?oc = "price_oracle_configuration config"
  let ?a = "oracle_account_id ?oc" and ?ids = "market_price_ids config" and ?age = "price_maximum_age_s ?oc"
  obtain before st1 where b: "freshness PC ?a ?ids st = (before, st1)" by fastforce
  have s1: "scans st (ask OEClock st1)" using scans_trans [OF freshness_scans [OF b] scans_ask] by simp
  then obtain n1 where n1: "os_trace st1 = n1 @ os_trace st"
    using freshness_scans [OF b] by (auto simp: scans_def grows_def)
  show ?thesis
  proof (cases dry)
    case True
    have r: "st' = ask OEClock st1" "\<not> mp_pushed r" "mp_market r = market"
      "mp_verdict r = (case before of
          Inr feeds \<Rightarrow> judge (pc_hex PC) (unix_now_secs E (os_trace st1)) ?age feeds
        | Inl error \<Rightarrow> Stale (''freshness read failed: '' @ liquidator_error_to_string error))"
      using assms True b by (auto simp: check_market_def Let_def split: sum.splits prod.splits)
    have "report_backed E PC (os_trace st) (os_trace st') config r"
    proof (rule report_backedI)
      assume fresh: "mp_verdict r = Fresh"
      then obtain feeds where "before = Inr feeds" using r(4) by (cases before) auto
      with freshness_read_fresh [of PC ?a ?ids st feeds st1] b fresh r(4) obtain call where
        "os_trace st1 = OEView call # os_trace st" "read_fresh E PC (os_trace st) call ?a ?ids ?age" by auto
      then show "\<exists>later call mine. os_trace st' = later @ OEView call # mine @ os_trace st
          \<and> read_fresh E PC (mine @ os_trace st) call ?a ?ids ?age
          \<and> (mp_pushed r \<longrightarrow> (\<exists>pre. mine = OEUpdateProxy ?a ?ids # pre \<and> reaggregated E (pre @ os_trace st) ?a ?ids))"
        using r(1,2) by (intro exI [of _ "[OEClock]"] exI [of _ call] exI [of _ "[]"]) simp
    qed
    with r s1 n1 True show ?thesis by auto
  next
    case False
    obtain u st3 where u: "update_onchain_prices C E F ?a ?ids (ask OEClock st1) = (u, st3)" by fastforce
    obtain after st4 where a: "freshness PC ?a ?ids st3 = (after, st4)" by fastforce
    have r: "st' = ask OEClock st4" "mp_pushed r \<longleftrightarrow> u = Inr True" "mp_market r = market"
      "mp_verdict r = (case after of
          Inr feeds \<Rightarrow> judge (pc_hex PC) (unix_now_secs E (os_trace st4)) ?age feeds
        | Inl error \<Rightarrow> Stale (''freshness read failed: '' @ liquidator_error_to_string error))"
      using assms False b u a by (auto simp: check_market_def Let_def split: sum.splits prod.splits)
    obtain n4 where n4: "os_trace st4 = n4 @ os_trace st3"
      using freshness_scans [OF a] by (auto simp: scans_def grows_def)
    have push: "\<exists>n3. os_trace st3 = n3 @ os_trace st
      \<and> (u = Inr True \<longrightarrow> (\<exists>pre. n3 = OEUpdateProxy ?a ?ids # pre \<and> reaggregated E (pre @ os_trace st) ?a ?ids))"
      using u
    proof (cases rule: update_onchain_prices_effect [consumes 1])
      case idle
      then obtain n where "os_trace st3 = n @ os_trace (ask OEClock st1)" by (auto simp: scans_def grows_def)
      with idle(2) n1 show ?thesis by (intro exI [of _ "n @ OEClock # n1"]) simp
    next
      case (pushed st2)
      then obtain n where n: "os_trace st2 = n @ OEClock # n1 @ os_trace st" using n1 by (auto simp: grows_def)
      with pushed(2,4) show ?thesis by (intro exI [of _ "OEUpdateProxy ?a ?ids # n @ OEClock # n1"]) simp
    qed
    then obtain n3 where n3: "os_trace st3 = n3 @ os_trace st"
      "u = Inr True \<longrightarrow> (\<exists>pre. n3 = OEUpdateProxy ?a ?ids # pre \<and> reaggregated E (pre @ os_trace st) ?a ?ids)" by blast
    have "report_backed E PC (os_trace st) (os_trace st') config r"
    proof (rule report_backedI)
      assume fresh: "mp_verdict r = Fresh"
      then obtain feeds where "after = Inr feeds" using r(4) by (cases after) auto
      with freshness_read_fresh [of PC ?a ?ids st3 feeds st4] a fresh r(4) obtain call where
        "os_trace st4 = OEView call # os_trace st3" "read_fresh E PC (os_trace st3) call ?a ?ids ?age" by auto
      then show "\<exists>later call mine. os_trace st' = later @ OEView call # mine @ os_trace st
          \<and> read_fresh E PC (mine @ os_trace st) call ?a ?ids ?age
          \<and> (mp_pushed r \<longrightarrow> (\<exists>pre. mine = OEUpdateProxy ?a ?ids # pre \<and> reaggregated E (pre @ os_trace st) ?a ?ids))"
        using r(1,2) n3 by (intro exI [of _ "[OEClock]"] exI [of _ call] exI [of _ n3]) simp
    qed
    with r n3(1) n4 False show ?thesis by auto
  qed
qed

lemma check_loop_effect:
  "check_loop C E F PC dry ms st = (reports, st') \<Longrightarrow>
     (\<exists>new. os_trace st' = new @ os_trace st)
     \<and> list_all2 (\<lambda>(market, lq) r. mp_market r = market
          \<and> report_backed E PC (os_trace st) (os_trace st') (lq_config lq) r) ms reports
     \<and> (dry \<longrightarrow> scans st st' \<and> list_all (\<lambda>r. \<not> mp_pushed r) reports)"
proof (induction ms arbitrary: st reports)
  case (Cons m ms)
  obtain market lq where m: "m = (market, lq)" by (cases m)
  obtain r st1 where r: "check_market C E F PC dry market (lq_config lq) st = (r, st1)" by fastforce
  obtain rs st2 where rs: "check_loop C E F PC dry ms st1 = (rs, st2)" by fastforce
  have eq: "reports = r # rs" "st' = st2" using Cons.prems m r rs by auto
  note one = check_market_effect [OF r] and rest = Cons.IH [OF rs [folded eq(2)]]
  obtain new1 where new1: "os_trace st1 = new1 @ os_trace st" using one by blast
  obtain new where new: "os_trace st' = new @ os_trace st1" using rest by blast
  have "report_backed E PC (os_trace st) (os_trace st') (lq_config lq) r"
    using one report_backed_widen [of E PC "[]" "os_trace st" "os_trace st1" "lq_config lq" r new] new by simp
  moreover have "list_all2 (\<lambda>(market, lq) r. mp_market r = market
      \<and> report_backed E PC (os_trace st) (os_trace st') (lq_config lq) r) ms rs"
    using rest report_backed_widen [of E PC new1 "os_trace st" "os_trace st'" _ _ "[]"] new1
    by (auto elim!: list_all2_mono)
  ultimately show ?case using one rest eq m new new1 by (auto intro: scans_trans)
qed auto

end
