(* ===== verification/Notifier.thy ===== *)
theory Notifier
  imports World
begin

text \<open>
  src/notifier.rs: the texts of the notifications, the bounded queue in front of the channel, and the
  suppression of repeated failure alerts.

  The channel is the outside: a message it was handed is in \<open>nt_sent\<close> (latest first), and a send in
  flight holds a permit until \<open>send_done\<close>. Time is milliseconds. The dedup map is an association list.
\<close>

section \<open>Texts\<close>

definition html_escape :: "string \<Rightarrow> string" where
  "html_escape s =
     replace_char (CHR ''>'') ''&gt;'' (replace_char (CHR ''<'') ''&lt;'' (replace_char (CHR ''&'') ''&amp;'' s))"

definition code :: "string \<Rightarrow> string" where
  "code s = ''<code>'' @ html_escape s @ ''</code>''"

definition format_liquidation_message ::
    "string \<Rightarrow> string \<Rightarrow> string \<Rightarrow> string \<Rightarrow> string \<Rightarrow> string option \<Rightarrow> bool \<Rightarrow> string" where
  "format_liquidation_message market borrower send_amount receive_amount profit tx_hash dry_run =
     (if dry_run then [CHR 0xF0, CHR 0x9F, CHR 0xA7, CHR 0xAA] @ '' DRY RUN '' else [])
     @ [CHR 0xE2, CHR 0x9C, CHR 0x85] @ '' <b>Liquidation Executed</b>'' @ newline @ newline
     @ ''Market: '' @ code market @ newline
     @ ''Borrower: '' @ code borrower @ newline
     @ ''Sent: '' @ html_escape send_amount @ newline
     @ ''Received: '' @ html_escape receive_amount @ newline
     @ ''Profit: '' @ html_escape profit
     @ (case tx_hash of None \<Rightarrow> [] | Some h \<Rightarrow> newline @ ''Tx: '' @ code h)"

definition format_liquidation_failed_message :: "string \<Rightarrow> string \<Rightarrow> string \<Rightarrow> string" where
  "format_liquidation_failed_message market borrower error =
     [CHR 0xE2, CHR 0x9D, CHR 0x8C] @ '' <b>Liquidation Failed</b>'' @ newline @ newline
     @ ''Market: '' @ code market @ newline
     @ ''Borrower: '' @ code borrower @ newline
     @ ''Error: '' @ html_escape error"

definition format_swap_failed_message :: "string \<Rightarrow> string \<Rightarrow> string \<Rightarrow> string \<Rightarrow> string \<Rightarrow> string" where
  "format_swap_failed_message market from_asset to_asset amount error =
     [CHR 0xE2, CHR 0x9A, CHR 0xA0, CHR 0xEF, CHR 0xB8, CHR 0x8F] @ '' <b>Swap Failed</b>'' @ newline @ newline
     @ ''Market: '' @ code market @ newline
     @ ''From: '' @ code from_asset @ newline
     @ ''To: '' @ code to_asset @ newline
     @ ''Amount: '' @ html_escape amount @ newline
     @ ''Error: '' @ html_escape error"

definition format_swap_unsupported_message :: "string \<Rightarrow> string \<Rightarrow> string \<Rightarrow> string \<Rightarrow> string" where
  "format_swap_unsupported_message market from_asset to_asset amount =
     [CHR 0xF0, CHR 0x9F, CHR 0x9A, CHR 0xAB] @ '' <b>Swap Unsupported</b>'' @ newline @ newline
     @ ''Market: '' @ code market @ newline
     @ ''From: '' @ code from_asset @ newline
     @ ''To: '' @ code to_asset @ newline
     @ ''Amount: '' @ html_escape amount @ newline @ newline
     @ ''Asset pair not supported by swap provider.''"

definition format_scan_failures_message :: "string \<Rightarrow> nat \<Rightarrow> string \<Rightarrow> string" where
  "format_scan_failures_message market cnt last_error =
     [CHR 0xF0, CHR 0x9F, CHR 0x94, CHR 0xB4] @ '' <b>Market Scan Failing</b>'' @ newline @ newline
     @ ''Market: '' @ code market @ newline
     @ ''Consecutive failures: '' @ show_nat cnt @ newline
     @ ''Last error: '' @ html_escape last_error"

definition format_scan_recovered_message :: "string \<Rightarrow> nat \<Rightarrow> string" where
  "format_scan_recovered_message market prev_failures =
     [CHR 0xF0, CHR 0x9F, CHR 0x9F, CHR 0xA2] @ '' <b>Market Recovered</b>'' @ newline @ newline
     @ ''Market: '' @ code market @ newline
     @ ''After '' @ show_nat prev_failures @ '' consecutive failures.''"

section \<open>The notifier\<close>

definition MAX_INFLIGHT_NOTIFICATIONS :: nat where "MAX_INFLIGHT_NOTIFICATIONS = 10"
definition DEFAULT_FAILURE_NOTIFY_COOLDOWN_HOURS :: nat where "DEFAULT_FAILURE_NOTIFY_COOLDOWN_HOURS = 24"
definition DEFAULT_FAILURE_NOTIFY_COOLDOWN :: nat where
  "DEFAULT_FAILURE_NOTIFY_COOLDOWN = DEFAULT_FAILURE_NOTIFY_COOLDOWN_HOURS * 60 * 60 * 1000"

type_synonym dedup_key = "string \<times> string \<times> notification_kind"

record notifier =
  nt_channel :: bool
  nt_inflight :: nat
  nt_max_inflight :: nat
  nt_failure_dedup :: "(dedup_key \<times> nat) list"
  nt_failure_cooldown :: nat
  nt_sent :: "string list"

text \<open>\<open>Semaphore::new\<close> of tokio panics above \<open>MAX_PERMITS\<close>, which is \<open>usize::MAX >> 3\<close>.\<close>

definition MAX_PERMITS :: nat where "MAX_PERMITS = 2 ^ 61 - 1"

definition with_channel :: "bool \<Rightarrow> nat \<Rightarrow> nat \<Rightarrow> (string, notifier) outcome" where
  "with_channel channel failure_cooldown max_inflight0 =
     (let max_inflight = max max_inflight0 1 in
      if MAX_PERMITS < max_inflight then Panic
      else Ok \<lparr>nt_channel = channel, nt_inflight = 0, nt_max_inflight = max_inflight, nt_failure_dedup = [],
               nt_failure_cooldown = failure_cooldown, nt_sent = []\<rparr>)"

text \<open>\<open>client_builds\<close>: reqwest's \<open>Client::new\<close>, which the Telegram channel calls, does not panic.\<close>

definition with_limits :: "bool \<Rightarrow> bool \<Rightarrow> nat \<Rightarrow> nat \<Rightarrow> (string, notifier) outcome" where
  "with_limits client_builds telegram failure_cooldown max_inflight =
     (if telegram \<and> \<not> client_builds then Panic
      else with_channel telegram failure_cooldown max_inflight)"

definition with_cooldown :: "bool \<Rightarrow> bool \<Rightarrow> nat \<Rightarrow> (string, notifier) outcome" where
  "with_cooldown client_builds telegram failure_cooldown =
     with_limits client_builds telegram failure_cooldown MAX_INFLIGHT_NOTIFICATIONS"

definition notifier_new :: "bool \<Rightarrow> bool \<Rightarrow> (string, notifier) outcome" where
  "notifier_new client_builds telegram = with_cooldown client_builds telegram DEFAULT_FAILURE_NOTIFY_COOLDOWN"

definition spawn_send :: "string \<Rightarrow> notifier \<Rightarrow> bool \<times> notifier" where
  "spawn_send message nt =
     (if \<not> nt_channel nt then (True, nt)
      else if nt_max_inflight nt \<le> nt_inflight nt then (False, nt)
      else (True, nt\<lparr>nt_inflight := nt_inflight nt + 1, nt_sent := message # nt_sent nt\<rparr>))"

definition send_done :: "notifier \<Rightarrow> notifier" where
  "send_done nt = nt\<lparr>nt_inflight := nt_inflight nt - 1\<rparr>"

text \<open>\<open>drain\<close> returns without its warning once every permit is free.\<close>

definition drained :: "notifier \<Rightarrow> bool" where
  "drained nt \<longleftrightarrow> \<not> nt_channel nt \<or> nt_inflight nt = 0"

definition should_send_failure :: "nat \<Rightarrow> string \<Rightarrow> string \<Rightarrow> notification_kind \<Rightarrow> notifier \<Rightarrow> bool \<times> notifier" where
  "should_send_failure now market borrower kind nt =
     (let dedup = filter (\<lambda>(k, prev). now - prev < nt_failure_cooldown nt) (nt_failure_dedup nt);
          key = (market, borrower, kind)
      in case map_of dedup key of
           Some prev \<Rightarrow>
             if now - prev < nt_failure_cooldown nt then (False, nt\<lparr>nt_failure_dedup := dedup\<rparr>)
             else (True, nt\<lparr>nt_failure_dedup := AList.update key now dedup\<rparr>)
         | None \<Rightarrow> (True, nt\<lparr>nt_failure_dedup := AList.update key now dedup\<rparr>))"

definition rollback_failure_dedup :: "string \<Rightarrow> string \<Rightarrow> notification_kind \<Rightarrow> notifier \<Rightarrow> notifier" where
  "rollback_failure_dedup market borrower kind nt =
     nt\<lparr>nt_failure_dedup := AList.delete (market, borrower, kind) (nt_failure_dedup nt)\<rparr>"

definition clear_failure_dedup_for :: "string \<Rightarrow> string \<Rightarrow> notifier \<Rightarrow> notifier" where
  "clear_failure_dedup_for market borrower nt =
     nt\<lparr>nt_failure_dedup := filter (\<lambda>((m, b, k), prev). \<not> (m = market \<and> b = borrower)) (nt_failure_dedup nt)\<rparr>"

text \<open>The first component tells whether the alert was suppressed, dropped or queued.\<close>

datatype failure_alert = Suppressed | Dropped | Queued

definition notify_liquidation_failed ::
    "nat \<Rightarrow> string \<Rightarrow> string \<Rightarrow> notification_kind \<Rightarrow> string \<Rightarrow> notifier \<Rightarrow> failure_alert \<times> notifier" where
  "notify_liquidation_failed now market borrower kind error nt =
     (case should_send_failure now market borrower kind nt of
        (False, nt1) \<Rightarrow> (Suppressed, nt1)
      | (True, nt1) \<Rightarrow>
          (case spawn_send (format_liquidation_failed_message market borrower error) nt1 of
             (True, nt2) \<Rightarrow> (Queued, nt2)
           | (False, nt2) \<Rightarrow> (Dropped, rollback_failure_dedup market borrower kind nt2)))"

text \<open>The notifications that only hand a text to the queue.\<close>

definition notify_swap_failed :: "string \<Rightarrow> string \<Rightarrow> string \<Rightarrow> string \<Rightarrow> string \<Rightarrow> notifier \<Rightarrow> notifier" where
  "notify_swap_failed market from_asset to_asset amount error nt =
     snd (spawn_send (format_swap_failed_message market from_asset to_asset amount error) nt)"

definition notify_scan_failures :: "string \<Rightarrow> nat \<Rightarrow> string \<Rightarrow> notifier \<Rightarrow> notifier" where
  "notify_scan_failures market n last_error nt = snd (spawn_send (format_scan_failures_message market n last_error) nt)"

definition notify_scan_recovered :: "string \<Rightarrow> nat \<Rightarrow> notifier \<Rightarrow> notifier" where
  "notify_scan_recovered market prev_failures nt = snd (spawn_send (format_scan_recovered_message market prev_failures) nt)"

definition notify_swap_unsupported :: "string \<Rightarrow> string \<Rightarrow> string \<Rightarrow> string \<Rightarrow> notifier \<Rightarrow> notifier" where
  "notify_swap_unsupported market from_asset to_asset amount nt =
     snd (spawn_send (format_swap_unsupported_message market from_asset to_asset amount) nt)"

text \<open>What the notifier makes of one event of the trace, at the time it happens.\<close>

fun notify_event :: "nat \<Rightarrow> event \<Rightarrow> notifier \<Rightarrow> notifier" where
  "notify_event now (EvNotifyLiquidation market borrower send_amount receive_amount profit dry_run) nt =
     snd (spawn_send (format_liquidation_message market borrower send_amount receive_amount profit None dry_run) nt)"
| "notify_event now (EvNotifySwap market (Unsupported from_asset to_asset amount)) nt =
     notify_swap_unsupported market from_asset to_asset amount nt"
| "notify_event now (EvNotifySwap market (Failed from_asset to_asset amount error)) nt =
     notify_swap_failed market from_asset to_asset amount error nt"
| "notify_event now (EvNotifyFailed market borrower kind error) nt =
     snd (notify_liquidation_failed now market borrower kind error nt)"
| "notify_event now (EvClearDedup market borrower) nt = clear_failure_dedup_for market borrower nt"
| "notify_event now (EvNotifyScanFailures market cnt error) nt =
     notify_scan_failures market cnt error nt"
| "notify_event now (EvNotifyScanRecovered market prev) nt =
     notify_scan_recovered market prev nt"
| "notify_event now _ nt = nt"

lemmas notify_defs = notify_swap_failed_def notify_scan_failures_def notify_scan_recovered_def notify_swap_unsupported_def

section \<open>Lemmas: texts\<close>

lemma html_escape_Cons:
  "html_escape (c # s) =
     (if c = CHR ''&'' then ''&amp;'' else if c = CHR ''<'' then ''&lt;'' else if c = CHR ''>'' then ''&gt;'' else [c])
     @ html_escape s"
  by (simp add: html_escape_def)

lemma html_escape_Nil [simp]: "html_escape [] = []"
  by (simp add: html_escape_def)

text \<open>The entities read back.\<close>

fun html_unescape :: "string \<Rightarrow> string" where
  "html_unescape [] = []"
| "html_unescape (c # s) =
     (if c = CHR ''&'' then
        (case strip_prefix ''amp;'' s of Some r \<Rightarrow> c # html_unescape (drop 4 s) | None \<Rightarrow>
        (case strip_prefix ''lt;'' s of Some r \<Rightarrow> CHR ''<'' # html_unescape (drop 3 s) | None \<Rightarrow>
        (case strip_prefix ''gt;'' s of Some r \<Rightarrow> CHR ''>'' # html_unescape (drop 3 s) | None \<Rightarrow>
           c # html_unescape s)))
      else c # html_unescape s)"

lemma html_unescape_escape: "html_unescape (html_escape s) = s"
  by (induction s) (simp_all add: html_escape_Cons strip_prefix_def)

lemma html_escape_clean: "CHR ''<'' \<notin> set (html_escape s)" "CHR ''>'' \<notin> set (html_escape s)"
  by (induction s) (auto simp: html_escape_Cons)

section \<open>Lemmas: the queue and the cooldown\<close>

definition notifier_ok :: "notifier \<Rightarrow> bool" where
  "notifier_ok nt \<longleftrightarrow> nt_inflight nt \<le> nt_max_inflight nt \<and> distinct (map fst (nt_failure_dedup nt))"

lemma spawn_send_cases:
  assumes "spawn_send msg nt = (q, nt')"
  shows "nt_failure_dedup nt' = nt_failure_dedup nt" "nt_failure_cooldown nt' = nt_failure_cooldown nt"
    "nt_channel nt' = nt_channel nt" "nt_max_inflight nt' = nt_max_inflight nt"
    "q \<longleftrightarrow> \<not> nt_channel nt \<or> nt_inflight nt < nt_max_inflight nt"
    "nt_sent nt' = (if q \<and> nt_channel nt then msg # nt_sent nt else nt_sent nt)"
    "nt_inflight nt \<le> nt_max_inflight nt \<Longrightarrow> nt_inflight nt' \<le> nt_max_inflight nt'"
  using assms by (auto simp: spawn_send_def split: if_splits)

lemma map_of_filter_val:
  "distinct (map fst al) \<Longrightarrow> map_of (filter (\<lambda>(k, v). P k v) al) k =
     (case map_of al k of Some v \<Rightarrow> if P k v then Some v else None | None \<Rightarrow> None)"
proof (induction al)
  case (Cons kv al)
  obtain k' v' where kv: "kv = (k', v')" by (cases kv)
  have "map_of al k = None" if "k = k'" using that Cons.prems kv by (simp add: map_of_eq_None_iff)
  with Cons kv show ?case by (auto split: option.splits)
qed simp

lemma distinct_keys_filter: "distinct (map fst al) \<Longrightarrow> distinct (map fst (filter P al))"
  by (simp add: distinct_map_filter)

abbreviation last_alert :: "notifier \<Rightarrow> dedup_key \<Rightarrow> nat option" where
  "last_alert nt \<equiv> map_of (nt_failure_dedup nt)"

lemma should_send_failure_cases:
  assumes "should_send_failure now market borrower kind nt = (ok, nt')" "notifier_ok nt"
  shows "ok \<longleftrightarrow> (case last_alert nt (market, borrower, kind) of
                   Some prev \<Rightarrow> nt_failure_cooldown nt \<le> now - prev | None \<Rightarrow> True)"
    "last_alert nt' k = (if ok \<and> k = (market, borrower, kind) then Some now
        else case last_alert nt k of
               Some prev \<Rightarrow> if now - prev < nt_failure_cooldown nt then Some prev else None | None \<Rightarrow> None)"
    "notifier_ok nt'" "nt_failure_cooldown nt' = nt_failure_cooldown nt" "nt_channel nt' = nt_channel nt"
    "nt_inflight nt' = nt_inflight nt" "nt_max_inflight nt' = nt_max_inflight nt" "nt_sent nt' = nt_sent nt"
proof -
  have d: "distinct (map fst (nt_failure_dedup nt))" using assms(2) by (simp add: notifier_ok_def)
  note mo = map_of_filter_val [OF d, of "\<lambda>k prev. now - prev < nt_failure_cooldown nt"]
  show "ok \<longleftrightarrow> (case last_alert nt (market, borrower, kind) of
                   Some prev \<Rightarrow> nt_failure_cooldown nt \<le> now - prev | None \<Rightarrow> True)"
    "last_alert nt' k = (if ok \<and> k = (market, borrower, kind) then Some now
        else case last_alert nt k of
               Some prev \<Rightarrow> if now - prev < nt_failure_cooldown nt then Some prev else None | None \<Rightarrow> None)"
    using assms(1) by (auto simp: should_send_failure_def Let_def mo split: option.splits if_splits)
  show "notifier_ok nt'" "nt_failure_cooldown nt' = nt_failure_cooldown nt" "nt_channel nt' = nt_channel nt"
    "nt_inflight nt' = nt_inflight nt" "nt_max_inflight nt' = nt_max_inflight nt" "nt_sent nt' = nt_sent nt"
    using assms
    by (auto simp: should_send_failure_def Let_def notifier_ok_def distinct_keys_update distinct_keys_filter
        split: option.splits if_splits)
qed

lemma notify_failed_cases:
  assumes "notify_liquidation_failed now market borrower kind error nt = (res, nt')" "notifier_ok nt"
  shows "res = Suppressed \<longleftrightarrow> (\<exists>prev. last_alert nt (market, borrower, kind) = Some prev
            \<and> now - prev < nt_failure_cooldown nt)"
    "res = Queued \<Longrightarrow> last_alert nt' (market, borrower, kind) = Some now"
    "res = Dropped \<Longrightarrow> last_alert nt' (market, borrower, kind) = None"
    "k \<noteq> (market, borrower, kind) \<or> res = Suppressed \<Longrightarrow> last_alert nt' k = (case last_alert nt k of
               Some prev \<Rightarrow> if now - prev < nt_failure_cooldown nt then Some prev else None | None \<Rightarrow> None)"
    "notifier_ok nt'" "nt_failure_cooldown nt' = nt_failure_cooldown nt"
    "nt_sent nt' = (if res = Queued \<and> nt_channel nt
        then format_liquidation_failed_message market borrower error # nt_sent nt else nt_sent nt)"
proof -
  obtain ok nt1 where s: "should_send_failure now market borrower kind nt = (ok, nt1)" by fastforce
  note sc = should_send_failure_cases [OF s assms(2)]
  obtain q nt2 where q: "spawn_send (format_liquidation_failed_message market borrower error) nt1 = (q, nt2)" by fastforce
  note qc = spawn_send_cases [OF q]
  have run: "(res, nt') = (if \<not> ok then (Suppressed, nt1) else if q then (Queued, nt2)
      else (Dropped, rollback_failure_dedup market borrower kind nt2))"
    using assms(1) s q by (auto simp: notify_liquidation_failed_def split: bool.splits)
  show "res = Suppressed \<longleftrightarrow> (\<exists>prev. last_alert nt (market, borrower, kind) = Some prev
            \<and> now - prev < nt_failure_cooldown nt)"
    using run sc(1) by (auto split: if_splits option.splits)
  show "res = Queued \<Longrightarrow> last_alert nt' (market, borrower, kind) = Some now"
    using run sc(2) qc(1) by (auto split: if_splits)
  show "res = Dropped \<Longrightarrow> last_alert nt' (market, borrower, kind) = None"
    using run by (auto simp: rollback_failure_dedup_def delete_conv' split: if_splits)
  show "k \<noteq> (market, borrower, kind) \<or> res = Suppressed \<Longrightarrow> last_alert nt' k = (case last_alert nt k of
               Some prev \<Rightarrow> if now - prev < nt_failure_cooldown nt then Some prev else None | None \<Rightarrow> None)"
    using run sc(2) [of k] qc(1) by (auto simp: rollback_failure_dedup_def delete_conv' split: if_splits)
  show "notifier_ok nt'" "nt_failure_cooldown nt' = nt_failure_cooldown nt"
    "nt_sent nt' = (if res = Queued \<and> nt_channel nt
        then format_liquidation_failed_message market borrower error # nt_sent nt else nt_sent nt)"
    using run sc qc by (auto simp: notifier_ok_def rollback_failure_dedup_def distinct_delete split: if_splits)
qed

section \<open>Runs of the notifier\<close>

datatype notifier_op = Happens event | SendDone

text \<open>The failure alert an operation queues, with its time and key.\<close>

definition alert_of :: "nat \<Rightarrow> notifier_op \<Rightarrow> notifier \<Rightarrow> (nat \<times> dedup_key) list" where
  "alert_of now op nt =
     (case op of
        Happens (EvNotifyFailed market borrower kind error) \<Rightarrow>
          if fst (notify_liquidation_failed now market borrower kind error nt) = Queued
          then [(now, market, borrower, kind)] else []
      | _ \<Rightarrow> [])"

fun notifier_step :: "nat \<Rightarrow> notifier_op \<Rightarrow> notifier \<Rightarrow> notifier" where
  "notifier_step now (Happens ev) nt = notify_event now ev nt"
| "notifier_step now SendDone nt = send_done nt"

fun alerts :: "(nat \<times> notifier_op) list \<Rightarrow> notifier \<Rightarrow> (nat \<times> dedup_key) list" where
  "alerts [] nt = []"
| "alerts ((now, op) # ops) nt = alert_of now op nt @ alerts ops (notifier_step now op nt)"

lemma notifier_ok_clear: "notifier_ok nt \<Longrightarrow> notifier_ok (clear_failure_dedup_for m b nt)"
  by (auto simp: notifier_ok_def clear_failure_dedup_for_def intro: distinct_keys_filter)

lemma spawn_send_ok: "notifier_ok nt \<Longrightarrow> notifier_ok (snd (spawn_send msg nt))"
  by (auto simp: spawn_send_def notifier_ok_def)

lemma last_alert_clear:
  assumes "notifier_ok nt"
  shows "last_alert (clear_failure_dedup_for m b nt) (m', b', k) =
     (if m' = m \<and> b' = b then None else last_alert nt (m', b', k))"
proof -
  have "distinct (map fst (nt_failure_dedup nt))" using assms by (simp add: notifier_ok_def)
  from map_of_filter_val [OF this, of "\<lambda>(m', b', k) prev. \<not> (m' = m \<and> b' = b)"] show ?thesis
    by (simp add: clear_failure_dedup_for_def case_prod_unfold split: option.splits)
qed

lemma notifier_step_frame:
  assumes "notifier_ok nt"
  shows "notifier_ok (notifier_step now op nt)" "nt_failure_cooldown (notifier_step now op nt) = nt_failure_cooldown nt"
proof -
  have "notifier_ok (snd (spawn_send msg nt)) \<and> nt_failure_cooldown (snd (spawn_send msg nt)) = nt_failure_cooldown nt" for msg
    using spawn_send_ok [OF assms] spawn_send_cases(2) [of msg nt] by (metis prod.collapse)
  moreover have "notifier_ok (snd (notify_liquidation_failed now m b k e nt))
      \<and> nt_failure_cooldown (snd (notify_liquidation_failed now m b k e nt)) = nt_failure_cooldown nt" for m b k e
    using notify_failed_cases(5,6) [OF _ assms] by (metis prod.collapse)
  ultimately have "notifier_ok (notifier_step now op nt)
      \<and> nt_failure_cooldown (notifier_step now op nt) = nt_failure_cooldown nt"
    by (cases "(now, op, nt)" rule: notifier_step.cases; cases "(now, case op of Happens ev \<Rightarrow> ev | SendDone \<Rightarrow> EvPause 0, nt)" rule: notify_event.cases)
       (use assms in \<open>auto simp: notify_defs notifier_ok_clear clear_failure_dedup_for_def send_done_def notifier_ok_def intro: distinct_keys_filter\<close>)
  then show "notifier_ok (notifier_step now op nt)"
    "nt_failure_cooldown (notifier_step now op nt) = nt_failure_cooldown nt" by simp_all
qed

text \<open>An entry stays until its window has passed or its borrower is cleared.\<close>

lemma notifier_step_keeps:
  assumes "notifier_ok nt" "last_alert nt (m, b, k) = Some t" "now < t + nt_failure_cooldown nt" "t \<le> now"
    "op \<noteq> Happens (EvClearDedup m b)"
  shows "last_alert (notifier_step now op nt) (m, b, k) = Some t" "(now, m, b, k) \<notin> set (alert_of now op nt)"
proof -
  have young: "now - t < nt_failure_cooldown nt" using assms(3,4) by linarith
  have spawn: "last_alert (snd (spawn_send msg nt)) key = last_alert nt key" for msg key
    using spawn_send_cases(1) [of msg nt] by (metis prod.collapse)
  have failed: "last_alert (snd (notify_liquidation_failed now m' b' k' e nt)) (m, b, k) = Some t
      \<and> \<not> ((m', b', k') = (m, b, k) \<and> fst (notify_liquidation_failed now m' b' k' e nt) = Queued)" for m' b' k' e
  proof -
    obtain res nt' where r: "notify_liquidation_failed now m' b' k' e nt = (res, nt')" by fastforce
    note c = notify_failed_cases [OF r assms(1)]
    show ?thesis
    proof (cases "(m', b', k') = (m, b, k)")
      case True
      with c(1) assms(2) young have "res = Suppressed" by auto
      with c(4) [of "(m, b, k)"] assms(2) young r show ?thesis by auto
    next
      case False
      with c(4) [of "(m, b, k)"] assms(2) young r show ?thesis by auto
    qed
  qed
  show "last_alert (notifier_step now op nt) (m, b, k) = Some t"
    using assms(2,5) spawn failed last_alert_clear [OF assms(1)]
    by (cases "(now, op, nt)" rule: notifier_step.cases; cases "(now, case op of Happens ev \<Rightarrow> ev | SendDone \<Rightarrow> EvPause 0, nt)" rule: notify_event.cases)
       (auto simp: notify_defs send_done_def)
  show "(now, m, b, k) \<notin> set (alert_of now op nt)"
    using failed by (auto simp: alert_of_def split: notifier_op.splits event.splits)
qed

lemma alert_of_time: "(t, key) \<in> set (alert_of now op nt) \<Longrightarrow> t = now"
  by (auto simp: alert_of_def split: notifier_op.splits event.splits if_splits)

lemma alerts_time: "(t, key) \<in> set (alerts ops nt) \<Longrightarrow> t \<in> fst ` set ops"
  by (induction ops nt rule: alerts.induct) (auto dest: alert_of_time)

lemma alerts_after:
  assumes "notifier_ok nt" "last_alert nt (m, b, k) = Some t" "\<forall>(now, op) \<in> set ops. t \<le> now"
    "sorted (map fst ops)" "Happens (EvClearDedup m b) \<notin> snd ` set ops" "(t', m, b, k) \<in> set (alerts ops nt)"
  shows "t + nt_failure_cooldown nt \<le> t'"
  using assms
proof (induction ops arbitrary: nt)
  case (Cons now_op ops)
  obtain now op where no: "now_op = (now, op)" by (cases now_op)
  show ?case
  proof (cases "t + nt_failure_cooldown nt \<le> now")
    case True
    have "now \<le> t'" using alerts_time [OF Cons.prems(6)] Cons.prems(4) no by auto
    with True show ?thesis by linarith
  next
    case False
    have "op \<noteq> Happens (EvClearDedup m b)" "t \<le> now" using Cons.prems(3,5) no by auto
    note keeps = notifier_step_keeps [OF Cons.prems(1,2) _ this(2,1)] and frame = notifier_step_frame [OF Cons.prems(1), of now op]
    have "(t', m, b, k) \<in> set (alerts ops (notifier_step now op nt))"
      using Cons.prems(6) keeps(2) False alert_of_time [of t' "(m, b, k)" now op nt] no by auto
    with Cons.IH [OF frame(1) keeps(1)] Cons.prems(3-5) False no frame(2) show ?thesis by auto
  qed
qed simp

lemma alert_recorded:
  assumes "notifier_ok nt" "(t, key) \<in> set (alert_of now op nt)"
  shows "last_alert (notifier_step now op nt) key = Some now"
proof -
  obtain m b k e where op: "op = Happens (EvNotifyFailed m b k e)" and key: "key = (m, b, k)"
    and q: "fst (notify_liquidation_failed now m b k e nt) = Queued"
    using assms(2) by (auto simp: alert_of_def split: notifier_op.splits event.splits if_splits)
  from notify_failed_cases(2) [OF _ assms(1), of now m b k e] q show ?thesis
    by (simp add: op key) (metis prod.collapse)
qed

lemma alerts_spaced:
  assumes "notifier_ok nt" "sorted (map fst ops)" "Happens (EvClearDedup m b) \<notin> snd ` set ops"
  shows "sorted_wrt (\<lambda>(t, _) (t', _). t + nt_failure_cooldown nt \<le> t')
    (filter (\<lambda>(_, key). key = (m, b, k)) (alerts ops nt))"
  using assms
proof (induction ops arbitrary: nt)
  case (Cons now_op ops)
  obtain now op where no: "now_op = (now, op)" by (cases now_op)
  note frame = notifier_step_frame [OF Cons.prems(1), of now op]
  have rest: "sorted_wrt (\<lambda>(t, _) (t', _). t + nt_failure_cooldown nt \<le> t')
    (filter (\<lambda>(_, key). key = (m, b, k)) (alerts ops (notifier_step now op nt)))"
    using Cons.IH [OF frame(1)] Cons.prems(2,3) no frame(2) by auto
  have later: "\<forall>(now', op) \<in> set ops. now \<le> now'" using Cons.prems(2) no by auto
  have "now + nt_failure_cooldown nt \<le> t'"
    if "(now, m, b, k) \<in> set (alert_of now op nt)" "(t', m, b, k) \<in> set (alerts ops (notifier_step now op nt))" for t'
    using alerts_after [OF frame(1) alert_recorded [OF Cons.prems(1) that(1)] later _ _ that(2)] Cons.prems(2,3) no frame(2)
    by auto
  note spaced = this
  let ?key = "\<lambda>(_, key). key = (m, b, k)" and ?rest = "alerts ops (notifier_step now op nt)"
  have split: "filter ?key (alerts (now_op # ops) nt) = filter ?key (alert_of now op nt) @ filter ?key ?rest"
    by (simp add: no)
  have one: "length (alert_of now op nt) \<le> 1"
    by (auto simp: alert_of_def split: notifier_op.splits event.splits)
  show ?case
  proof (cases "(now, m, b, k) \<in> set (alert_of now op nt)")
    case True
    with one have "alert_of now op nt = [(now, m, b, k)]" by (cases "alert_of now op nt") auto
    with rest spaced [OF True] show ?thesis unfolding split by auto
  next
    case False
    then have "filter ?key (alert_of now op nt) = []"
      using alert_of_time [of _ "(m, b, k)" now op nt] by (auto simp: filter_empty_conv)
    with rest show ?thesis unfolding split by simp
  qed
qed simp

end
