(* ===== verification/Service_Properties.thy ===== *)
theory Service_Properties
  imports Run Push_Check Notifier Scenario
begin

text \<open>
  The properties of the service: the event loop, one cycle, the registry, the push check, the failure alerts, the
  notifier's texts and its cooldown, and the exposition text of the metrics.
\<close>

section \<open>A concrete service\<close>

text \<open>One registry that lists the market of the scenario twice, a proxy oracle with one Lazer source per feed.\<close>

definition sx_oracle_env :: "(rat, unit) oracle_env" where
  "sx_oracle_env =
     \<lparr>oe_list_proxies = (\<lambda>tr a. Inr ()), oe_get_proxy = (\<lambda>tr a pid. Inr (Some [SrcRequest (LazerRequest ''lazer'' 7)])),
      oe_view = (\<lambda>tr c. Inl ''''), oe_apply = (\<lambda>_ p _. Some p), oe_update_lazer = (\<lambda>tr a f. Inl ''''),
      oe_redstone_config = (\<lambda>tr a. Inl ''''), oe_write_prices = (\<lambda>tr a fs b. Inl ''''),
      oe_update_proxy = (\<lambda>tr a ids. Inl ''''),
      oe_gateway = (\<lambda>tr. \<lparr>gs_header_ok = (\<lambda>_. False), gs_send = (\<lambda>_ _. Inl ''''), gs_parse = (\<lambda>_. Inl ''''),
                          gs_canonical_status = (\<lambda>_. '''')\<rparr>),
      oe_lazer = (\<lambda>tr. \<lparr>ls_send = (\<lambda>_ _ _. Inl ''''), ls_now_secs = (\<lambda>_. 0), ls_from_str = (\<lambda>_. Inl ''''),
                        ls_endpoint_ok = True\<rparr>),
      oe_unix_ms = (\<lambda>tr. Some 0), oe_instant = (\<lambda>tr. 0)\<rparr>"

definition sx_fetcher :: fetcher where
  "sx_fetcher = \<lparr>f_pyth_pro_updates = True, f_redstone = None, f_lazer_api = True\<rparr>"

definition sx_config :: "rat service_config" where
  "sx_config =
     \<lparr>cf_registries = [''registry.near''], cf_strategy = sc_strategy, cf_collateral_strategy = Hold, cf_dry_run = True,
      cf_allowed_collateral_assets = [], cf_ignored_collateral_assets = [], cf_allowed_markets = [],
      cf_ignored_markets = [], cf_deprecated_markets = [], cf_loop_liquidation = True, cf_max_loop_iterations = 3,
      cf_min_swap_value_usd = Fin 1, cf_batch_swap_on_cycle_start = True,
      cf_swap_retry_config = default_retry_config, cf_scan_failure_notify_threshold = 3\<rparr>"

definition sx_registry :: "string + account_id list \<Rightarrow> rat registry_reads" where
  "sx_registry listing =
     \<lparr>rr_list_deployments = (\<lambda>_. listing), rr_completion = (\<lambda>rs. rs),
      rr_configuration = (\<lambda>a. if a = ''market.near'' then Inr sc_config else Inl ''MethodNotFound''),
      rr_version = (\<lambda>a. Inr ''1.1.0''), rr_supported = None\<rparr>"

definition sx_listing :: "account_id list" where
  "sx_listing = [''market.near'', ''proxy.near'', ''market.near'']"

definition sx_service :: "rat service" where
  "sx_service =
     \<lparr>sv_markets = [], sv_swap_provider = None, sv_collateral_price_map = [], sv_scan_failure_counts = Map.empty,
      sv_metrics = metrics_default,
      sv_oracle = \<lparr>os_proxy_cache = {}, os_memo = Map.empty, os_gateway = initial_fetch_state, os_trace = []\<rparr>\<rparr>"

definition sx_env :: "(rat, rat) service_env" where
  "sx_env =
     \<lparr>se_params = (\<lambda>_. sc_params (Inr (Some Healthy))), se_env = sc_env (Inr (Some Healthy)), se_pow10 = (\<lambda>_. Fin 1),
      se_oracle_prices = (\<lambda>tr a ids. Inl NoMarkets), se_balance = (\<lambda>tr a. Inr 1000), se_clk = (\<lambda>tr n. 0),
      se_unix_secs = (\<lambda>tr. 1)\<rparr>"

lemma sx_env_ok [simp]: "service_env_ok sx_env"
  by (simp add: service_env_ok_def sx_env_def sc_params_def sc_env_ok u128_max_def)

lemma sx_registry_ok [simp]: "registry_ok sx_oracle_env sx_fetcher sx_config sx_service"
  by (simp add: registry_ok_def sx_service_def)

lemma sx_version: "market_version_parse ''1.1.0'' = Some (MarketVersion 1 1 0)"
  by code_simp

lemma sx_not_found: "gateway_is_method_not_found ''MethodNotFound''"
  by code_simp

lemma sx_admission:
  "\<exists>st'. admission_loop sx_oracle_env sx_fetcher sx_config (sx_registry listing) (dedupe_deployments sx_listing) []
      (sv_oracle sx_service)
    = ([(''market.near'', sc_config, MarketVersion 1 1 0)], [(NotAMarket, 1)], st')"
proof -
  have d: "dedupe_deployments sx_listing = [''market.near'', ''proxy.near'']"
    by (simp add: dedupe_deployments_def sx_listing_def)
  have v: "\<not> MarketVersion 1 1 0 < MIN_SUPPORTED" by code_simp
  have p: "plan_offchain_sources [SrcRequest (LazerRequest ''lazer'' 7)] (offchain_legs_of sx_fetcher)
      = [Direct (OffLazer ''lazer'' 7) :: unit offchain_price_source]"
    by (simp add: plan_offchain_sources_def map_filter_simps offchain_legs_of_def sx_fetcher_def)
  have one: "\<exists>st'. admit_market sx_oracle_env sx_fetcher sx_config (sx_registry listing) ''market.near'' st
      = (Inr (sc_config, MarketVersion 1 1 0), st')" for st
  proof -
    have m: "market_rejection_reason ''market.near'' (cf_allowed_markets sx_config) (cf_deprecated_markets sx_config)
        (cf_ignored_markets sx_config) = None"
      by (simp add: market_rejection_reason_def sx_config_def)
    have s: "fst (should_process_market sx_config sc_config)"
      by (simp add: should_process_iff decimals_are_sane_def sc_config_def sx_config_def)
    have e: "oe_list_proxies sx_oracle_env tr a = Inr ()"
      "oe_get_proxy sx_oracle_env tr a pid = Inr (Some [SrcRequest (LazerRequest ''lazer'' 7)])" for tr a pid
      by (simp_all add: sx_oracle_env_def)
    have proxy: "\<exists>st'. is_proxy_oracle sx_oracle_env ''oracle.near'' st = (Inr True, st')" for st
      by (auto simp: is_proxy_oracle_def e Let_def)
    have plans: "\<exists>plans st'. resolve_offchain_plans sx_oracle_env sx_fetcher ''oracle.near'' (market_price_ids sc_config) [] st
        = (plans, st') \<and> offchain_admission (market_price_ids sc_config) plans = None" for st
      by (simp add: market_price_ids_def sc_config_def Let_def e p offchain_admission_def)
    have "\<exists>st'. offchain_priceable sx_oracle_env sx_fetcher ''oracle.near'' (market_price_ids sc_config) st = (Inr None, st')" for st
    proof -
      obtain st1 where 1: "is_proxy_oracle sx_oracle_env ''oracle.near'' st = (Inr True, st1)" using proxy by blast
      obtain plans st2 where "resolve_offchain_plans sx_oracle_env sx_fetcher ''oracle.near'' (market_price_ids sc_config) [] st1
        = (plans, st2)" "offchain_admission (market_price_ids sc_config) plans = None" using plans by blast
      with 1 show ?thesis by (simp add: offchain_priceable_def)
    qed
    then obtain st2 where 2: "offchain_priceable sx_oracle_env sx_fetcher ''oracle.near'' (market_price_ids sc_config)
        (snd (is_proxy_oracle sx_oracle_env ''oracle.near'' st)) = (Inr None, st2)" by blast
    have "oracle_account_id (price_oracle_configuration sc_config) = ''oracle.near''" by (simp add: sc_config_def)
    with m s v 2 show ?thesis
      by (simp add: admit_market_def sx_registry_def sx_version Let_def)
  qed
  have two: "admit_market sx_oracle_env sx_fetcher sx_config (sx_registry listing) ''proxy.near'' st = (Inl NotAMarket, st)" for st
  proof -
    have "market_rejection_reason ''proxy.near'' (cf_allowed_markets sx_config) (cf_deprecated_markets sx_config)
        (cf_ignored_markets sx_config) = None"
      by (simp add: market_rejection_reason_def sx_config_def)
    then show ?thesis by (simp add: admit_market_def sx_registry_def sx_not_found)
  qed
  have t: "tally_record NotAMarket [] = [(NotAMarket, 1)]" by (simp add: tally_record_def)
  obtain st1 where st1: "admit_market sx_oracle_env sx_fetcher sx_config (sx_registry listing) ''market.near''
      (sv_oracle sx_service) = (Inr (sc_config, MarketVersion 1 1 0), st1)" using one by blast
  show ?thesis by (simp add: d st1 two t)
qed

lemma sx_refresh:
  obtains sv w where "refresh_registry sx_oracle_env sx_fetcher sx_config (sx_registry (Inr sx_listing)) 0 sx_service (sc_world [])
      = (Ok (), sv, w)"
    "map fst (sv_markets sv) = [''market.near'']"
proof -
  obtain st' where a: "admission_loop sx_oracle_env sx_fetcher sx_config (sx_registry (Inr sx_listing)) (dedupe_deployments sx_listing) []
      (sv_oracle sx_service) = ([(''market.near'', sc_config, MarketVersion 1 1 0)], [(NotAMarket, 1)], st')"
    using sx_admission by blast
  have "list_all_deployments (sx_registry (Inr sx_listing)) (cf_registries sx_config) = Inr sx_listing"
    by (simp add: list_all_deployments_def sx_registry_def sx_config_def)
  with a that show thesis by (simp add: refresh_registry_def Let_def)
qed

section \<open>The event loop\<close>



text \<open>
  What a single run reports: it fails exactly when the registry listing fails, with that error, or when
  no deployment is admitted; no error of a market or of a liquidation makes it fail.
\<close>

theorem run_once_fails_iff:
  "fst (run_once E F SE cf rr now sv w) = Err e \<longleftrightarrow>
     (case list_all_deployments rr (cf_registries cf) of
        Inl msg \<Rightarrow> e = ListDeploymentsError (rpc_error_from_gateway msg)
      | Inr listed \<Rightarrow> fst (admission_loop E F cf rr (dedupe_deployments listed) [] (sv_oracle sv)) = [] \<and> e = NoMarkets)"
  by (rule run_once_error_iff)

section \<open>One cycle\<close>

text \<open>
  C19: A cycle accounts for exactly the scans it made. From the world in which its round starts (balances
  refreshed, collateral swapped if configured) to the one in which it ends, the cycle made a chain of scans
  over the registry in its order: each market at most once, each a run of that market's own liquidator from
  the world the previous one left, with only pauses and notifications between them; a market is left out
  only when the shutdown flag is up at the end, so without a shutdown every market is scanned, whatever
  errors the others gave. The counters grew by one cycle and by the sums, over the clean scans among these,
  of the candidates, attempts, successes, failures and unfunded skips each reported (the attempts of each
  being its successes and failures), the failure counter by the number of failed ones; and the health gauge
  is the time at which the cycle ended if some scan was clean, and unmoved if none was.
\<close>

theorem cycle_accounts_for_its_round:
  assumes "liquidation_cycle SE cf sv w = (Ok sv', w')" "service_env_ok SE" "ledger_ok (w_inventory w)"
  shows "\<exists>scs w4. scan_chain SE (sv_markets sv) (round_start SE cf sv w) scs w4
     \<and> w' = refresh_collateral_in SE w4
     \<and> map fst scs = take (length scs) (map fst (sv_markets sv))
     \<and> (length scs = length (sv_markets sv) \<or> e_shutdown (se_env SE) (w_trace w4))
     \<and> list_all (\<lambda>s. rs_attempted s = rs_succeeded s + rs_failed s) (clean_scans scs)
     \<and> length (clean_scans scs) + failed_scans scs = length scs
     \<and> counted scs (se_unix_secs SE (w_trace w')) (sv_metrics sv) (sv_metrics sv')"
proof -
  obtain scs w4 where c: "scan_chain SE (sv_markets sv) (round_start SE cf sv w) scs w4"
    "w' = refresh_collateral_in SE w4" "map fst scs = take (length scs) (map fst (sv_markets sv))"
    "length scs < length (sv_markets sv) \<longrightarrow> e_shutdown (se_env SE) (w_trace w4)"
    "list_all summary_balanced (clean_scans scs)" "length (clean_scans scs) + failed_scans scs = length scs"
    "counted scs (se_unix_secs SE (w_trace w')) (sv_metrics sv) (sv_metrics sv')"
    using assms by (rule cycle_scans)
  from arg_cong [OF c(3), of length] have "length scs \<le> length (sv_markets sv)" by simp
  with c show ?thesis
    by (intro exI [of _ scs] exI [of _ w4]) (auto simp: list_all_iff summary_balanced_def)
qed

text \<open>Two markets: the prices of the first cannot be read, the second has no borrower.\<close>

definition sx_two_env :: "(rat, rat) service_env" where
  "sx_two_env = sx_env\<lparr>se_params := (\<lambda>market. (sc_params (Inr (Some Healthy)))\<lparr>p_env := (sc_env (Inr (Some Healthy)))\<lparr>
     e_oracle_prices := (\<lambda>tr. if market = ''down.near'' then Inl NoMarkets else Inr sc_prices),
     e_list_positions := (\<lambda>tr off n. Inr [])\<rparr>\<rparr>)\<rparr>"

definition sx_two_markets :: "rat service" where
  "sx_two_markets = sx_service\<lparr>sv_markets := [(''down.near'', sc_liquidator True), (''market.near'', sc_liquidator True)]\<rparr>"

lemma sx_two_scans:
  "\<exists>w1. run_liquidations (se_params sx_two_env ''down.near'') (sc_liquidator True) w = (Err NoMarkets, w1)"
  "\<exists>w1. run_liquidations (se_params sx_two_env ''market.near'') (sc_liquidator True) w = (Ok round_summary_default, w1)"
proof -
  have cfg: "lq_config (sc_liquidator True) = sc_config" by (simp add: sc_liquidator_def)
  show "\<exists>w1. run_liquidations (se_params sx_two_env ''down.near'') (sc_liquidator True) w = (Err NoMarkets, w1)"
    by (simp add: run_liquidations_unfold sx_two_env_def Let_def)
  have "covers_all sc_prices [''b'', ''c'']" by (simp add: covers_all_def sc_prices_def)
  moreover have ids: "borrow_asset_price_id (price_oracle_configuration sc_config) = ''b''"
    "collateral_asset_price_id (price_oracle_configuration sc_config) = ''c''" by (simp_all add: sc_config_def)
  moreover have "e_oracle_prices (p_env (se_params sx_two_env ''market.near'')) tr = Inr sc_prices" for tr
    by (simp add: sx_two_env_def)
  moreover have "\<exists>w2. get_all_borrows (p_env (se_params sx_two_env ''market.near'')) w' = (Ok [], w2)" for w'
    unfolding get_all_borrows_def by (subst borrows_loop.simps) (simp add: sx_two_env_def)
  then obtain w2 where "get_all_borrows (p_env (se_params sx_two_env ''market.near''))
      (emit (EvPricesFetched (oracle_account_id (price_oracle_configuration sc_config)) [''b'', ''c'']) w) = (Ok [], w2)"
    by blast
  ultimately show "\<exists>w1. run_liquidations (se_params sx_two_env ''market.near'') (sc_liquidator True) w = (Ok round_summary_default, w1)"
    by (simp add: run_liquidations_unfold cfg Let_def)
qed

theorem cycle_accounts_for_its_round_witness:
  "\<exists>sv' w'. liquidation_cycle sx_two_env sx_config sx_two_markets (sc_world []) = (Ok sv', w')
     \<and> scans_total (sv_metrics sv') = 1 \<and> market_scan_failures_total (sv_metrics sv') = 1
     \<and> last_successful_scan_unix (sv_metrics sv') = 1"
proof -
  let ?sv = sx_two_markets and ?w = "sc_world []"
  have markets: "sv_markets ?sv = [(''down.near'', sc_liquidator True), (''market.near'', sc_liquidator True)]"
    "sv_metrics ?sv = metrics_default" "sv_scan_failure_counts ?sv = Map.empty"
    by (simp_all add: sx_two_markets_def sx_service_def)
  have quiet: "\<not> e_shutdown (se_env sx_two_env) tr" "se_unix_secs sx_two_env tr = 1" for tr
    by (simp_all add: sx_two_env_def sx_env_def sc_env_def)
  have ok: "service_env_ok sx_two_env"
    by (simp add: service_env_ok_def sx_two_env_def sx_env_def sc_params_def env_ok_def sc_env_def u128_max_def)
  have ledger: "ledger_ok (w_inventory ?w)" by (simp add: sc_world_def sc_ledger_ok)
  obtain sv' w' where run: "liquidation_cycle sx_two_env sx_config ?sv ?w = (Ok sv', w')"
  proof -
    let ?sv1 = "?sv\<lparr>sv_metrics := inc_scan (sv_metrics ?sv)\<rparr>" and ?w3 = "round_start sx_two_env sx_config ?sv ?w"
    obtain w1 where 1: "run_liquidations (se_params sx_two_env ''down.near'') (sc_liquidator True) ?w3 = (Err NoMarkets, w1)"
      using sx_two_scans(1) by blast
    obtain acc2 w2 where f: "market_failed 3 ''down.near'' NoMarkets
        \<lparr>ra_summary = round_summary_default, ra_counts = Map.empty, ra_metrics = inc_scan metrics_default\<rparr> w1 = (Ok acc2, w2)"
      "ra_summary acc2 = round_summary_default\<lparr>rs_markets_failed := 1\<rparr>"
      by (auto simp: market_failed_def add_u64_def u64_max_def round_summary_default_def scan_failed_def u32_max_def
          failure_count_def Let_def)
    obtain w3 where 2: "run_liquidations (se_params sx_two_env ''market.near'') (sc_liquidator True)
        (emit (EvPause 5000) w2) = (Ok round_summary_default, w3)"
      using sx_two_scans(2) by blast
    obtain acc3 w4 where s: "market_scanned 3 ''market.near'' round_summary_default acc2 w3 = (Ok acc3, w4)"
      by (cases "scan_succeeded 3 ''market.near'' (ra_counts acc2)")
         (simp add: market_scanned_def f(2) round_summary_merge_def round_summary_default_def add_u64_def u64_max_def)
    have "\<exists>r. run_liquidation_round sx_two_env sx_config ?sv1 ?w3 = (Ok r, w4)"
      using 1 f 2 s by (simp add: run_liquidation_round_def markets quiet sx_config_def)
    then show thesis using that by (auto simp: liquidation_cycle_round Let_def)
  qed
  from cycle_accounts_for_its_round [OF run ok ledger] obtain scs w4 where c:
    "scan_chain sx_two_env (sv_markets ?sv) (round_start sx_two_env sx_config ?sv ?w) scs w4"
    "map fst scs = [''down.near'', ''market.near'']" "length scs = 2"
    "counted scs 1 metrics_default (sv_metrics sv')"
    by (auto simp: markets quiet)
  obtain a r b a' r' b' where scs: "scs = [(''down.near'', a, r, b), (''market.near'', a', r', b')]"
    using c(2) by (auto simp: Cons_eq_map_conv map_eq_Cons_conv)
  have "r = Err NoMarkets" "r' = Ok round_summary_default"
    using c(1) sx_two_scans(1) [of a] sx_two_scans(2) [of a'] by (auto simp: scs markets)
  then have "scans_total (sv_metrics sv') = 1 \<and> market_scan_failures_total (sv_metrics sv') = 1
     \<and> last_successful_scan_unix (sv_metrics sv') = 1"
    using c(4) by (simp add: scs counted_def metrics_default_def fetch_add_def u64_max_def)
  with run show ?thesis by blast
qed

section \<open>The registry\<close>



section \<open>Alerts\<close>

text \<open>
  Failure alerts come in pairs: for any sequence of scan results of a market, the alerts alternate
  between one failure alert, sent at exactly the threshold, and one recovery, reporting at least that many
  failures; nobody is told twice that a market fails, nor that one recovered that was never reported.
\<close>

theorem scan_alerts_come_in_pairs:
  assumes "0 < threshold"
  shows "alternating threshold (threshold \<le> failure_count fails market) (scan_alerts threshold market results fails)"
  using assms by (rule scan_alerts_alternate)

theorem scan_alerts_come_in_pairs_witness:
  "scan_alerts 2 ''m'' [False, False, False, True, False, False] Map.empty
     = [AlertFailing 2, AlertRecovered 3, AlertFailing 2]
   \<and> alternating 2 False (scan_alerts 2 ''m'' [False, False, False, True, False, False] Map.empty)"
proof -
  have "scan_alerts 2 ''m'' [False, False, False, True, False, False] Map.empty
     = [AlertFailing 2, AlertRecovered 3, AlertFailing 2]"
    by (simp add: scan_failed_def scan_succeeded_def failure_count_def u32_max_def Let_def)
  with scan_alerts_come_in_pairs [of 2 Map.empty "''m''" "[False, False, False, True, False, False]"] show ?thesis
    by (simp add: failure_count_def)
qed

text \<open>
  C39: An operator is not flooded: in any run of the notifier during which a borrower's alerts are not
  cleared by a success, the queued alerts of one kind about that borrower are a cooldown apart, even when
  the queue was full and dropped some in between.
\<close>

theorem failure_alerts_respect_the_cooldown:
  assumes "notifier_ok nt" "sorted (map fst ops)" "Happens (EvClearDedup m b) \<notin> snd ` set ops"
  shows "sorted_wrt (\<lambda>(t, _) (t', _). t + nt_failure_cooldown nt \<le> t')
    (filter (\<lambda>(_, key). key = (m, b, k)) (alerts ops nt))"
  using assms by (rule alerts_spaced)

definition sx_ops :: "(nat \<times> notifier_op) list" where
  "sx_ops = [(0, Happens (EvNotifyFailed ''m'' ''b'' KPriceFetch ''e'')),
             (500, Happens (EvNotifyFailed ''m'' ''b'' KPriceFetch ''e'')),
             (1000, Happens (EvNotifyFailed ''m'' ''b'' KPriceFetch ''e''))]"

definition sx_notifier :: notifier where
  "sx_notifier = \<lparr>nt_channel = True, nt_inflight = 0, nt_max_inflight = 10, nt_failure_dedup = [],
     nt_failure_cooldown = 1000, nt_sent = []\<rparr>"

lemma sx_notifier_built: "with_cooldown True True 1000 = Ok sx_notifier"
  by (simp add: with_cooldown_def with_limits_def with_channel_def MAX_INFLIGHT_NOTIFICATIONS_def MAX_PERMITS_def
      sx_notifier_def)

lemma sx_alerts: "alerts sx_ops sx_notifier = [(0, ''m'', ''b'', KPriceFetch), (1000, ''m'', ''b'', KPriceFetch)]"
  by (simp add: sx_ops_def sx_notifier_def alert_of_def
      notify_liquidation_failed_def should_send_failure_def spawn_send_def Let_def)

theorem failure_alerts_respect_the_cooldown_witness:
  "with_cooldown True True 1000 = Ok sx_notifier
   \<and> alerts sx_ops sx_notifier = [(0, ''m'', ''b'', KPriceFetch), (1000, ''m'', ''b'', KPriceFetch)]
   \<and> sorted_wrt (\<lambda>(t, _) (t', _). t + 1000 \<le> t')
       (filter (\<lambda>(_, key). key = (''m'', ''b'', KPriceFetch)) (alerts sx_ops sx_notifier))"
proof -
  have "notifier_ok sx_notifier" "nt_failure_cooldown sx_notifier = 1000"
    by (simp_all add: notifier_ok_def sx_notifier_def)
  moreover have "sorted (map fst sx_ops)" "Happens (EvClearDedup ''m'' ''b'') \<notin> snd ` set sx_ops"
    by (simp_all add: sx_ops_def)
  ultimately show ?thesis
    using failure_alerts_respect_the_cooldown [of sx_notifier sx_ops "''m''" "''b''" KPriceFetch] sx_alerts
      sx_notifier_built by metis
qed

text \<open>
  Untrusted text stays text: what a chat message or a metrics label embeds is escaped without loss (it
  can be read back exactly) and without leaving a character that would open markup or break the line.
\<close>

theorem escaped_text_round_trip:
  "html_unescape (html_escape s) = s \<and> CHR ''<'' \<notin> set (html_escape s) \<and> CHR ''>'' \<notin> set (html_escape s)
   \<and> unescape_label (escape_label_value s) = s \<and> CHR 0x0A \<notin> set (escape_label_value s)"
  by (simp add: html_unescape_escape html_escape_clean unescape_escape escape_label_clean)

section \<open>The push check\<close>

text \<open>
  C21: A push check passes only on proof. If the report of a run passed, the run was live, the registry was
  not empty, and for every market this very run asked for the re-aggregation of exactly the market's feeds on
  its oracle, that re-aggregation was carried out (the operation ended as succeeded, not merely attempted),
  and the run's very next call was a view call on the same oracle that was answered and gave every one of
  the market's feeds a price no older than the market's own bound by the clock read after it.
\<close>

theorem push_check_passes_only_on_proof:
  assumes "push_check_cycle C E F PC cf sv = (report, sv')" "passed report"
  shows "\<not> cf_dry_run cf \<and> sv_markets sv \<noteq> []
    \<and> list_all (\<lambda>(market, lq).
        let oc = price_oracle_configuration (lq_config lq); a = oracle_account_id oc; ids = market_price_ids (lq_config lq);
            base = os_trace (sv_oracle sv) in
        \<exists>later call pre. os_trace (sv_oracle sv') = later @ OEView call # OEUpdateProxy a ids # pre @ base
          \<and> reaggregated E (pre @ base) a ids
          \<and> read_fresh E PC (OEUpdateProxy a ids # pre @ base) call a ids (price_maximum_age_s oc)) (sv_markets sv)"
proof -
  let ?ms = "sort_key fst (sv_markets sv)"
  obtain reports st where loop: "check_loop C E F PC (cf_dry_run cf) ?ms (sv_oracle sv) = (reports, st)" by fastforce
  have r: "report = \<lparr>pr_dry_run = cf_dry_run cf, pr_markets = reports\<rparr>" "sv_oracle sv' = st"
    using assms(1) loop by (auto simp: push_check_cycle_def)
  have ok: "\<not> cf_dry_run cf" "reports \<noteq> []" "list_all (\<lambda>m. mp_pushed m \<and> mp_verdict m = Fresh) reports"
    using assms(2) by (simp_all add: passed_def r)
  have all: "list_all2 (\<lambda>(market, lq) r. mp_market r = market
      \<and> report_backed E PC (os_trace (sv_oracle sv)) (os_trace st) (lq_config lq) r) ?ms reports"
    using check_loop_effect [OF loop] by blast
  have "list_all (\<lambda>(market, lq).
        let oc = price_oracle_configuration (lq_config lq); a = oracle_account_id oc; ids = market_price_ids (lq_config lq);
            base = os_trace (sv_oracle sv) in
        \<exists>later call pre. os_trace st = later @ OEView call # OEUpdateProxy a ids # pre @ base
          \<and> reaggregated E (pre @ base) a ids
          \<and> read_fresh E PC (OEUpdateProxy a ids # pre @ base) call a ids (price_maximum_age_s oc)) ?ms"
    using all ok(3)
    by (induction rule: list_all2_induct) (fastforce simp: report_backed_def Let_def)+
  moreover have "?ms \<noteq> []" using all ok(2) by (cases ?ms) auto
  ultimately show ?thesis using ok(1) r(2) by (auto simp: list_all_iff)
qed

text \<open>A proxy that re-aggregates when asked and serves prices of the current second.\<close>

definition sx_live_env :: "(rat, unit) oracle_env" where
  "sx_live_env = sx_oracle_env\<lparr>oe_unix_ms := (\<lambda>tr. Some 60000),
     oe_update_proxy := (\<lambda>tr a ids. Inr \<lparr>op_id = ''op'', op_status = OpSucceeded, op_latest_tx_hash = None, op_signer = ''bot''\<rparr>)\<rparr>"

definition sx_reads :: push_check_env where
  "sx_reads = \<lparr>pc_args = (\<lambda>_ _. Inr ''{}''),
     pc_view = (\<lambda>tr c. Inr (Inr (\<lambda>pid. Some (Some \<lparr>price_mantissa = 1, price_expo = 0, price_conf = 0, publish_time = 45\<rparr>)))),
     pc_hex = (\<lambda>s. s)\<rparr>"

definition sx_pushing :: "rat service" where
  "sx_pushing = sx_service\<lparr>sv_markets := [(''market.near'', sc_liquidator False)]\<rparr>"

definition sx_crypto :: "(unit, unit, unit) crypto" where
  "sx_crypto = \<lparr>keccak256 = (\<lambda>bs. bs), signature_from_slice = (\<lambda>_. None), recovery_id_from_byte = (\<lambda>_. None),
     recover_from_prehash = (\<lambda>_ _ _. None), to_sec1_point = (\<lambda>_. [])\<rparr>"

definition sx_quiet_fetcher :: fetcher where
  "sx_quiet_fetcher = \<lparr>f_pyth_pro_updates = False, f_redstone = None, f_lazer_api = True\<rparr>"

lemma sx_check:
  obtains r st where "check_market sx_crypto sx_live_env sx_quiet_fetcher sx_reads False ''market.near'' sc_config (sv_oracle sx_service)
      = (r, st)" "mp_pushed r" "mp_verdict r = Fresh"
proof -
  have read: "freshness sx_reads a ids st =
      (Inr (map (\<lambda>pid. \<lparr>ff_price_id = pid, publish_time_secs = Some 45\<rparr>) ids),
       ask (OEView \<lparr>call_account = a, call_method = ''list_ema_prices_no_older_than'', call_args = ''{}''\<rparr>) st)" for a ids st
    by (simp add: freshness_def onchain_publish_times_def sx_reads_def Let_def)
  have now: "unix_now_secs sx_live_env tr = 60" for tr
    by (simp add: unix_now_secs_def sx_live_env_def cast_signed_def i64_max_def)
  have push: "\<exists>st'. update_onchain_prices sx_crypto sx_live_env sx_quiet_fetcher a ids st = (Inr True, st')" for a ids st
    by (auto simp: update_onchain_prices_def is_proxy_oracle_def sx_live_env_def sx_oracle_env_def sx_quiet_fetcher_def
        redstone_push_client_def update_proxy_prices_def Let_def)
  have fresh: "judge h 60 60 (map (\<lambda>pid. \<lparr>ff_price_id = pid, publish_time_secs = Some 45\<rparr>) ids) = Fresh" for h ids
    by (auto simp: judge_Fresh_iff saturating_sub_i64_def i64_max_def i64_min_def)
  let ?st1 = "ask OEClock (ask (OEView \<lparr>call_account = ''oracle.near'', call_method = ''list_ema_prices_no_older_than'', call_args = ''{}''\<rparr>) (sv_oracle sx_service))"
  obtain st' where p: "update_onchain_prices sx_crypto sx_live_env sx_quiet_fetcher ''oracle.near'' (market_price_ids sc_config) ?st1 = (Inr True, st')"
    using push by blast
  have oc: "oracle_account_id (price_oracle_configuration sc_config) = ''oracle.near''"
    "price_maximum_age_s (price_oracle_configuration sc_config) = 60" by (simp_all add: sc_config_def)
  show thesis
    using that p by (simp add: check_market_def oc read now fresh Let_def)
qed

theorem push_check_passes_only_on_proof_witness:
  "\<exists>report sv'. push_check_cycle sx_crypto sx_live_env sx_quiet_fetcher sx_reads (sx_config\<lparr>cf_dry_run := False\<rparr>) sx_pushing
       = (report, sv')
     \<and> passed report \<and> OEUpdateProxy ''oracle.near'' [''b'', ''c''] \<in> set (os_trace (sv_oracle sv'))"
proof -
  obtain r st where c: "check_market sx_crypto sx_live_env sx_quiet_fetcher sx_reads False ''market.near'' sc_config (sv_oracle sx_service)
      = (r, st)" "mp_pushed r" "mp_verdict r = Fresh" by (rule sx_check)
  let ?report = "\<lparr>pr_dry_run = False, pr_markets = [r]\<rparr>" and ?sv = "sx_pushing\<lparr>sv_oracle := st\<rparr>"
  have cfg: "lq_config (sc_liquidator False) = sc_config" by (simp add: sc_liquidator_def)
  have run: "push_check_cycle sx_crypto sx_live_env sx_quiet_fetcher sx_reads (sx_config\<lparr>cf_dry_run := False\<rparr>) sx_pushing
      = (?report, ?sv)"
    using c(1) by (simp add: push_check_cycle_def sx_pushing_def cfg)
  have passed: "passed ?report" using c(2,3) by (simp add: passed_def)
  have ids: "market_price_ids sc_config = [''b'', ''c'']" "oracle_account_id (price_oracle_configuration sc_config) = ''oracle.near''"
    by (simp_all add: market_price_ids_def sc_config_def)
  have "\<exists>later call pre. os_trace st = later @ OEView call # OEUpdateProxy ''oracle.near'' [''b'', ''c''] # pre @ os_trace (sv_oracle sx_pushing)"
    using push_check_passes_only_on_proof [OF run passed] by (auto simp: sx_pushing_def cfg ids Let_def)
  then have "OEUpdateProxy ''oracle.near'' [''b'', ''c''] \<in> set (os_trace (sv_oracle ?sv))" by auto
  with run passed show ?thesis by blast
qed

end
