(* ===== verification/OneClick.thy ===== *)
theory OneClick
  imports Swap_Retry "HOL-Library.Sublist"
begin

text \<open>
  src/swap/oneclick.rs: the 1-Click swap provider (and src/swap/provider.rs, which only forwards to it).

  A swap is a quote, the deposit of the tokens to the address the quote names, the notification of the
  venue and the polling of its status. The gateway, the venue's HTTP API and the JSON parsers are the
  fields of \<open>oneclick_env\<close>; the answers depend on the trace of everything the provider did so far, latest
  first. A \<open>FungibleAsset\<close> is named by its rendering, its projections are fields too. What the code only
  logs is left out.
\<close>

section \<open>Data\<close>

definition DEFAULT_MAX_SLIPPAGE_BPS :: nat where "DEFAULT_MAX_SLIPPAGE_BPS = 300"
definition POLL_INTERVAL_SECONDS :: nat where "POLL_INTERVAL_SECONDS = 10"
definition MAX_SWAP_WAIT_SECONDS :: nat where "MAX_SWAP_WAIT_SECONDS = 240"
definition IMPLICIT_ACCOUNT_FUNDING :: nat where "IMPLICIT_ACCOUNT_FUNDING = 1"
definition MAX_REASONABLE_DEPOSIT :: nat where "MAX_REASONABLE_DEPOSIT = 100000000000000000000000"

datatype swap_type = ExactInput | ExactOutput | FlexInput | AnyInput

record quote_request =
  qr_dry :: bool
  qr_deposit_mode :: string
  qr_swap_type :: swap_type
  qr_slippage_tolerance :: nat
  qr_origin_asset :: string
  qr_deposit_type :: string
  qr_destination_asset :: string
  qr_amount :: string
  qr_refund_to :: string
  qr_refund_type :: string
  qr_recipient :: string
  qr_recipient_type :: string
  qr_deadline :: string
  qr_referral :: "string option"
  qr_quote_waiting_time_ms :: "nat option"

record oneclick_quote =
  deposit_address :: string
  deposit_memo :: "string option"
  amount_in :: string
  amount_out :: string
  min_amount_out :: string
  quote_deadline :: string
  time_estimate :: nat

datatype swap_status =
    PendingDeposit | KnownDepositTx | Processing | Success | IncompleteDeposit | Refunded | SwapFailed

fun swap_status_debug :: "swap_status \<Rightarrow> string" where
  "swap_status_debug PendingDeposit = ''PendingDeposit''"
| "swap_status_debug KnownDepositTx = ''KnownDepositTx''"
| "swap_status_debug Processing = ''Processing''"
| "swap_status_debug Success = ''Success''"
| "swap_status_debug IncompleteDeposit = ''IncompleteDeposit''"
| "swap_status_debug Refunded = ''Refunded''"
| "swap_status_debug SwapFailed = ''Failed''"

record transfer_event =
  old_owner_id :: "string option"
  new_owner_id :: "string option"
  te_amount :: "nat option"
  te_amounts :: "nat list"

record nep297_event =
  ev_standard :: string
  ev_event :: string
  ev_data :: "transfer_event list"

datatype account_type = NamedAccount | NearImplicitAccount | EthImplicitAccount | NearDeterministicAccount

datatype oc_status = OcSucceeded | OcFailed | OcUnfinished string \<comment> \<open>any other status, as \<open>{:?}\<close> shows it\<close>

record oc_operation =
  oo_id :: string
  oo_status :: oc_status
  oo_tx_hash :: "string option"

datatype oc_event =
    OcQuote quote_request
  | OcFund string nat
  | OcBounds string
  | OcStorageDeposit string string nat
  | OcDeposit string string nat \<comment> \<open>the tokens left: asset, deposit account, amount\<close>
  | OcLogs string
  | OcSubmit string string "string option"
  | OcPoll string "string option"
  | OcSleep nat
  | OcTokens

type_synonym oc_trace = "oc_event list"

record oneclick_env =
  oc_our_account :: string
  oc_slippage :: nat
  oc_nep141 :: "string \<Rightarrow> string option" \<comment> \<open>\<open>into_nep141\<close>\<close>
  oc_nep245 :: "string \<Rightarrow> (string \<times> string) option" \<comment> \<open>\<open>into_nep245\<close>\<close>
  oc_contract :: "string \<Rightarrow> string"
  oc_deadline :: "oc_trace \<Rightarrow> string"
  oc_send_quote :: "oc_trace \<Rightarrow> quote_request \<Rightarrow> string + nat \<times> (string + string)"
  oc_parse_quote :: "string \<Rightarrow> string + oneclick_quote"
  oc_parse_account :: "string \<Rightarrow> string + string"
  oc_account_type :: "string \<Rightarrow> account_type"
  oc_fund :: "oc_trace \<Rightarrow> string \<Rightarrow> string + oc_status"
  oc_bounds :: "oc_trace \<Rightarrow> string \<Rightarrow> string + nat"
  oc_storage_deposit :: "oc_trace \<Rightarrow> string \<Rightarrow> string \<Rightarrow> nat \<Rightarrow> string + oc_status"
  oc_transfer :: "oc_trace \<Rightarrow> string \<Rightarrow> string \<Rightarrow> nat \<Rightarrow> string + oc_operation"
  oc_logs :: "oc_trace \<Rightarrow> string \<Rightarrow> string + string list"
  oc_parse_event :: "string \<Rightarrow> nep297_event option" \<comment> \<open>the JSON after the \<open>EVENT_JSON:\<close> marker\<close>
  oc_send_submit :: "oc_trace \<Rightarrow> string \<Rightarrow> string + nat \<times> string"
  oc_send_status :: "oc_trace \<Rightarrow> string \<Rightarrow> string + nat \<times> (string + string)"
  oc_parse_status :: "string \<Rightarrow> string + swap_status"
  oc_status_text :: "nat \<Rightarrow> string" \<comment> \<open>an HTTP status as it renders\<close>
  oc_tokens :: "oc_trace \<Rightarrow> string + nat \<times> (string + string list)"

definition http_success :: "nat \<Rightarrow> bool" where
  "http_success status \<longleftrightarrow> 200 \<le> status \<and> status < 300"

section \<open>The quote\<close>

definition to_oneclick_asset_id :: "oneclick_env \<Rightarrow> string \<Rightarrow> string" where
  "to_oneclick_asset_id E a =
     (case oc_nep141 E a of
        Some contract_id \<Rightarrow> ''nep141:'' @ contract_id
      | None \<Rightarrow> (case oc_nep245 E a of Some (_, token_id) \<Rightarrow> token_id | None \<Rightarrow> ''nep141:'' @ oc_contract E a))"

definition is_intents :: "oneclick_env \<Rightarrow> string \<Rightarrow> bool" where
  "is_intents E a \<longleftrightarrow> oc_nep245 E a \<noteq> None \<and> oc_contract E a = ''intents.near''"

definition quote_request_for :: "oneclick_env \<Rightarrow> string \<Rightarrow> string \<Rightarrow> nat \<Rightarrow> oc_trace \<Rightarrow> quote_request" where
  "quote_request_for E from_asset to_asset input_amount tr =
     (let deposit_type = (if is_intents E from_asset then ''INTENTS'' else ''ORIGIN_CHAIN'') in
      \<lparr>qr_dry = False, qr_deposit_mode = ''SIMPLE'', qr_swap_type = ExactInput, qr_slippage_tolerance = oc_slippage E,
       qr_origin_asset = to_oneclick_asset_id E from_asset, qr_deposit_type = deposit_type,
       qr_destination_asset = to_oneclick_asset_id E to_asset, qr_amount = show_nat input_amount,
       qr_refund_to = oc_our_account E, qr_refund_type = deposit_type, qr_recipient = oc_our_account E,
       qr_recipient_type = (if is_intents E to_asset then ''INTENTS'' else ''DESTINATION_CHAIN''),
       qr_deadline = oc_deadline E tr, qr_referral = Some ''templar-liquidator'', qr_quote_waiting_time_ms = Some 5000\<rparr>)"

definition request_quote ::
    "oneclick_env \<Rightarrow> string \<Rightarrow> string \<Rightarrow> nat \<Rightarrow> oc_trace \<Rightarrow> (swap_error + oneclick_quote) \<times> oc_trace" where
  "request_quote E from_asset to_asset input_amount tr =
     (let request = quote_request_for E from_asset to_asset input_amount tr; tr1 = OcQuote request # tr in
      case oc_send_quote E tr request of
        Inl e \<Rightarrow> (Inl (swap_error_pre (NetworkError e) ''Quote request''), tr1)
      | Inr (status, body) \<Rightarrow>
          (case body of
             Inl e \<Rightarrow> (Inl (swap_error_pre (NetworkError (''Failed to read response: '' @ e)) ''Quote request''), tr1)
           | Inr text \<Rightarrow>
               if \<not> http_success status
               then (Inl (swap_error_pre (from_oneclick_response status text) ''Quote request''), tr1)
               else
               (case oc_parse_quote E text of
                  Inl e \<Rightarrow> (Inl (swap_error_pre (PreValidationError (''Invalid quote response: '' @ e)) ''Quote request''), tr1)
                | Inr quote \<Rightarrow> (Inr quote, tr1))))"

section \<open>The deposit\<close>

definition ensure_storage_deposit :: "oneclick_env \<Rightarrow> string \<Rightarrow> string \<Rightarrow> oc_trace \<Rightarrow> (app_error + unit) \<times> oc_trace" where
  "ensure_storage_deposit E token account tr =
     (let tr1 = OcBounds (oc_contract E token) # tr in
      case oc_bounds E tr (oc_contract E token) of
        Inl e \<Rightarrow> (Inl (RpcFailure (rpc_error_from_gateway e)), tr1)
      | Inr min_deposit \<Rightarrow>
          if MAX_REASONABLE_DEPOSIT < min_deposit then
            (Inl (ValidationError (''Storage deposit minimum ('' @ show_nat min_deposit
               @ '' yoctoNEAR) exceeds reasonable limit ('' @ show_nat MAX_REASONABLE_DEPOSIT
               @ '' yoctoNEAR / 0.1 NEAR)'')), tr1)
          else
          let tr2 = OcStorageDeposit (oc_contract E token) account min_deposit # tr1 in
          (case oc_storage_deposit E tr1 (oc_contract E token) account min_deposit of
             Inr _ \<Rightarrow> (Inr (), tr2)
           | Inl e \<Rightarrow> (Inl (RpcFailure (rpc_error_from_gateway e)), tr2)))"

text \<open>An implicit deposit account is created first, by sending it one yoctoNEAR.\<close>

definition create_implicit_account :: "oneclick_env \<Rightarrow> string \<Rightarrow> oc_trace \<Rightarrow> (swap_error + unit) \<times> oc_trace" where
  "create_implicit_account E account tr =
     (let tr1 = OcFund account IMPLICIT_ACCOUNT_FUNDING # tr in
      case oc_fund E tr account of
        Inr OcSucceeded \<Rightarrow> (Inr (), OcSleep 2000 # tr1)
      | Inr OcFailed \<Rightarrow>
          (Inl (swap_error_pre (PreUnknown ''implicit deposit-account creation failed on-chain'') ''Deposit''), tr1)
      | Inr (OcUnfinished status) \<Rightarrow>
          (Inl (swap_error_pre (PreTimeout (''implicit deposit-account creation was still '' @ status
             @ '' when the gateway stopped waiting'')) ''Deposit''), tr1)
      | Inl e \<Rightarrow>
          (Inl (swap_error_pre (NetworkError (''implicit deposit-account creation did not confirm: '' @ e)) ''Deposit''), tr1))"

text \<open>\<open>after_sub pat s\<close>: what follows the first occurrence of \<open>pat\<close>.\<close>

fun after_sub :: "string \<Rightarrow> string \<Rightarrow> string option" where
  "after_sub pat [] = strip_prefix pat []"
| "after_sub pat (c # s) =
     (case strip_prefix pat (c # s) of Some r \<Rightarrow> Some r | None \<Rightarrow> after_sub pat s)"

definition parse_nep297_event :: "oneclick_env \<Rightarrow> string \<Rightarrow> nep297_event option" where
  "parse_nep297_event E log = Option.bind (after_sub ''EVENT_JSON:'' log) (oc_parse_event E)"

text \<open>The sum is a checked \<open>u128\<close> addition: on overflow it panics.\<close>

definition total_amount :: "transfer_event \<Rightarrow> nat option" where
  "total_amount t =
     (let n = (case te_amount t of None \<Rightarrow> 0 | Some a \<Rightarrow> a) + sum_list (te_amounts t)
      in if n \<le> u128_max then Some n else None)"

definition is_transfer :: "nep297_event \<Rightarrow> bool" where
  "is_transfer ev \<longleftrightarrow>
     (ev_standard ev = ''nep141'' \<and> ev_event ev = ''ft_transfer'')
     \<or> (ev_standard ev = ''nep245'' \<and> ev_event ev = ''mt_transfer'')"

text \<open>The scan of the transfers, with what has been seen of them; \<open>None\<close> is the panic.\<close>

fun scan_transfers :: "string \<Rightarrow> string \<Rightarrow> transfer_event list \<Rightarrow> bool \<times> nat option \<Rightarrow> (bool \<times> nat option) option" where
  "scan_transfers deposit_account our_account [] seen = Some seen"
| "scan_transfers deposit_account our_account (t # rest) (tokens_sent, refund) =
     (let sent = (new_owner_id t = Some deposit_account \<or> tokens_sent) in
      if old_owner_id t = Some deposit_account \<and> new_owner_id t = Some our_account then
        (case total_amount t of
           None \<Rightarrow> None
         | Some n \<Rightarrow> scan_transfers deposit_account our_account rest (sent, Some n))
      else scan_transfers deposit_account our_account rest (sent, refund))"

fun scan_logs :: "oneclick_env \<Rightarrow> string \<Rightarrow> string list \<Rightarrow> bool \<times> nat option \<Rightarrow> (bool \<times> nat option) option" where
  "scan_logs E deposit_account [] seen = Some seen"
| "scan_logs E deposit_account (log # rest) seen =
     (case parse_nep297_event E log of
        None \<Rightarrow> scan_logs E deposit_account rest seen
      | Some ev \<Rightarrow>
          if \<not> is_transfer ev then scan_logs E deposit_account rest seen
          else
          (case scan_transfers deposit_account (oc_our_account E) (ev_data ev) seen of
             None \<Rightarrow> None
           | Some seen' \<Rightarrow> scan_logs E deposit_account rest seen'))"

definition check_deposit_refunded ::
    "oneclick_env \<Rightarrow> string \<Rightarrow> string \<Rightarrow> oc_trace \<Rightarrow> (app_error, nat option) outcome \<times> oc_trace" where
  "check_deposit_refunded E tx_hash deposit_account tr =
     (let tr1 = OcLogs tx_hash # tr in
      case oc_logs E tr tx_hash of
        Inl e \<Rightarrow> (Err (RpcFailure (rpc_error_from_gateway e)), tr1)
      | Inr logs \<Rightarrow>
          (case scan_logs E deposit_account logs (False, None) of
             None \<Rightarrow> (Panic, tr1)
           | Some (tokens_sent, refund) \<Rightarrow> (Ok (if tokens_sent then refund else None), tr1)))"

text \<open>What precedes the transfer: the address, the account and its storage.\<close>

definition prepare_deposit ::
    "oneclick_env \<Rightarrow> string \<Rightarrow> string \<Rightarrow> oc_trace \<Rightarrow> (swap_error + string) \<times> oc_trace" where
  "prepare_deposit E from_asset addr tr =
     (case oc_parse_account E addr of
        Inl e \<Rightarrow> (Inl (swap_error_pre (PreValidationError (''Invalid deposit address: '' @ e)) ''Deposit''), tr)
      | Inr account \<Rightarrow>
          (case (case oc_account_type E account of
                   NearDeterministicAccount \<Rightarrow>
                     (Inl (swap_error_pre (PreValidationError
                        ''Deterministic 1-Click deposit addresses are not supported'') ''Deposit''), tr)
                 | NearImplicitAccount \<Rightarrow> create_implicit_account E account tr
                 | _ \<Rightarrow> (Inr (), tr)) of
             (Inl e, tr1) \<Rightarrow> (Inl e, tr1)
           | (Inr _, tr1) \<Rightarrow>
               if oc_nep141 E from_asset \<noteq> None then
                 (case ensure_storage_deposit E from_asset account tr1 of
                    (Inl e, tr2) \<Rightarrow> (Inl (from_pre_deposit_app_error ''Storage deposit'' e), tr2)
                  | (Inr _, tr2) \<Rightarrow> (Inr account, tr2))
               else (Inr account, tr1)))"

text \<open>The transfer and what follows from its operation.\<close>

definition transfer_deposit ::
    "oneclick_env \<Rightarrow> string \<Rightarrow> string \<Rightarrow> string \<Rightarrow> nat \<Rightarrow> oc_trace \<Rightarrow> (swap_error, string) outcome \<times> oc_trace" where
  "transfer_deposit E from_asset addr account amount tr =
     (let tr1 = OcDeposit from_asset account amount # tr in
      case oc_transfer E tr from_asset account amount of
        Inl e \<Rightarrow> (Err (swap_error_post (Indeterminate (''deposit transfer did not confirm: '' @ e) addr) ''Deposit''), tr1)
      | Inr op \<Rightarrow>
          (case oo_status op of
             OcFailed \<Rightarrow>
               (Err (swap_error_post (Definitive (''deposit transaction failed on-chain (funds retained): operation ''
                  @ oo_id op @ '' ended with status Failed'') addr) ''Deposit''), tr1)
           | OcUnfinished status \<Rightarrow>
               (Err (swap_error_post (Indeterminate (''deposit transfer was still '' @ status
                  @ '' when the gateway stopped waiting''
                  @ (case oo_tx_hash op of None \<Rightarrow> [] | Some h \<Rightarrow> '' (tx '' @ h @ '')'')
                  @ ''; it may yet land'') addr) ''Deposit''), tr1)
           | OcSucceeded \<Rightarrow>
               (case oo_tx_hash op of
                  None \<Rightarrow>
                    (Err (swap_error_post (Indeterminate (''deposit operation '' @ oo_id op
                       @ '' succeeded without a transaction hash; funds moved but the transfer cannot be tracked'') addr)
                       ''Deposit''), tr1)
                | Some tx_hash \<Rightarrow>
                    (case check_deposit_refunded E tx_hash account tr1 of
                       (Ok (Some refund), tr2) \<Rightarrow>
                         (Err (swap_error_post (Definitive (''deposit was refunded by the 1-Click deposit address (amount: ''
                            @ show_nat refund @ ''); funds returned'') account) ''Deposit''), tr2)
                     | (Ok None, tr2) \<Rightarrow> (Ok tx_hash, tr2)
                     | (Err _, tr2) \<Rightarrow> (Ok tx_hash, tr2)
                     | (Panic, tr2) \<Rightarrow> (Panic, tr2)))))"

definition deposit_tokens ::
    "oneclick_env \<Rightarrow> string \<Rightarrow> string \<Rightarrow> nat \<Rightarrow> oc_trace \<Rightarrow> (swap_error, string) outcome \<times> oc_trace" where
  "deposit_tokens E from_asset addr amount tr =
     (case prepare_deposit E from_asset addr tr of
        (Inl e, tr1) \<Rightarrow> (Err e, tr1)
      | (Inr account, tr1) \<Rightarrow> transfer_deposit E from_asset addr account amount tr1)"

section \<open>Settlement\<close>

definition submit_deposit ::
    "oneclick_env \<Rightarrow> string \<Rightarrow> string \<Rightarrow> string option \<Rightarrow> oc_trace \<Rightarrow> (swap_error + unit) \<times> oc_trace" where
  "submit_deposit E tx_hash addr memo tr =
     (let tr1 = OcSubmit tx_hash addr memo # tr in
      case oc_send_submit E tr tx_hash of
        Inl e \<Rightarrow>
          (Inl (swap_error_post (Indeterminate (''deposit '' @ tx_hash
             @ '' is on-chain but notifying 1-Click failed: '' @ e) addr) ''Deposit submit''), tr1)
      | Inr (status, text) \<Rightarrow>
          if http_success status then (Inr (), tr1)
          else
          (Inl (swap_error_post (Indeterminate (''deposit '' @ tx_hash
             @ '' is on-chain but 1-Click rejected the notification: ''
             @ (if status = 400 then ''Bad Request - Invalid deposit data: '' @ text
                else if status = 401 then ''Unauthorized - JWT token is invalid: '' @ text
                else if status = 404 then ''Not Found - Deposit address not found: '' @ text
                else ''Deposit submission failed with status '' @ oc_status_text E status @ '': '' @ text)) addr)
             ''Deposit submit''), tr1))"

fun is_terminal :: "swap_status \<Rightarrow> bool" where
  "is_terminal Success \<longleftrightarrow> True"
| "is_terminal SwapFailed \<longleftrightarrow> True"
| "is_terminal Refunded \<longleftrightarrow> True"
| "is_terminal IncompleteDeposit \<longleftrightarrow> True"
| "is_terminal _ \<longleftrightarrow> False"

text \<open>The status one request gives, if it could be read.\<close>

definition read_status :: "oneclick_env \<Rightarrow> string \<Rightarrow> oc_trace \<Rightarrow> swap_status option" where
  "read_status E addr tr =
     (case oc_send_status E tr addr of
        Inl _ \<Rightarrow> None
      | Inr (status, body) \<Rightarrow>
          if \<not> http_success status then None
          else (case body of
                  Inl _ \<Rightarrow> None
                | Inr text \<Rightarrow> (case oc_parse_status E text of Inl _ \<Rightarrow> None | Inr st \<Rightarrow> Some st)))"

fun poll_loop :: "oneclick_env \<Rightarrow> string \<Rightarrow> string option \<Rightarrow> nat \<Rightarrow> oc_trace \<Rightarrow> swap_status option \<times> oc_trace" where
  "poll_loop E addr memo 0 tr = (None, tr)"
| "poll_loop E addr memo (Suc attempts) tr =
     (let tr1 = OcSleep (POLL_INTERVAL_SECONDS * 1000) # tr; tr2 = OcPoll addr memo # tr1 in
      case read_status E addr tr1 of
        Some st \<Rightarrow> if is_terminal st then (Some st, tr2) else poll_loop E addr memo attempts tr2
      | None \<Rightarrow> poll_loop E addr memo attempts tr2)"

definition poll_swap_status ::
    "oneclick_env \<Rightarrow> string \<Rightarrow> string option \<Rightarrow> nat \<Rightarrow> oc_trace \<Rightarrow> (swap_error + swap_status) \<times> oc_trace" where
  "poll_swap_status E addr memo max_wait_seconds tr =
     (case poll_loop E addr memo (max_wait_seconds div POLL_INTERVAL_SECONDS) tr of
        (Some st, tr1) \<Rightarrow> (Inr st, tr1)
      | (None, tr1) \<Rightarrow>
          (Inl (swap_error_post (Indeterminate (''swap did not reach a terminal status within '' @ show_nat max_wait_seconds
             @ ''s; the deposit is on-chain and may still settle or refund'') addr) ''Poll swap status''), tr1))"

fun classify_swap_status :: "swap_status \<Rightarrow> string \<Rightarrow> post_deposit_error option" where
  "classify_swap_status Success addr = None"
| "classify_swap_status Refunded addr = Some (Definitive ''swap was refunded by the venue; funds returned'' addr)"
| "classify_swap_status st addr =
     Some (Indeterminate (''swap ended with status '' @ swap_status_debug st
       @ '', which does not establish where the funds are'') addr)"

section \<open>The provider\<close>

text \<open>\<open>ParseIntError\<close> of \<open>u128::from_str\<close>, as it renders.\<close>

fun digits_error :: "nat \<Rightarrow> nat \<Rightarrow> string \<Rightarrow> string" where
  "digits_error mx acc [] = ''''"
| "digits_error mx acc (c # cs) =
     (if \<not> is_digit c then ''invalid digit found in string''
      else if mx < acc * 10 + (byte c - 48) then ''number too large to fit in target type''
      else digits_error mx (acc * 10 + (byte c - 48)) cs)"

definition parse_int_error :: "string \<Rightarrow> string" where
  "parse_int_error s =
     (if s = [] then ''cannot parse integer from empty string''
      else if s = ''+'' \<or> s = ''-'' then ''invalid digit found in string''
      else digits_error u128_max 0 (case strip_prefix ''+'' s of Some r \<Rightarrow> r | None \<Rightarrow> s))"

definition oneclick_swap ::
    "oneclick_env \<Rightarrow> string \<Rightarrow> string \<Rightarrow> nat \<Rightarrow> oc_trace \<Rightarrow> (swap_error, unit) outcome \<times> oc_trace" where
  "oneclick_swap E from_asset to_asset amount tr =
     (case request_quote E from_asset to_asset amount tr of
        (Inl e, tr1) \<Rightarrow> (Err e, tr1)
      | (Inr quote, tr1) \<Rightarrow>
     (case parse_uint u128_max (amount_in quote) of
        None \<Rightarrow> (Err (swap_error_pre (PreValidationError (''Invalid input amount: '' @ parse_int_error (amount_in quote)))
                        ''Quote request''), tr1)
      | Some input_amount \<Rightarrow>
     (case deposit_tokens E from_asset (deposit_address quote) input_amount tr1 of
        (Err e, tr2) \<Rightarrow> (Err e, tr2)
      | (Panic, tr2) \<Rightarrow> (Panic, tr2)
      | (Ok tx_hash, tr2) \<Rightarrow>
     (case submit_deposit E tx_hash (deposit_address quote) (deposit_memo quote) tr2 of
        (Inl e, tr3) \<Rightarrow> (Err e, tr3)
      | (Inr _, tr3) \<Rightarrow>
     (case poll_swap_status E (deposit_address quote) (deposit_memo quote) MAX_SWAP_WAIT_SECONDS tr3 of
        (Inl e, tr4) \<Rightarrow> (Err e, tr4)
      | (Inr st, tr4) \<Rightarrow>
          (case classify_swap_status st (deposit_address quote) of
             None \<Rightarrow> (Ok (), tr4)
           | Some post \<Rightarrow> (Err (swap_error_post post ''1-Click swap''), tr4)))))))"

definition oneclick_quote_fn :: "string \<Rightarrow> string \<Rightarrow> nat \<Rightarrow> app_error + nat" where
  "oneclick_quote_fn from_asset to_asset output_amount =
     Inl (ValidationError
       ''OneClick provider only supports EXACT_INPUT swaps. Use swap() directly with input amount.'')"

text \<open>The token cache: replaced when the list could be read, kept otherwise.\<close>

definition load_supported_tokens :: "oneclick_env \<Rightarrow> string set \<Rightarrow> oc_trace \<Rightarrow> string set \<times> oc_trace" where
  "load_supported_tokens E cache tr =
     (case oc_tokens E tr of
        Inr (status, Inr ids) \<Rightarrow> (if http_success status then set ids else cache, OcTokens # tr)
      | _ \<Rightarrow> (cache, OcTokens # tr))"

definition token_cache_allows :: "string set \<Rightarrow> string \<Rightarrow> string \<Rightarrow> bool" where
  "token_cache_allows cache from_id to_id \<longleftrightarrow> cache \<noteq> {} \<and> from_id \<in> cache \<and> to_id \<in> cache"

definition oneclick_supports :: "oneclick_env \<Rightarrow> string set \<Rightarrow> string \<Rightarrow> string \<Rightarrow> bool" where
  "oneclick_supports E cache from_asset to_asset \<longleftrightarrow>
     (if \<not> (oc_nep245 E from_asset \<noteq> None \<or> oc_nep245 E to_asset \<noteq> None) then False
      else if cache = {} then False
      else token_cache_allows cache (to_oneclick_asset_id E from_asset) (to_oneclick_asset_id E to_asset))"

section \<open>What a swap leaves behind\<close>

definition is_deposit :: "oc_event \<Rightarrow> bool" where
  "is_deposit e \<longleftrightarrow> (case e of OcDeposit _ _ _ \<Rightarrow> True | _ \<Rightarrow> False)"

text \<open>The deposits of a trace, latest first.\<close>

definition deposits :: "oc_trace \<Rightarrow> oc_event list" where
  "deposits tr = filter is_deposit tr"

lemma deposits_simps [simp]:
  "deposits [] = []"
  "deposits (OcQuote q # tr) = deposits tr"
  "deposits (OcFund a n # tr) = deposits tr"
  "deposits (OcBounds c # tr) = deposits tr"
  "deposits (OcStorageDeposit c a n # tr) = deposits tr"
  "deposits (OcDeposit a c n # tr) = OcDeposit a c n # deposits tr"
  "deposits (OcLogs h # tr) = deposits tr"
  "deposits (OcSubmit h a m # tr) = deposits tr"
  "deposits (OcPoll a m # tr) = deposits tr"
  "deposits (OcSleep n # tr) = deposits tr"
  "deposits (OcTokens # tr) = deposits tr"
  by (simp_all add: deposits_def is_deposit_def)

lemma request_quote_deposits:
  "request_quote E f t n tr = (r, tr1) \<Longrightarrow> deposits tr1 = deposits tr \<and> (\<forall>e. r = Inl e \<longrightarrow> pre_only e)"
  by (auto simp: request_quote_def Let_def split: sum.splits prod.splits if_splits)

lemma ensure_storage_deposits: "ensure_storage_deposit E f a tr = (r, tr1) \<Longrightarrow> deposits tr1 = deposits tr"
  by (auto simp: ensure_storage_deposit_def Let_def split: sum.splits if_splits)

lemma create_implicit_deposits:
  "create_implicit_account E a tr = (r, tr1) \<Longrightarrow> deposits tr1 = deposits tr \<and> (\<forall>e. r = Inl e \<longrightarrow> pre_only e)"
  by (auto simp: create_implicit_account_def Let_def split: sum.splits oc_status.splits)

lemma prepare_deposits:
  assumes "prepare_deposit E f addr tr = (r, tr2)"
  shows "deposits tr2 = deposits tr" and "r = Inl e \<Longrightarrow> pre_only e"
  using assms
  by (auto simp: prepare_deposit_def dest!: create_implicit_deposits ensure_storage_deposits
      split: sum.splits prod.splits account_type.splits if_splits)

lemma check_refunded_deposits:
  "check_deposit_refunded E h a tr = (r, tr1) \<Longrightarrow> deposits tr1 = deposits tr"
  by (auto simp: check_deposit_refunded_def Let_def split: sum.splits option.splits)

lemma transfer_deposits:
  assumes "transfer_deposit E f addr account n tr = (r, tr1)"
  shows "deposits tr1 = OcDeposit f account n # deposits tr" and "r = Err e \<Longrightarrow> \<not> pre_only e"
  using assms
  by (auto simp: transfer_deposit_def Let_def dest!: check_refunded_deposits
      split: sum.splits prod.splits option.splits oc_status.splits outcome.splits)

lemma submit_deposits:
  "submit_deposit E h addr m tr = (r, tr1) \<Longrightarrow> deposits tr1 = deposits tr \<and> (\<forall>e. r = Inl e \<longrightarrow> \<not> pre_only e)"
  by (auto simp: submit_deposit_def Let_def split: sum.splits prod.splits if_splits)

lemma poll_loop_deposits: "poll_loop E addr m k tr = (r, tr1) \<Longrightarrow> deposits tr1 = deposits tr"
  by (induction E addr m k tr rule: poll_loop.induct) (auto simp: Let_def split: option.splits if_splits)

lemma poll_swap_deposits:
  "poll_swap_status E addr m s tr = (r, tr1) \<Longrightarrow> deposits tr1 = deposits tr \<and> (\<forall>e. r = Inl e \<longrightarrow> \<not> pre_only e)"
  by (auto simp: poll_swap_status_def dest!: poll_loop_deposits split: option.splits prod.splits)

text \<open>One attempt: either nothing was moved, or exactly the deposit of a quote was.\<close>

lemma deposit_tokens_deposits:
  assumes "deposit_tokens E f addr n tr = (r, tr1)"
  shows "(deposits tr1 = deposits tr \<and> (\<exists>e. r = Err e \<and> pre_only e))
    \<or> (\<exists>account. oc_parse_account E addr = Inr account \<and> deposits tr1 = OcDeposit f account n # deposits tr
         \<and> (\<forall>e. r = Err e \<longrightarrow> \<not> pre_only e))"
proof -
  obtain p tr0 where p: "prepare_deposit E f addr tr = (p, tr0)" by fastforce
  show ?thesis
  proof (cases p)
    case (Inl e)
    with assms p prepare_deposits [OF p] show ?thesis by (auto simp: deposit_tokens_def)
  next
    case (Inr account)
    have parsed: "oc_parse_account E addr = Inr account"
      using p Inr by (auto simp: prepare_deposit_def split: sum.splits prod.splits account_type.splits if_splits)
    from assms p Inr have t: "transfer_deposit E f addr account n tr0 = (r, tr1)" by (simp add: deposit_tokens_def)
    show ?thesis using transfer_deposits [OF t] prepare_deposits(1) [OF p] parsed by auto
  qed
qed

lemma request_quote_answered:
  "request_quote E f t n tr = (Inr q, tr1) \<Longrightarrow>
     \<exists>status text. oc_send_quote E tr (quote_request_for E f t n tr) = Inr (status, Inr text)
       \<and> http_success status \<and> oc_parse_quote E text = Inr q"
  by (auto simp: request_quote_def Let_def split: sum.splits prod.splits if_splits)

definition quoted_for :: "oneclick_env \<Rightarrow> string \<Rightarrow> string \<Rightarrow> nat \<Rightarrow> oc_trace \<Rightarrow> oneclick_quote \<Rightarrow> bool" where
  "quoted_for E f t n tr q \<longleftrightarrow>
     (\<exists>status text. oc_send_quote E tr (quote_request_for E f t n tr) = Inr (status, Inr text)
       \<and> http_success status \<and> oc_parse_quote E text = Inr q)"

section \<open>What a swap knows when it says so\<close>

named_theorems grows

lemma request_quote_grows [grows]: "request_quote E f t n tr = (r, tr1) \<Longrightarrow> suffix tr tr1"
  by (auto simp: request_quote_def Let_def suffix_ConsI split: sum.splits prod.splits if_splits)

lemma ensure_storage_grows [grows]: "ensure_storage_deposit E f a tr = (r, tr1) \<Longrightarrow> suffix tr tr1"
  by (auto simp: ensure_storage_deposit_def Let_def suffix_ConsI split: sum.splits if_splits)

lemma create_implicit_grows [grows]: "create_implicit_account E a tr = (r, tr1) \<Longrightarrow> suffix tr tr1"
  by (auto simp: create_implicit_account_def Let_def suffix_ConsI split: sum.splits oc_status.splits)

lemma prepare_grows [grows]: "prepare_deposit E f addr tr = (r, tr1) \<Longrightarrow> suffix tr tr1"
  by (auto simp: prepare_deposit_def dest!: grows intro: suffix_order.trans
      split: sum.splits prod.splits account_type.splits if_splits)

lemma check_refunded_grows [grows]: "check_deposit_refunded E h a tr = (r, tr1) \<Longrightarrow> suffix tr tr1"
  by (auto simp: check_deposit_refunded_def Let_def suffix_ConsI split: sum.splits option.splits)

lemma transfer_grows: "transfer_deposit E f addr account n tr = (r, tr1) \<Longrightarrow> suffix (OcDeposit f account n # tr) tr1"
  by (auto simp: transfer_deposit_def Let_def dest!: check_refunded_grows
      split: sum.splits prod.splits option.splits oc_status.splits outcome.splits)

lemma submit_grows [grows]: "submit_deposit E h addr m tr = (r, tr1) \<Longrightarrow> suffix tr tr1"
  by (auto simp: submit_deposit_def Let_def suffix_ConsI split: sum.splits prod.splits if_splits)

lemma poll_loop_grows: "poll_loop E addr m k tr = (r, tr1) \<Longrightarrow> suffix tr tr1"
proof (induction k arbitrary: tr)
  case (Suc k)
  then show ?case by (fastforce simp: Let_def suffix_ConsI split: option.splits if_splits dest: suffix_ConsD)
qed simp

lemma poll_swap_grows [grows]: "poll_swap_status E addr m s tr = (r, tr1) \<Longrightarrow> suffix tr tr1"
  by (auto simp: poll_swap_status_def dest!: poll_loop_grows split: option.splits prod.splits)

text \<open>The venue answered a status request for the address with the status.\<close>

definition venue_said :: "oneclick_env \<Rightarrow> oc_trace \<Rightarrow> string \<Rightarrow> swap_status \<Rightarrow> bool" where
  "venue_said E tr addr st \<longleftrightarrow> (\<exists>m tr0. suffix (OcPoll addr m # tr0) tr \<and> read_status E addr tr0 = Some st)"

lemma venue_said_suffix: "venue_said E tr addr st \<Longrightarrow> suffix tr tr1 \<Longrightarrow> venue_said E tr1 addr st"
  unfolding venue_said_def using suffix_order.trans by blast

lemma poll_loop_said:
  "poll_loop E addr m k tr = (Some st, tr1) \<Longrightarrow> is_terminal st \<and> venue_said E tr1 addr st"
proof (induction E addr m k tr rule: poll_loop.induct)
  case (2 E addr m k tr)
  let ?tr1 = "OcSleep (POLL_INTERVAL_SECONDS * 1000) # tr"
  show ?case
  proof (cases "\<exists>s. read_status E addr ?tr1 = Some s \<and> is_terminal s")
    case True
    then obtain s where "read_status E addr ?tr1 = Some s" "is_terminal s" by blast
    with "2.prems" have "is_terminal st" "read_status E addr ?tr1 = Some st" "tr1 = OcPoll addr m # ?tr1"
      by (auto simp: Let_def)
    then show ?thesis unfolding venue_said_def by blast
  next
    case False
    with 2 show ?thesis by (auto simp: Let_def split: option.splits if_splits)
  qed
qed simp

lemma poll_swap_said:
  "poll_swap_status E addr m s tr = (Inr st, tr1) \<Longrightarrow> is_terminal st \<and> venue_said E tr1 addr st"
  by (auto simp: poll_swap_status_def dest: poll_loop_said split: option.splits prod.splits)

text \<open>The chain showed that the deposit did not stay with the venue.\<close>

definition deposit_undone :: "oneclick_env \<Rightarrow> oc_trace \<Rightarrow> string \<Rightarrow> string \<Rightarrow> nat \<Rightarrow> bool" where
  "deposit_undone E tr f account n \<longleftrightarrow>
     (\<exists>tr0 op. suffix (OcDeposit f account n # tr0) tr \<and> oc_transfer E tr0 f account n = Inr op
        \<and> (oo_status op = OcFailed
           \<or> oo_status op = OcSucceeded
             \<and> (\<exists>h logs refund. oo_tx_hash op = Some h \<and> oc_logs E (OcDeposit f account n # tr0) h = Inr logs
                  \<and> scan_logs E account logs (False, None) = Some (True, Some refund))))"

fun definitive :: "swap_error_kind \<Rightarrow> bool" where
  "definitive (PostDeposit (Definitive _ _)) \<longleftrightarrow> True"
| "definitive _ \<longleftrightarrow> False"

lemma definitive_simps [simp]:
  "definitive (swap_kind (swap_error_pre k ctx)) \<longleftrightarrow> False"
  "definitive (swap_kind (swap_error_post (Indeterminate m a) ctx)) \<longleftrightarrow> False"
  "definitive (swap_kind (swap_error_post (Definitive m a) ctx)) \<longleftrightarrow> True"
  by (simp_all add: swap_error_pre_def swap_error_post_def)

lemma definitive_not_pre: "pre_only e \<Longrightarrow> \<not> definitive (swap_kind e)"
  by (auto simp: pre_only_def)

lemma check_refunded_some:
  "check_deposit_refunded E h a tr = (Ok (Some x), tr1) \<Longrightarrow>
     \<exists>logs. oc_logs E tr h = Inr logs \<and> scan_logs E a logs (False, None) = Some (True, Some x)"
  by (auto simp: check_deposit_refunded_def Let_def split: sum.splits option.splits if_splits)

lemma transfer_definitive:
  assumes t: "transfer_deposit E f addr account n tr = (Err e, tr1)" and d: "definitive (swap_kind e)"
  shows "deposit_undone E tr1 f account n"
proof -
  obtain op where op: "oc_transfer E tr f account n = Inr op"
    using t d by (auto simp: transfer_deposit_def Let_def split: sum.splits)
  have g: "suffix (OcDeposit f account n # tr) tr1" using transfer_grows [OF t] .
  show ?thesis
  proof (cases "oo_status op")
    case OcFailed
    with g op show ?thesis unfolding deposit_undone_def by blast
  next
    case (OcUnfinished s)
    with t d op show ?thesis by (auto simp: transfer_deposit_def Let_def)
  next
    case OcSucceeded
    then obtain h x tr2 where "oo_tx_hash op = Some h"
      "check_deposit_refunded E h account (OcDeposit f account n # tr) = (Ok (Some x), tr2)"
      using t d op by (auto simp: transfer_deposit_def Let_def split: option.splits prod.splits outcome.splits)
    with g op OcSucceeded check_refunded_some show ?thesis unfolding deposit_undone_def by blast
  qed
qed

lemma submit_not_definitive: "submit_deposit E h addr m tr = (Inl e, tr1) \<Longrightarrow> \<not> definitive (swap_kind e)"
  by (auto simp: submit_deposit_def Let_def split: sum.splits prod.splits if_splits)

lemma poll_not_definitive: "poll_swap_status E addr m s tr = (Inl e, tr1) \<Longrightarrow> \<not> definitive (swap_kind e)"
  by (auto simp: poll_swap_status_def split: option.splits prod.splits)

lemma classify_none [simp]: "classify_swap_status st addr = None \<longleftrightarrow> st = Success"
  by (cases st) simp_all

lemma classify_definitive: "classify_swap_status st addr = Some (Definitive m a) \<Longrightarrow> st = Refunded"
  by (cases st) simp_all

section \<open>One swap\<close>

lemma oneclick_swap_grows: "oneclick_swap E f t n tr = (r, tr') \<Longrightarrow> suffix tr tr'"
  unfolding oneclick_swap_def deposit_tokens_def
  by (auto dest!: request_quote_grows prepare_grows transfer_grows submit_grows poll_swap_grows
      dest: suffix_ConsD split: sum.splits prod.splits option.splits outcome.splits
      intro: suffix_order.trans)

text \<open>
  What a swap may say: before the deposit nothing was moved; after it exactly the deposit of the quote
  was, a success was the venue's, and a definitive failure was the venue's refund or the chain's.
\<close>

definition swap_sound :: "oneclick_env \<Rightarrow> string \<Rightarrow> string \<Rightarrow> nat \<Rightarrow> oc_trace
    \<Rightarrow> (swap_error, unit) outcome \<Rightarrow> oc_trace \<Rightarrow> bool" where
  "swap_sound E f t n tr r tr' \<longleftrightarrow>
     (case r of Err e \<Rightarrow> pre_only e \<and> deposits tr' = deposits tr | _ \<Rightarrow> False)
     \<or> (\<exists>q account quoted.
          quoted_for E f t n tr q \<and> parse_uint u128_max (amount_in q) = Some quoted
          \<and> oc_parse_account E (deposit_address q) = Inr account
          \<and> deposits tr' = OcDeposit f account quoted # deposits tr
          \<and> (case r of
               Ok _ \<Rightarrow> venue_said E tr' (deposit_address q) Success
             | Err e \<Rightarrow> \<not> pre_only e \<and> (definitive (swap_kind e)
                 \<longrightarrow> venue_said E tr' (deposit_address q) Refunded \<or> deposit_undone E tr' f account quoted)
             | Panic \<Rightarrow> True))"

lemma swap_sound_pre: "pre_only e \<Longrightarrow> deposits tr' = deposits tr \<Longrightarrow> swap_sound E f t n tr (Err e) tr'"
  by (simp add: swap_sound_def)

text \<open>The part after the deposit.\<close>

definition settle :: "oneclick_env \<Rightarrow> oneclick_quote \<Rightarrow> string \<Rightarrow> oc_trace \<Rightarrow> (swap_error, unit) outcome \<times> oc_trace" where
  "settle E quote tx_hash tr2 =
     (case submit_deposit E tx_hash (deposit_address quote) (deposit_memo quote) tr2 of
        (Inl e, tr3) \<Rightarrow> (Err e, tr3)
      | (Inr _, tr3) \<Rightarrow>
     (case poll_swap_status E (deposit_address quote) (deposit_memo quote) MAX_SWAP_WAIT_SECONDS tr3 of
        (Inl e, tr4) \<Rightarrow> (Err e, tr4)
      | (Inr st, tr4) \<Rightarrow>
          (case classify_swap_status st (deposit_address quote) of
             None \<Rightarrow> (Ok (), tr4)
           | Some post \<Rightarrow> (Err (swap_error_post post ''1-Click swap''), tr4))))"

lemma settle_sound:
  assumes "settle E q h tr = (r, tr')"
  shows "deposits tr' = deposits tr"
    and "r \<noteq> Panic"
    and "r = Ok u \<Longrightarrow> venue_said E tr' (deposit_address q) Success"
    and "r = Err e \<Longrightarrow> \<not> pre_only e"
    and "r = Err e \<Longrightarrow> definitive (swap_kind e) \<Longrightarrow> venue_said E tr' (deposit_address q) Refunded"
proof -
  obtain s tr3 where s: "submit_deposit E h (deposit_address q) (deposit_memo q) tr = (s, tr3)" by fastforce
  obtain p tr4 where p: "poll_swap_status E (deposit_address q) (deposit_memo q) MAX_SWAP_WAIT_SECONDS tr3 = (p, tr4)"
    by fastforce
  note facts = submit_deposits [OF s] poll_swap_deposits [OF p] submit_not_definitive poll_not_definitive s p
  show "deposits tr' = deposits tr" "r \<noteq> Panic"
    using assms facts by (auto simp: settle_def split: sum.splits option.splits)
  show "venue_said E tr' (deposit_address q) Success" if "r = Ok u"
    using assms s p that poll_swap_said [of E "deposit_address q"]
    by (auto simp: settle_def split: sum.splits option.splits)
  show "\<not> pre_only e" if "r = Err e"
    using assms facts that by (auto simp: settle_def split: sum.splits option.splits)
  show "venue_said E tr' (deposit_address q) Refunded" if r: "r = Err e" and d: "definitive (swap_kind e)"
  proof -
    obtain st post where "p = Inr st" "classify_swap_status st (deposit_address q) = Some post"
      "e = swap_error_post post ''1-Click swap''" "tr' = tr4"
      using assms facts r d by (auto simp: settle_def split: sum.splits option.splits)
    with d p show ?thesis
      using poll_swap_said [of E "deposit_address q"] by (cases post) (auto dest: classify_definitive)
  qed
qed

lemma settle_grows: "settle E q h tr = (r, tr') \<Longrightarrow> suffix tr tr'"
  by (auto simp: settle_def dest!: submit_grows poll_swap_grows intro: suffix_order.trans
      split: sum.splits prod.splits option.splits)

lemma oneclick_swap_eq:
  "oneclick_swap E f t n tr =
     (case request_quote E f t n tr of
        (Inl e, tr1) \<Rightarrow> (Err e, tr1)
      | (Inr quote, tr1) \<Rightarrow>
     (case parse_uint u128_max (amount_in quote) of
        None \<Rightarrow> (Err (swap_error_pre (PreValidationError (''Invalid input amount: '' @ parse_int_error (amount_in quote)))
                        ''Quote request''), tr1)
      | Some input_amount \<Rightarrow>
     (case deposit_tokens E f (deposit_address quote) input_amount tr1 of
        (Err e, tr2) \<Rightarrow> (Err e, tr2)
      | (Panic, tr2) \<Rightarrow> (Panic, tr2)
      | (Ok tx_hash, tr2) \<Rightarrow> settle E quote tx_hash tr2)))"
  unfolding oneclick_swap_def settle_def ..

lemma deposit_tokens_definitive:
  assumes "deposit_tokens E f addr n tr = (Err e, tr1)" "definitive (swap_kind e)"
  shows "\<exists>account. oc_parse_account E addr = Inr account \<and> deposits tr1 = OcDeposit f account n # deposits tr
    \<and> deposit_undone E tr1 f account n"
proof -
  obtain p tr0 where p: "prepare_deposit E f addr tr = (p, tr0)" by fastforce
  show ?thesis
  proof (cases p)
    case (Inl e')
    with assms p prepare_deposits(2) [OF p] show ?thesis by (auto simp: deposit_tokens_def dest: definitive_not_pre)
  next
    case (Inr account)
    have parsed: "oc_parse_account E addr = Inr account"
      using p Inr by (auto simp: prepare_deposit_def split: sum.splits prod.splits account_type.splits if_splits)
    from assms(1) p Inr have t: "transfer_deposit E f addr account n tr0 = (Err e, tr1)" by (simp add: deposit_tokens_def)
    show ?thesis
      using transfer_definitive [OF t assms(2)] transfer_deposits(1) [OF t] prepare_deposits(1) [OF p] parsed by auto
  qed
qed

lemma deposit_undone_suffix: "deposit_undone E tr f account n \<Longrightarrow> suffix tr tr1 \<Longrightarrow> deposit_undone E tr1 f account n"
  unfolding deposit_undone_def using suffix_order.trans by blast

lemma swap_sound_settled:
  assumes "quoted_for E f t n tr q" "parse_uint u128_max (amount_in q) = Some quoted"
    and "oc_parse_account E (deposit_address q) = Inr account"
    and "deposits tr' = OcDeposit f account quoted # deposits tr"
    and "\<And>u. r = Ok u \<Longrightarrow> venue_said E tr' (deposit_address q) Success"
    and "\<And>e. r = Err e \<Longrightarrow> \<not> pre_only e"
    and "\<And>e. r = Err e \<Longrightarrow> definitive (swap_kind e)
           \<Longrightarrow> venue_said E tr' (deposit_address q) Refunded \<or> deposit_undone E tr' f account quoted"
  shows "swap_sound E f t n tr r tr'"
  unfolding swap_sound_def using assms
  by (intro disjI2 exI [of _ q] exI [of _ account] exI [of _ quoted]) (auto split: outcome.splits)

lemma oneclick_swap_is_sound:
  assumes "oneclick_swap E f t n tr = (r, tr')"
  shows "swap_sound E f t n tr r tr'"
proof -
  obtain a tr1 where a: "request_quote E f t n tr = (a, tr1)" by fastforce
  note quiet = request_quote_deposits [OF a]
  show ?thesis
  proof (cases a)
    case (Inl e)
    with a assms have "r = Err e" "tr' = tr1" by (simp_all add: oneclick_swap_eq)
    with quiet Inl show ?thesis by (auto intro: swap_sound_pre)
  next
    case (Inr q)
    have q: "quoted_for E f t n tr q" using request_quote_answered a Inr unfolding quoted_for_def by blast
    show ?thesis
    proof (cases "parse_uint u128_max (amount_in q)")
      case None
      with a Inr assms quiet show ?thesis by (auto simp: oneclick_swap_eq intro: swap_sound_pre)
    next
      case (Some quoted)
      obtain d tr2 where d: "deposit_tokens E f (deposit_address q) quoted tr1 = (d, tr2)" by fastforce
      from assms a Inr Some d
      have r: "(case d of Err e \<Rightarrow> (Err e, tr2) | Panic \<Rightarrow> (Panic, tr2) | Ok h \<Rightarrow> settle E q h tr2) = (r, tr')"
        by (simp add: oneclick_swap_eq split: outcome.splits)
      from deposit_tokens_deposits [OF d] show ?thesis
      proof (elim disjE exE conjE)
        fix e assume "deposits tr2 = deposits tr1" "d = Err e" "pre_only e"
        with r quiet show ?thesis by (auto intro: swap_sound_pre)
      next
        fix account
        assume account: "oc_parse_account E (deposit_address q) = Inr account"
          and moved: "deposits tr2 = OcDeposit f account quoted # deposits tr1"
          and after: "\<forall>e. d = Err e \<longrightarrow> \<not> pre_only e"
        show ?thesis
        proof (cases d)
          case (Ok h)
          with r have s: "settle E q h tr2 = (r, tr')" by simp
          show ?thesis
            using settle_sound [OF s] moved quiet by (intro swap_sound_settled [OF q Some account]) auto
        next
          case (Err e)
          then have "deposit_undone E tr2 f account quoted" if "definitive (swap_kind e)"
            using deposit_tokens_definitive d that account by force
          with Err r moved quiet after show ?thesis by (intro swap_sound_settled [OF q Some account]) auto
        next
          case Panic
          with r moved quiet show ?thesis by (intro swap_sound_settled [OF q Some account]) auto
        qed
      qed
    qed
  qed
qed

section \<open>The attempts of the retry loop\<close>

text \<open>
  One attempt of \<open>swap_with_retry\<close> at the provider's \<open>swap\<close>. A panic ends the process; here it ends the
  loop, with an error that is not retried.
\<close>

definition aborted :: swap_error where
  "aborted = swap_error_post (Indeterminate ''the process aborted'' '''') ''''"

definition oneclick_attempt :: "oneclick_env \<Rightarrow> string \<Rightarrow> string \<Rightarrow> nat \<Rightarrow> oc_trace \<Rightarrow> (swap_error + unit) \<times> oc_trace" where
  "oneclick_attempt E from_asset to_asset amount tr =
     (case oneclick_swap E from_asset to_asset amount tr of
        (Ok u, tr1) \<Rightarrow> (Inr u, tr1)
      | (Err e, tr1) \<Rightarrow> (Inl e, tr1)
      | (Panic, tr1) \<Rightarrow> (Inl aborted, tr1))"

lemma oneclick_attempt_cases:
  assumes "oneclick_attempt E f t n tr = (r, tr')"
  obtains r' where "oneclick_swap E f t n tr = (r', tr')"
    and "r = (case r' of Ok u \<Rightarrow> Inr u | Err e \<Rightarrow> Inl e | Panic \<Rightarrow> Inl aborted)"
  using assms by (auto simp: oneclick_attempt_def split: prod.splits outcome.splits)

interpretation oneclick: deposit_contract "oneclick_attempt E f t n" deposits for E f t n
proof
  fix r tr tr'
  assume a: "oneclick_attempt E f t n tr = (r, tr')"
  then obtain r' where s: "oneclick_swap E f t n tr = (r', tr')"
    and r: "r = (case r' of Ok u \<Rightarrow> Inr u | Err e \<Rightarrow> Inl e | Panic \<Rightarrow> Inl aborted)"
    by (rule oneclick_attempt_cases)
  note sound = oneclick_swap_is_sound [OF s]
  show "deposits tr' = deposits tr" if "\<not> spent_by r"
    using sound r that by (auto simp: swap_sound_def aborted_def split: outcome.splits)
  show "\<exists>d. deposits tr' = d # deposits tr" if "spent_by r"
    using sound r that by (auto simp: swap_sound_def split: outcome.splits)
qed

section \<open>Bounds and support\<close>

definition polls :: "oc_trace \<Rightarrow> nat" where
  "polls tr = length (filter (\<lambda>e. case e of OcPoll _ _ \<Rightarrow> True | _ \<Rightarrow> False) tr)"

lemma polls_Cons [simp]:
  "polls (OcPoll a m # tr) = Suc (polls tr)" "polls (OcSleep k # tr) = polls tr"
  by (simp_all add: polls_def)

lemma poll_loop_polls: "poll_loop E addr m k tr = (r, tr1) \<Longrightarrow> polls tr1 \<le> polls tr + k"
proof (induction k arbitrary: tr)
  case (Suc k)
  then show ?case by (fastforce simp: Let_def split: option.splits if_splits)
qed simp

lemma poll_loop_gives_up:
  "poll_loop E addr m k tr = (None, tr1) \<Longrightarrow> polls tr1 = polls tr + k"
proof (induction k arbitrary: tr)
  case (Suc k)
  then show ?case by (fastforce simp: Let_def split: option.splits if_splits)
qed simp

lemma supports_fail_closed:
  "oneclick_supports E cache f t \<longleftrightarrow>
     (oc_nep245 E f \<noteq> None \<or> oc_nep245 E t \<noteq> None)
     \<and> to_oneclick_asset_id E f \<in> cache \<and> to_oneclick_asset_id E t \<in> cache"
  by (auto simp: oneclick_supports_def token_cache_allows_def)

end
