(* ===== verification/Swap_Properties.thy ===== *)
theory Swap_Properties
  imports OneClick
begin

text \<open>
  Properties of the 1-Click swap provider: what one swap may claim, what a retried one may move, how long
  it polls and which pairs it takes. The last section shows them on a concrete venue.
\<close>

section \<open>A concrete venue\<close>

text \<open>
  The venue quotes \<open>''5''\<close> whatever amount was asked for. The very first quote request is lost, the first
  two status reads fail, the third one answers; the chain refuses the deposit when \<open>refuse\<close> is set.
\<close>

definition ox_quote :: oneclick_quote where
  "ox_quote = \<lparr>deposit_address = ''dep.near'', deposit_memo = None, amount_in = ''5'', amount_out = ''4'',
     min_amount_out = ''4'', quote_deadline = ''later'', time_estimate = 10\<rparr>"

definition ox_env :: "bool \<Rightarrow> swap_status \<Rightarrow> oneclick_env" where
  "ox_env refuse final =
     \<lparr>oc_our_account = ''us.near'', oc_slippage = 300,
      oc_nep141 = (\<lambda>a. if a = ''nep141:usdc.near'' then Some ''usdc.near'' else None),
      oc_nep245 = (\<lambda>a. if a = ''nep245:intents.near:btc'' then Some (''intents.near'', ''btc'') else None),
      oc_contract = (\<lambda>a. if a = ''nep141:usdc.near'' then ''usdc.near'' else ''intents.near''),
      oc_deadline = (\<lambda>tr. ''later''),
      oc_send_quote = (\<lambda>tr req. if tr = [] then Inl ''reset'' else Inr (200, Inr ''quote'')),
      oc_parse_quote = (\<lambda>text. Inr ox_quote),
      oc_parse_account = (\<lambda>a. Inr a),
      oc_account_type = (\<lambda>a. NamedAccount),
      oc_fund = (\<lambda>tr a. Inl ''no''),
      oc_bounds = (\<lambda>tr c. Inl ''no''),
      oc_storage_deposit = (\<lambda>tr c a n. Inl ''no''),
      oc_transfer = (\<lambda>tr f a n. Inr \<lparr>oo_id = ''op'', oo_status = (if refuse then OcFailed else OcSucceeded),
                                     oo_tx_hash = Some ''hash''\<rparr>),
      oc_logs = (\<lambda>tr h. Inr []),
      oc_parse_event = (\<lambda>s. None),
      oc_send_submit = (\<lambda>tr h. Inr (200, '''')),
      oc_send_status = (\<lambda>tr a. if polls tr < 2 then Inl ''reset'' else Inr (200, Inr ''status'')),
      oc_parse_status = (\<lambda>text. Inr final),
      oc_status_text = (\<lambda>n. show_nat n),
      oc_tokens = (\<lambda>tr. Inr (200, Inr [''btc'', ''nep141:usdc.near'']))\<rparr>"

abbreviation ox_btc :: string where "ox_btc \<equiv> ''nep245:intents.near:btc''"
abbreviation ox_usdc :: string where "ox_usdc \<equiv> ''nep141:usdc.near''"

lemma ox_sel [simp]:
  "oc_our_account (ox_env r st) = ''us.near''" "oc_slippage (ox_env r st) = 300"
  "oc_nep141 (ox_env r st) a = (if a = ox_usdc then Some ''usdc.near'' else None)"
  "oc_nep245 (ox_env r st) a = (if a = ox_btc then Some (''intents.near'', ''btc'') else None)"
  "oc_send_quote (ox_env r st) tr req = (if tr = [] then Inl ''reset'' else Inr (200, Inr ''quote''))"
  "oc_parse_quote (ox_env r st) s = Inr ox_quote" "oc_parse_account (ox_env r st) s = Inr s"
  "oc_account_type (ox_env r st) s = NamedAccount"
  "oc_transfer (ox_env r st) tr f a n =
     Inr \<lparr>oo_id = ''op'', oo_status = (if r then OcFailed else OcSucceeded), oo_tx_hash = Some ''hash''\<rparr>"
  "oc_logs (ox_env r st) tr h = Inr []" "oc_send_submit (ox_env r st) tr h = Inr (200, '''')"
  "oc_send_status (ox_env r st) tr s = (if polls tr < 2 then Inl ''reset'' else Inr (200, Inr ''status''))"
  "oc_parse_status (ox_env r st) s = Inr st"
  by (simp_all add: ox_env_def)

lemma ox_quote_sel [simp]:
  "deposit_address ox_quote = ''dep.near''" "deposit_memo ox_quote = None" "amount_in ox_quote = ''5''"
  by (simp_all add: ox_quote_def)

lemma ox_parse [simp]: "parse_uint u128_max ''5'' = Some 5"
  by code_simp

lemma ox_polls_simps [simp]:
  "polls [] = 0" "polls (OcQuote q # tr) = polls tr" "polls (OcDeposit a c n # tr) = polls tr"
  "polls (OcLogs h # tr) = polls tr" "polls (OcSubmit h a m # tr) = polls tr"
  by (simp_all add: polls_def)

text \<open>The run against the venue: three polls, then the answer.\<close>

definition ox_swap_trace :: "oc_trace \<Rightarrow> quote_request \<Rightarrow> oc_trace" where
  "ox_swap_trace tr q =
     (let d = OcSubmit ''hash'' ''dep.near'' None # OcLogs ''hash'' # OcDeposit ox_btc ''dep.near'' 5 # OcQuote q # tr;
          p = (\<lambda>tr. OcPoll ''dep.near'' None # OcSleep 10000 # tr)
      in p (p (p d)))"

lemma ox_deposit:
  "deposit_tokens (ox_env False st) ox_btc ''dep.near'' 5 tr
     = (Ok ''hash'', OcLogs ''hash'' # OcDeposit ox_btc ''dep.near'' 5 # tr)"
  by (simp add: deposit_tokens_def prepare_deposit_def transfer_deposit_def check_deposit_refunded_def Let_def)

lemma ox_poll:
  assumes "polls tr = 0" "is_terminal st"
  shows "poll_swap_status (ox_env r st) ''dep.near'' None 240 tr
     = (Inr st, OcPoll ''dep.near'' None # OcSleep 10000 # OcPoll ''dep.near'' None # OcSleep 10000
          # OcPoll ''dep.near'' None # OcSleep 10000 # tr)"
proof -
  have k: "(240 :: nat) div POLL_INTERVAL_SECONDS = Suc (Suc (Suc 21))" by (simp add: POLL_INTERVAL_SECONDS_def)
  have "poll_loop (ox_env r st) ''dep.near'' None (Suc (Suc (Suc k))) tr
     = (Some st, OcPoll ''dep.near'' None # OcSleep 10000 # OcPoll ''dep.near'' None # OcSleep 10000
          # OcPoll ''dep.near'' None # OcSleep 10000 # tr)" for k
    using assms
    by (simp add: read_status_def http_success_def POLL_INTERVAL_SECONDS_def del: One_nat_def)
  from this [of 21] show ?thesis by (simp only: poll_swap_status_def k) simp
qed

lemma ox_swap:
  assumes "polls tr = 0" "tr \<noteq> []"
  shows "oneclick_swap (ox_env False Success) ox_btc ox_usdc n tr
     = (Ok (), ox_swap_trace tr (quote_request_for (ox_env False Success) ox_btc ox_usdc n tr))"
  using assms
  by (simp add: oneclick_swap_eq request_quote_def http_success_def ox_deposit settle_def submit_deposit_def
      MAX_SWAP_WAIT_SECONDS_def ox_poll ox_swap_trace_def Let_def)

text \<open>The amount deposited is the venue's, not the caller's: here 5 units leave for a swap of 3.\<close>

lemma deposit_follows_the_quote:
  "\<exists>tr'. oneclick_swap (ox_env False Success) ox_btc ox_usdc 3 [OcSleep 1] = (Ok (), tr')
     \<and> deposits tr' = [OcDeposit ox_btc ''dep.near'' 5]"
  by (simp add: ox_swap ox_swap_trace_def Let_def)

text \<open>Amounts in a transfer event that do not fit \<open>u128\<close> abort the process once the deposit is made.\<close>

lemma refund_sum_overflows:
  "total_amount \<lparr>old_owner_id = None, new_owner_id = None, te_amount = None, te_amounts = [u128_max, 1]\<rparr> = None"
  by (simp add: total_amount_def)

text \<open>The refund is found wherever its transfer stands, also before the deposit's.\<close>

lemma refund_order_is_not_checked:
  "scan_transfers ''dep.near'' ''us.near''
     [\<lparr>old_owner_id = Some ''dep.near'', new_owner_id = Some ''us.near'', te_amount = Some 1, te_amounts = []\<rparr>,
      \<lparr>old_owner_id = Some ''us.near'', new_owner_id = Some ''dep.near'', te_amount = Some 2, te_amounts = []\<rparr>]
     (False, None)
   = Some (True, Some 1)"
  by (simp add: total_amount_def u128_max_def Let_def)

section \<open>Properties\<close>

text \<open>
  C22: a swap that fails before the deposit has moved no tokens. Every other swap has made exactly one
  deposit, of the amount that the venue's quote for this very request names, to the account the quote
  names; it succeeds only when the venue answered \<open>Success\<close> for that address, and calls a failure
  definitive only when the venue answered \<open>Refunded\<close>, the chain reported the transfer as failed, or the
  logs of the transfer show the tokens coming back.
\<close>

theorem swap_moves_funds_once:
  assumes "oneclick_swap E from_asset to_asset amount tr = (r, tr')"
  shows "(\<exists>e. r = Err e \<and> pre_only e \<and> deposits tr' = deposits tr)
    \<or> (\<exists>q account quoted.
         quoted_for E from_asset to_asset amount tr q \<and> parse_uint u128_max (amount_in q) = Some quoted
         \<and> oc_parse_account E (deposit_address q) = Inr account
         \<and> deposits tr' = OcDeposit from_asset account quoted # deposits tr
         \<and> (case r of
              Ok _ \<Rightarrow> venue_said E tr' (deposit_address q) Success
            | Err e \<Rightarrow> \<not> pre_only e
                \<and> (\<not> definitive (swap_kind e) \<or> venue_said E tr' (deposit_address q) Refunded
                   \<or> deposit_undone E tr' from_asset account quoted)
            | Panic \<Rightarrow> True))"
  using oneclick_swap_is_sound [OF assms] unfolding swap_sound_def
  by (auto split: outcome.splits)

theorem swap_moves_funds_once_witness:
  "\<exists>q. deposits (ox_swap_trace [OcSleep 1] q) = [OcDeposit ox_btc ''dep.near'' 5]
     \<and> venue_said (ox_env False Success) (ox_swap_trace [OcSleep 1] q) ''dep.near'' Success"
proof -
  let ?E = "ox_env False Success"
  let ?q = "quote_request_for ?E ox_btc ox_usdc 3 [OcSleep 1]"
  have "oneclick_swap ?E ox_btc ox_usdc 3 [OcSleep 1] = (Ok (), ox_swap_trace [OcSleep 1] ?q)"
    by (rule ox_swap) simp_all
  from swap_moves_funds_once [OF this] show ?thesis
    by (intro exI [of _ ?q]) (auto simp: quoted_for_def)
qed

text \<open>
  C23: over all its attempts a retried swap makes at most one deposit. It makes none when it ends with an
  error from before the deposit, and exactly one otherwise: no attempt follows one that may have moved
  funds.
\<close>

theorem retried_swap_deposits_once:
  assumes "swap_with_retry config swap_name (oneclick_attempt E from_asset to_asset amount) tr = (r, tr', lg)"
  shows "if spent_by r then \<exists>d. deposits tr' = d # deposits tr else deposits tr' = deposits tr"
  using assms by (rule oneclick.retried_moves_once)

theorem retried_swap_deposits_once_witness:
  "\<exists>tr' lg. swap_with_retry default_retry_config ''batch'' (oneclick_attempt (ox_env False Success) ox_btc ox_usdc 3) []
       = (Inr (), tr', lg) \<and> length lg = 2 \<and> (\<exists>d. deposits tr' = [d])"
proof -
  let ?E = "ox_env False Success"
  let ?q0 = "quote_request_for ?E ox_btc ox_usdc 3 []"
  let ?q1 = "quote_request_for ?E ox_btc ox_usdc 3 [OcQuote ?q0]"
  have "oneclick_swap ?E ox_btc ox_usdc 3 []
      = (Err (swap_error_pre (NetworkError ''reset'') ''Quote request''), [OcQuote ?q0])"
    by (simp add: oneclick_swap_eq request_quote_def Let_def)
  moreover have "oneclick_swap ?E ox_btc ox_usdc 3 [OcQuote ?q0] = (Ok (), ox_swap_trace [OcQuote ?q0] ?q1)"
    by (rule ox_swap) simp_all
  moreover have "[Suc 0..<4] = [1, 2, 3]" by (simp add: upt_rec)
  ultimately obtain lg where run:
    "swap_with_retry default_retry_config ''batch'' (oneclick_attempt ?E ox_btc ox_usdc 3) []
       = (Inr (), ox_swap_trace [OcQuote ?q0] ?q1, lg)" "length lg = 2"
    by (simp add: swap_with_retry_def default_retry_config_def oneclick_attempt_def is_retryable_def swap_error_pre_def)
  from retried_swap_deposits_once [OF run(1)] run show ?thesis by auto
qed

text \<open>
  C32: polling asks the venue at most 24 times and returns only a status that is terminal and that the
  venue gave for this address; when it gives up it has asked 24 times, and the error leaves the outcome
  open.
\<close>

theorem polling_is_bounded:
  assumes "poll_swap_status E addr memo MAX_SWAP_WAIT_SECONDS tr = (r, tr')"
  shows "polls tr' \<le> polls tr + 24
    \<and> (case r of
         Inr st \<Rightarrow> is_terminal st \<and> venue_said E tr' addr st
       | Inl e \<Rightarrow> polls tr' = polls tr + 24 \<and> (\<exists>m. swap_kind e = PostDeposit (Indeterminate m addr)))"
proof -
  have k: "MAX_SWAP_WAIT_SECONDS div POLL_INTERVAL_SECONDS = 24"
    by (simp add: MAX_SWAP_WAIT_SECONDS_def POLL_INTERVAL_SECONDS_def)
  obtain s where s: "poll_loop E addr memo 24 tr = (s, tr')"
    using assms by (auto simp: poll_swap_status_def k split: prod.splits option.splits)
  show ?thesis
    using assms s poll_loop_polls [OF s] poll_loop_gives_up [of E addr memo 24 tr tr'] poll_loop_said [of E addr memo 24 tr]
    by (auto simp: poll_swap_status_def k swap_error_post_def split: option.splits)
qed

theorem polling_is_bounded_witness:
  "venue_said (ox_env False Success) (OcPoll ''dep.near'' None # OcSleep 10000 # OcPoll ''dep.near'' None
     # OcSleep 10000 # OcPoll ''dep.near'' None # OcSleep 10000 # []) ''dep.near'' Success"
proof -
  have "poll_swap_status (ox_env False Success) ''dep.near'' None MAX_SWAP_WAIT_SECONDS []
     = (Inr Success, OcPoll ''dep.near'' None # OcSleep 10000 # OcPoll ''dep.near'' None # OcSleep 10000
          # OcPoll ''dep.near'' None # OcSleep 10000 # [])"
    unfolding MAX_SWAP_WAIT_SECONDS_def by (rule ox_poll) simp_all
  from polling_is_bounded [OF this] show ?thesis by simp
qed

text \<open>
  A pair is supported only when one side is an intents token and a cache of the venue's tokens has
  been loaded that holds both sides: without a cache nothing is.
\<close>

theorem swap_support_fails_closed:
  "oneclick_supports E cache from_asset to_asset \<longleftrightarrow>
     (oc_nep245 E from_asset \<noteq> None \<or> oc_nep245 E to_asset \<noteq> None)
     \<and> to_oneclick_asset_id E from_asset \<in> cache \<and> to_oneclick_asset_id E to_asset \<in> cache"
  by (rule supports_fail_closed)

end
