(* ===== verification/Config.thy ===== *)
theory Config
  imports Service Notifier
begin

text \<open>
  src/config.rs: from the parsed arguments to the configuration of the service, and the redacted
  renderings of both (the latter also in src/service.rs, src/redstone.rs and src/lazer.rs).

  Reading the command line is clap's; here the arguments are a record whose fields have the types clap
  produces. The parsers and checks of the NEAR, market and gateway libraries are the fields of
  \<open>config_env\<close>. The configuration extends the record \<open>service_config\<close> the service runs on by what only
  start-up reads. Log lines are left out.
\<close>

section \<open>Arguments\<close>

datatype run_mode = RunLoop | RunOnce | RunPushCheck

datatype collateral_strategy_arg = ArgHold | ArgSwapToBorrow

definition DEFAULT_REDSTONE_DATA_SERVICE_ID :: string where
  "DEFAULT_REDSTONE_DATA_SERVICE_ID = ''redstone-primary-prod''"
definition PYTH_PRO_PUSH_CHANNEL :: string where "PYTH_PRO_PUSH_CHANNEL = ''fixed_rate@200ms''"
definition PYTH_PRO_MAX_PAYLOAD_AGE_MS :: nat where "PYTH_PRO_MAX_PAYLOAD_AGE_MS = 5000"

record args =
  a_registries :: "account_id list"
  a_signer_key :: string
  a_signer_account :: account_id
  a_network :: string
  a_near_rpc_url :: "string option"
  a_near_rpc_api_key :: "string option"
  a_liquidation_scan_interval :: nat
  a_registry_refresh_interval :: nat
  a_run_mode :: run_mode
  a_once :: bool
  a_concurrency :: nat
  a_position_concurrency :: nat
  a_partial_percentage :: "liquidation_percentage option"
  a_fixed_liquidation_amount_usd :: "f64 option"
  a_min_profit_bps :: nat
  a_dry_run :: bool
  a_collateral_strategy :: collateral_strategy_arg
  a_oneclick_api_token :: "string option"
  a_allowed_collateral_assets :: "string list"
  a_ignored_collateral_assets :: "string list"
  a_allowed_markets :: "account_id list"
  a_ignored_markets :: "string list"
  a_deprecated_markets :: "account_id list"
  a_loop_liquidation :: bool
  a_max_loop_iterations :: nat
  a_lazer_ws_url :: parsed_url
  a_redstone_authenticated_gateways :: "string option"
  a_redstone_data_service_id :: string
  a_redstone_push :: bool
  a_lazer_api_url :: parsed_url
  a_lazer_api_token :: "string option"
  a_min_swap_value_usd :: f64
  a_batch_swap_on_cycle_start :: bool
  a_swap_retry_attempts :: nat
  a_swap_retry_base_delay_ms :: nat
  a_scan_failure_notify_threshold :: nat
  a_failure_notification_cooldown_hours :: nat
  a_telegram_bot_token :: "string option"
  a_telegram_chat_id :: "string option"
  a_telegram_thread_id :: string
  a_http_port :: "nat option"
  a_http_bind_addr :: string

section \<open>Single values\<close>

definition parse_optional_i64 :: "string \<Rightarrow> (string, int option) outcome" where
  "parse_optional_i64 s =
     (let trimmed = trim s in
      if trimmed = [] then Ok None
      else case parse_i64 trimmed of Some i \<Rightarrow> Ok (Some i) | None \<Rightarrow> Panic)"

definition validate_retry_attempts :: "string \<Rightarrow> string + nat" where
  "validate_retry_attempts s =
     (case parse_uint u32_max s of
        None \<Rightarrow> Inl (apos @ s @ apos @ '' is not a valid number'')
      | Some n \<Rightarrow>
          if n = 0 then Inl (''Swap retry attempts must be at least 1 (0 would never attempt the swap); ''
            @ ''use 1 to disable retrying'')
          else Inr n)"

definition blank :: "string option \<Rightarrow> bool" where
  "blank v \<longleftrightarrow> (case v of None \<Rightarrow> True | Some s \<Rightarrow> trim s = [])"

definition legacy_rpc_key_only :: "string option \<Rightarrow> string option \<Rightarrow> bool" where
  "legacy_rpc_key_only canonical legacy \<longleftrightarrow> blank canonical \<and> \<not> blank legacy"

text \<open>\<open>{:?}\<close> of a string; bytes from 128 on belong to characters that are printed as they are.\<close>

definition hex_digit :: "nat \<Rightarrow> char" where
  "hex_digit n = (if n < 10 then char_of (48 + n) else char_of (87 + n))"

definition debug_char :: "char \<Rightarrow> string" where
  "debug_char c =
     (if byte c = 0 then [CHR 0x5C, CHR ''0'']
      else if byte c = 9 then [CHR 0x5C, CHR ''t'']
      else if byte c = 10 then [CHR 0x5C, CHR ''n'']
      else if byte c = 13 then [CHR 0x5C, CHR ''r'']
      else if byte c = 34 \<or> byte c = 92 then [CHR 0x5C, c]
      else if byte c < 16 then CHR 0x5C # ''u{'' @ [hex_digit (byte c)] @ ''}''
      else if byte c < 32 \<or> byte c = 127 then
        CHR 0x5C # ''u{'' @ [hex_digit (byte c div 16), hex_digit (byte c mod 16)] @ ''}''
      else [c])"

definition debug_str :: "string \<Rightarrow> string" where
  "debug_str s = quoted (concat (map debug_char s))"

section \<open>Environment and result\<close>

text \<open>What the gateway's Pyth Pro source is built from.\<close>

record lazer_source =
  ls_url :: parsed_url
  ls_token :: string
  ls_channel :: string
  ls_max_payload_age_ms :: nat

record lazer_api_config =
  la_url :: parsed_url
  la_token :: string

record telegram_config =
  tg_bot_token :: string
  tg_chat_id :: string
  tg_thread_id :: "int option"

text \<open>A secret key is named by its rendering.\<close>

datatype validated_signer_key = ValidatedSignerKey (secret_key: string)

record ('d, 'p) config_env =
  ce_market_lib :: "('d, 'p) market_lib"
  ce_pow10 :: "int \<Rightarrow> f64"
  ce_secret_key :: "string \<Rightarrow> string option" \<comment> \<open>near_crypto's parser, then \<open>to_string\<close>\<close>
  ce_usable_key :: "string \<Rightarrow> bool" \<comment> \<open>near_api's parser takes it\<close>
  ce_parse_asset :: "string \<Rightarrow> asset option"
  ce_parse_account :: "string \<Rightarrow> account_id option"
  ce_url_parse :: "string \<Rightarrow> string + parsed_url"
  ce_gateways_from_str :: "string \<Rightarrow> json_error + (string \<times> string) list"
  ce_lazer_source_refusal :: "lazer_source \<Rightarrow> string option" \<comment> \<open>\<open>LazerSourceConfig::new\<close>\<close>
  ce_client_builds :: bool \<comment> \<open>reqwest's \<open>Client::new\<close> does not panic\<close>

record 'd startup_config = "'d service_config" +
  su_signer_key :: validated_signer_key
  su_signer_account :: account_id
  su_network :: string
  su_near_rpc_url :: "string option"
  su_near_rpc_api_key :: "string option"
  su_liquidation_scan_interval :: nat
  su_registry_refresh_interval :: nat
  su_run_mode :: run_mode
  su_concurrency :: nat
  su_position_concurrency :: nat
  su_oneclick_api_token :: "string option"
  su_lazer_ws_url :: parsed_url
  su_pyth_pro_source :: "lazer_source option"
  su_redstone_gateways :: "redstone_gateway_config option"
  su_redstone_push :: bool
  su_lazer_api :: "lazer_api_config option"
  su_telegram :: "telegram_config option"
  su_notifier :: notifier
  su_http_port :: "nat option"
  su_http_bind_addr :: string

section \<open>The parts of the configuration\<close>

text \<open>Both amounts at once are refused by clap; in the code that case is \<open>unreachable!\<close>.\<close>

definition create_strategy :: "('d, 'p) config_env \<Rightarrow> args \<Rightarrow> (string, 'd strategy) outcome" where
  "create_strategy X a =
     (case (a_partial_percentage a, a_fixed_liquidation_amount_usd a) of
        (Some _, Some _) \<Rightarrow> Panic
      | (None, Some usd) \<Rightarrow>
          Ok (fixed_strategy (ce_pow10 X) (ce_market_lib X)
                \<lparr>fixed_amount_usd = usd, fix_min_profit_margin_bps = a_min_profit_bps a\<rparr>)
      | (pct, None) \<Rightarrow>
          Ok (percentage_strategy (ce_market_lib X)
                \<lparr>target_percentage = (case pct of Some p \<Rightarrow> p | None \<Rightarrow> percentage_full),
                 pct_min_profit_margin_bps = a_min_profit_bps a\<rparr>))"

fun parse_collateral_strategy :: "collateral_strategy_arg \<Rightarrow> collateral_strategy" where
  "parse_collateral_strategy ArgSwapToBorrow = SwapToBorrow"
| "parse_collateral_strategy ArgHold = Hold"

definition effective_run_mode :: "args \<Rightarrow> run_mode" where
  "effective_run_mode a = (if a_once a then RunOnce else a_run_mode a)"

definition telegram_config_of :: "args \<Rightarrow> (string, telegram_config option) outcome" where
  "telegram_config_of a =
     (case (a_telegram_bot_token a, a_telegram_chat_id a) of
        (None, None) \<Rightarrow> Ok None
      | (Some raw_bot_token, Some raw_chat_id) \<Rightarrow>
          let bot_token = trim raw_bot_token; chat_id = trim raw_chat_id in
          if bot_token = [] \<and> chat_id = [] then Ok None
          else if bot_token \<noteq> [] \<and> chat_id \<noteq> [] then
            obind (parse_optional_i64 (a_telegram_thread_id a)) (\<lambda>thread_id.
              Ok (Some \<lparr>tg_bot_token = bot_token, tg_chat_id = chat_id, tg_thread_id = thread_id\<rparr>))
          else Panic
      | _ \<Rightarrow> Panic)"

text \<open>The cooldown is a checked \<open>u64\<close> product of hours and 3600.\<close>

definition notifier_of :: "('d, 'p) config_env \<Rightarrow> args \<Rightarrow> telegram_config option \<Rightarrow> (string, notifier) outcome" where
  "notifier_of X a telegram =
     (let seconds = a_failure_notification_cooldown_hours a * 3600;
          capacity = max MAX_INFLIGHT_NOTIFICATIONS (min (a_position_concurrency a * 2) u64_max)
      in if u64_max < seconds then Panic
         else with_limits (ce_client_builds X) (telegram \<noteq> None) (seconds * 1000) capacity)"

definition validated_signer_key_of :: "('d, 'p) config_env \<Rightarrow> string \<Rightarrow> string + validated_signer_key" where
  "validated_signer_key_of X s =
     (case ce_secret_key X (trim s) of
        None \<Rightarrow> Inl ''SIGNER_KEY is not a valid NEAR secret key (expected `ed25519:<base58>`); value withheld''
      | Some parsed \<Rightarrow>
          if ce_usable_key X parsed then Inr (ValidatedSignerKey parsed)
          else Inl (''SIGNER_KEY parses but is not a usable signer key: its embedded public half does ''
            @ ''not match its secret half (mismatched keypair) '' @ em_dash @ '' re-export the key for ''
            @ ''SIGNER_ACCOUNT_ID from your wallet; value withheld''))"

definition data_service_refusal :: "string \<Rightarrow> string option" where
  "data_service_refusal sid =
     (if sid = [] \<or> list_ex is_space sid then
        Some (''REDSTONE_DATA_SERVICE_ID must name a data service with no whitespace (e.g. redstone-primary-prod), got ''
          @ debug_str sid @ '': it selects the signed packages both RedStone legs read, and a padded or empty ''
          @ ''value breaks each of them somewhere far from here'')
      else None)"

definition push_check_refusal :: "args \<Rightarrow> redstone_gateway_config option \<Rightarrow> string option" where
  "push_check_refusal a gws =
     (if effective_run_mode a = RunPushCheck \<and> \<not> a_dry_run a \<and> blank (a_lazer_api_token a)
         \<and> \<not> (a_redstone_push a \<and> gws \<noteq> None)
      then Some (''RUN_MODE=push-check with DRY_RUN=false needs a push leg: set LAZER_API_TOKEN (Pyth Pro) or ''
        @ ''REDSTONE_AUTHENTICATED_GATEWAYS with REDSTONE_PUSH=true (RedStone); with neither there is nothing to ''
        @ ''push, so the check would prove nothing'')
      else None)"

definition pyth_pro_token :: "args \<Rightarrow> string option" where
  "pyth_pro_token a =
     (case a_lazer_api_token a of
        None \<Rightarrow> None
      | Some raw \<Rightarrow> if trim raw = [] then None else Some (trim raw))"

definition pyth_pro_source_of :: "('d, 'p) config_env \<Rightarrow> args \<Rightarrow> string + lazer_source option" where
  "pyth_pro_source_of X a =
     (case pyth_pro_token a of
        None \<Rightarrow> Inr None
      | Some token \<Rightarrow>
          let source = \<lparr>ls_url = a_lazer_ws_url a, ls_token = token, ls_channel = PYTH_PRO_PUSH_CHANNEL,
                        ls_max_payload_age_ms = PYTH_PRO_MAX_PAYLOAD_AGE_MS\<rparr> in
          (case ce_lazer_source_refusal X source of
             Some error \<Rightarrow>
               Inl (''LAZER_WS_URL / LAZER_API_TOKEN cannot configure the Pyth Pro on-chain push source: '' @ error)
           | None \<Rightarrow> Inr (Some source)))"

definition lazer_api_config_new :: "parsed_url \<Rightarrow> string \<Rightarrow> string + lazer_api_config" where
  "lazer_api_config_new url token =
     (if url_scheme url \<noteq> ''https'' then
        Inl (''LAZER_API_URL must be https when LAZER_API_TOKEN is set '' @ em_dash
          @ '' the access token would otherwise travel in cleartext (got scheme '' @ apos @ url_scheme url @ apos
          @ ''; value withheld)'')
      else Inr \<lparr>la_url = url, la_token = token\<rparr>)"

definition lazer_api_of :: "args \<Rightarrow> string + lazer_api_config option" where
  "lazer_api_of a =
     (case pyth_pro_token a of
        None \<Rightarrow> Inr None
      | Some token \<Rightarrow>
          (case lazer_api_config_new (a_lazer_api_url a) token of Inl e \<Rightarrow> Inl e | Inr c \<Rightarrow> Inr (Some c)))"

section \<open>Building the configuration\<close>

primrec of_sum :: "string + 'a \<Rightarrow> (string, 'a) outcome" where
  "of_sum (Inl e) = Err e"
| "of_sum (Inr x) = Ok x"

definition refuse :: "string option \<Rightarrow> (string, unit) outcome" where
  "refuse r = (case r of Some e \<Rightarrow> Err e | None \<Rightarrow> Ok ())"

definition build_config :: "('d, 'p) config_env \<Rightarrow> args \<Rightarrow> (string, 'd startup_config) outcome" where
  "build_config X a =
     obind (create_strategy X a) (\<lambda>strategy.
     let allowed_assets = List.map_filter (ce_parse_asset X) (a_allowed_collateral_assets a);
         ignored_assets = List.map_filter (ce_parse_asset X) (a_ignored_collateral_assets a);
         ignored_markets = List.map_filter (\<lambda>s. ce_parse_account X (trim s)) (a_ignored_markets a) in
     obind (telegram_config_of a) (\<lambda>telegram.
     obind (notifier_of X a telegram) (\<lambda>notifier.
     obind (of_sum (validated_signer_key_of X (a_signer_key a))) (\<lambda>signer_key.
     obind (refuse (data_service_refusal (a_redstone_data_service_id a))) (\<lambda>_.
     obind (of_sum (gateway_config_parse (ce_url_parse X) (ce_gateways_from_str X)
              (case a_redstone_authenticated_gateways a of Some s \<Rightarrow> s | None \<Rightarrow> [])
              (a_redstone_data_service_id a))) (\<lambda>redstone_gateways.
     obind (refuse (push_check_refusal a redstone_gateways)) (\<lambda>_.
     obind (of_sum (pyth_pro_source_of X a)) (\<lambda>pyth_pro_source.
     obind (of_sum (lazer_api_of a)) (\<lambda>lazer_api.
     Ok \<lparr>cf_registries = a_registries a,
         cf_strategy = strategy,
         cf_collateral_strategy = parse_collateral_strategy (a_collateral_strategy a),
         cf_dry_run = a_dry_run a,
         cf_allowed_collateral_assets = allowed_assets,
         cf_ignored_collateral_assets = ignored_assets,
         cf_allowed_markets = a_allowed_markets a,
         cf_ignored_markets = ignored_markets,
         cf_deprecated_markets = a_deprecated_markets a,
         cf_loop_liquidation = a_loop_liquidation a,
         cf_max_loop_iterations = a_max_loop_iterations a,
         cf_min_swap_value_usd = a_min_swap_value_usd a,
         cf_batch_swap_on_cycle_start = a_batch_swap_on_cycle_start a,
         cf_swap_retry_config = \<lparr>max_attempts = a_swap_retry_attempts a, base_delay_ms = a_swap_retry_base_delay_ms a\<rparr>,
         cf_scan_failure_notify_threshold = a_scan_failure_notify_threshold a,
         su_signer_key = signer_key,
         su_signer_account = a_signer_account a,
         su_network = a_network a,
         su_near_rpc_url = a_near_rpc_url a,
         su_near_rpc_api_key = a_near_rpc_api_key a,
         su_liquidation_scan_interval = a_liquidation_scan_interval a,
         su_registry_refresh_interval = a_registry_refresh_interval a,
         su_run_mode = effective_run_mode a,
         su_concurrency = a_concurrency a,
         su_position_concurrency = a_position_concurrency a,
         su_oneclick_api_token = a_oneclick_api_token a,
         su_lazer_ws_url = a_lazer_ws_url a,
         su_pyth_pro_source = pyth_pro_source,
         su_redstone_gateways = redstone_gateways,
         su_redstone_push = a_redstone_push a,
         su_lazer_api = lazer_api,
         su_telegram = telegram,
         su_notifier = notifier,
         su_http_port = a_http_port a,
         su_http_bind_addr = a_http_bind_addr a\<rparr>)))))))))"

section \<open>Debug renderings\<close>

text \<open>
  A \<open>debug_struct\<close> is the list of its fields; a field is the value that is formatted. Presence of an
  optional secret is the text \<open>shown\<close> gives.
\<close>

definition shown :: "string option \<Rightarrow> string" where
  "shown v = (if v \<noteq> None then ''<set>'' else ''<unset>'')"

datatype debug_value =
    DStr string
  | DStrs "string list"
  | DOptStr "string option"
  | DNat nat
  | DOptNat "nat option"
  | DBool bool
  | DF64 f64
  | DOptF64 "f64 option"
  | DMode run_mode
  | DCollateralArg collateral_strategy_arg
  | DCollateral collateral_strategy
  | DPercentage "liquidation_percentage option"
  | DRetry swap_retry_config
  | DStruct string "(string \<times> debug_value) list"
  | DList "debug_value list"

definition gateway_debug :: "authenticated_gateway \<Rightarrow> debug_value" where
  "gateway_debug g =
     DStruct ''AuthenticatedGateway'' [(''url'', DStr (url_origin (gw_url g))), (''api_key'', DStr ''<redacted>'')]"

definition gateway_config_debug :: "redstone_gateway_config \<Rightarrow> debug_value" where
  "gateway_config_debug g =
     DStruct ''RedStoneGatewayConfig''
       [(''gateways'', DList (map gateway_debug (gateways g))), (''data_service_id'', DStr (data_service_id g))]"

definition lazer_api_debug :: "lazer_api_config \<Rightarrow> debug_value" where
  "lazer_api_debug l =
     DStruct ''LazerApiConfig'' [(''url'', DStr (url_origin (la_url l))), (''token'', DStr ''<redacted>'')]"

definition args_debug :: "args \<Rightarrow> debug_value" where
  "args_debug a = DStruct ''Args''
     [(''registries'', DStrs (a_registries a)),
      (''signer_key'', DStr ''<redacted>''),
      (''signer_account'', DStr (a_signer_account a)),
      (''network'', DStr (a_network a)),
      (''near_rpc_url'', DOptStr (a_near_rpc_url a)),
      (''near_rpc_api_key'', DStr (shown (a_near_rpc_api_key a))),
      (''liquidation_scan_interval'', DNat (a_liquidation_scan_interval a)),
      (''registry_refresh_interval'', DNat (a_registry_refresh_interval a)),
      (''run_mode'', DMode (a_run_mode a)),
      (''once'', DBool (a_once a)),
      (''concurrency'', DNat (a_concurrency a)),
      (''position_concurrency'', DNat (a_position_concurrency a)),
      (''partial_percentage'', DPercentage (a_partial_percentage a)),
      (''fixed_liquidation_amount_usd'', DOptF64 (a_fixed_liquidation_amount_usd a)),
      (''min_profit_bps'', DNat (a_min_profit_bps a)),
      (''dry_run'', DBool (a_dry_run a)),
      (''collateral_strategy'', DCollateralArg (a_collateral_strategy a)),
      (''oneclick_api_token'', DStr (shown (a_oneclick_api_token a))),
      (''allowed_collateral_assets'', DStrs (a_allowed_collateral_assets a)),
      (''ignored_collateral_assets'', DStrs (a_ignored_collateral_assets a)),
      (''allowed_markets'', DStrs (a_allowed_markets a)),
      (''ignored_markets'', DStrs (a_ignored_markets a)),
      (''deprecated_markets'', DStrs (a_deprecated_markets a)),
      (''loop_liquidation'', DBool (a_loop_liquidation a)),
      (''max_loop_iterations'', DNat (a_max_loop_iterations a)),
      (''lazer_ws_url'', DStr (url_origin (a_lazer_ws_url a))),
      (''redstone_authenticated_gateways'', DStr (shown (a_redstone_authenticated_gateways a))),
      (''redstone_data_service_id'', DStr (a_redstone_data_service_id a)),
      (''redstone_push'', DBool (a_redstone_push a)),
      (''lazer_api_url'', DStr (url_origin (a_lazer_api_url a))),
      (''lazer_api_token'', DStr (shown (a_lazer_api_token a))),
      (''min_swap_value_usd'', DF64 (a_min_swap_value_usd a)),
      (''batch_swap_on_cycle_start'', DBool (a_batch_swap_on_cycle_start a)),
      (''swap_retry_attempts'', DNat (a_swap_retry_attempts a)),
      (''swap_retry_base_delay_ms'', DNat (a_swap_retry_base_delay_ms a)),
      (''scan_failure_notify_threshold'', DNat (a_scan_failure_notify_threshold a)),
      (''failure_notification_cooldown_hours'', DNat (a_failure_notification_cooldown_hours a)),
      (''telegram_bot_token'', DStr (shown (a_telegram_bot_token a))),
      (''telegram_chat_id'', DOptStr (a_telegram_chat_id a)),
      (''telegram_thread_id'', DStr (a_telegram_thread_id a)),
      (''http_port'', DOptNat (a_http_port a)),
      (''http_bind_addr'', DStr (a_http_bind_addr a))]"

definition config_debug :: "'d startup_config \<Rightarrow> debug_value" where
  "config_debug c = DStruct ''ServiceConfig''
     [(''registries'', DStrs (cf_registries c)),
      (''signer_key'', DStr ''<redacted>''),
      (''signer_account'', DStr (su_signer_account c)),
      (''network'', DStr (su_network c)),
      (''near_rpc_url'', DStr (shown (su_near_rpc_url c))),
      (''near_rpc_api_key'', DStr (shown (su_near_rpc_api_key c))),
      (''liquidation_scan_interval'', DNat (su_liquidation_scan_interval c)),
      (''registry_refresh_interval'', DNat (su_registry_refresh_interval c)),
      (''run_mode'', DMode (su_run_mode c)),
      (''concurrency'', DNat (su_concurrency c)),
      (''position_concurrency'', DNat (su_position_concurrency c)),
      (''collateral_strategy'', DCollateral (cf_collateral_strategy c)),
      (''dry_run'', DBool (cf_dry_run c)),
      (''oneclick_api_token'', DStr (shown (su_oneclick_api_token c))),
      (''allowed_collateral_assets'', DStrs (cf_allowed_collateral_assets c)),
      (''ignored_collateral_assets'', DStrs (cf_ignored_collateral_assets c)),
      (''allowed_markets'', DStrs (cf_allowed_markets c)),
      (''ignored_markets'', DStrs (cf_ignored_markets c)),
      (''deprecated_markets'', DStrs (cf_deprecated_markets c)),
      (''loop_liquidation'', DBool (cf_loop_liquidation c)),
      (''max_loop_iterations'', DNat (cf_max_loop_iterations c)),
      (''lazer_ws_url'', DStr (url_origin (su_lazer_ws_url c))),
      (''pyth_pro_source'', DBool (su_pyth_pro_source c \<noteq> None)),
      (''redstone_gateways'', (case su_redstone_gateways c of None \<Rightarrow> DOptStr None | Some g \<Rightarrow> gateway_config_debug g)),
      (''redstone_push'', DBool (su_redstone_push c)),
      (''lazer_api'', (case su_lazer_api c of None \<Rightarrow> DOptStr None | Some l \<Rightarrow> lazer_api_debug l)),
      (''min_swap_value_usd'', DF64 (cf_min_swap_value_usd c)),
      (''batch_swap_on_cycle_start'', DBool (cf_batch_swap_on_cycle_start c)),
      (''swap_retry_config'', DRetry (cf_swap_retry_config c)),
      (''scan_failure_notify_threshold'', DNat (cf_scan_failure_notify_threshold c)),
      (''http_port'', DOptNat (su_http_port c)),
      (''http_bind_addr'', DStr (su_http_bind_addr c))]"

section \<open>Lemmas\<close>

lemma obind_Ok_ex: "(\<exists>b. obind m f = Ok b) \<longleftrightarrow> (\<exists>a. m = Ok a \<and> (\<exists>b. f a = Ok b))"
  by auto

lemma obind_Err_cong: "(\<And>x. f x = Err e \<longleftrightarrow> g x = Err e) \<Longrightarrow> obind m f = Err e \<longleftrightarrow> obind m g = Err e"
  by (auto simp: obind_eq_Err)

lemma of_sum_simps [simp]:
  "of_sum r = Ok x \<longleftrightarrow> r = Inr x" "of_sum r = Err e \<longleftrightarrow> r = Inl e" "of_sum r \<noteq> Panic" "Panic \<noteq> of_sum r"
  by (cases r; auto)+

lemma refuse_simps [simp]:
  "refuse r = Ok u \<longleftrightarrow> r = None" "refuse r = Err e \<longleftrightarrow> r = Some e" "refuse r \<noteq> Panic" "Panic \<noteq> refuse r"
  by (auto simp: refuse_def split: option.splits)

text \<open>What each part asks for.\<close>

definition telegram_ok :: "args \<Rightarrow> bool" where
  "telegram_ok a \<longleftrightarrow>
     (a_telegram_bot_token a = None \<longleftrightarrow> a_telegram_chat_id a = None)
     \<and> (blank (a_telegram_bot_token a) \<longleftrightarrow> blank (a_telegram_chat_id a))
     \<and> (blank (a_telegram_bot_token a) \<or> trim (a_telegram_thread_id a) = []
        \<or> parse_i64 (trim (a_telegram_thread_id a)) \<noteq> None)"

lemma parse_optional_i64_cases:
  "parse_optional_i64 s \<noteq> Err e"
  "parse_optional_i64 s = Panic \<longleftrightarrow> trim s \<noteq> [] \<and> parse_i64 (trim s) = None"
  by (auto simp: parse_optional_i64_def Let_def split: option.splits)

lemma telegram_cases:
  "telegram_config_of a \<noteq> Err e"
  "telegram_config_of a = Panic \<longleftrightarrow> \<not> telegram_ok a"
  using parse_optional_i64_cases [of "a_telegram_thread_id a"]
  by (auto simp: telegram_config_of_def telegram_ok_def blank_def Let_def obind_eq_Err obind_eq_Panic
      split: option.splits)

lemma create_strategy_cases:
  "create_strategy X a \<noteq> Err e"
  "create_strategy X a = Panic \<longleftrightarrow> a_partial_percentage a \<noteq> None \<and> a_fixed_liquidation_amount_usd a \<noteq> None"
  by (auto simp: create_strategy_def split: option.splits)

text \<open>What the notifier needs: a cooldown that fits, permits that tokio grants, and a client when there is a chat.\<close>

definition notifier_fits :: "('d, 'p) config_env \<Rightarrow> args \<Rightarrow> bool \<Rightarrow> bool" where
  "notifier_fits X a telegram \<longleftrightarrow>
     a_failure_notification_cooldown_hours a * 3600 \<le> u64_max
     \<and> a_position_concurrency a * 2 \<le> MAX_PERMITS \<and> (telegram \<longrightarrow> ce_client_builds X)"

lemma notifier_cases:
  "notifier_of X a tg \<noteq> Err e"
  "notifier_of X a tg = Panic \<longleftrightarrow> \<not> notifier_fits X a (tg \<noteq> None)"
  "notifier_of X a tg = Ok n \<Longrightarrow> nt_max_inflight n = max 10 (a_position_concurrency a * 2)"
proof -
  have permits: "MAX_PERMITS < max 10 (min k u64_max) \<longleftrightarrow> MAX_PERMITS < k" for k
    by (auto simp: MAX_PERMITS_def u64_max_def)
  have capped: "\<not> MAX_PERMITS < k \<Longrightarrow> max 10 (min k u64_max) = max 10 k" for k
    by (simp add: MAX_PERMITS_def u64_max_def min_def)
  show "notifier_of X a tg \<noteq> Err e" "notifier_of X a tg = Panic \<longleftrightarrow> \<not> notifier_fits X a (tg \<noteq> None)"
    by (auto simp: notifier_of_def with_limits_def with_channel_def Let_def notifier_fits_def
        MAX_INFLIGHT_NOTIFICATIONS_def permits)
  show "notifier_of X a tg = Ok n \<Longrightarrow> nt_max_inflight n = max 10 (a_position_concurrency a * 2)"
    using capped [of "a_position_concurrency a * 2"]
    by (auto simp: notifier_of_def with_limits_def with_channel_def Let_def MAX_INFLIGHT_NOTIFICATIONS_def permits
        split: if_splits)
qed

lemma Ok_unless_Panic: "\<forall>e. m \<noteq> Err e \<Longrightarrow> (\<exists>x. m = Ok x) \<longleftrightarrow> m \<noteq> Panic"
  by (cases m) auto

text \<open>Both fields there and not blank: the notifier gets a Telegram channel.\<close>

definition telegram_wanted :: "args \<Rightarrow> bool" where
  "telegram_wanted a \<longleftrightarrow> \<not> blank (a_telegram_bot_token a) \<and> \<not> blank (a_telegram_chat_id a)"

lemma telegram_config_present:
  "telegram_config_of a = Ok t \<Longrightarrow> (t \<noteq> None) = telegram_wanted a"
  by (auto simp: telegram_config_of_def telegram_wanted_def blank_def Let_def obind_eq_Ok split: option.splits if_splits)

definition key_ok :: "('d, 'p) config_env \<Rightarrow> string \<Rightarrow> bool" where
  "key_ok X s \<longleftrightarrow> (\<exists>k. ce_secret_key X (trim s) = Some k \<and> ce_usable_key X k)"

lemma signer_key_cases:
  "validated_signer_key_of X s = Inr k \<longleftrightarrow>
     ce_secret_key X (trim s) = Some (secret_key k) \<and> ce_usable_key X (secret_key k)"
  by (cases k) (auto simp: validated_signer_key_of_def split: option.splits)

lemma pyth_pro_token_Some: "pyth_pro_token a = Some t \<longleftrightarrow> \<not> blank (a_lazer_api_token a) \<and> t = trim (the (a_lazer_api_token a))"
  by (auto simp: pyth_pro_token_def blank_def split: option.splits)

lemma pyth_pro_token_None: "pyth_pro_token a = None \<longleftrightarrow> blank (a_lazer_api_token a)"
  by (auto simp: pyth_pro_token_def blank_def split: option.splits)

lemma lazer_api_cases:
  "lazer_api_of a = Inr l \<longleftrightarrow>
     (if blank (a_lazer_api_token a) then l = None
      else url_scheme (a_lazer_api_url a) = ''https''
        \<and> l = Some \<lparr>la_url = a_lazer_api_url a, la_token = trim (the (a_lazer_api_token a))\<rparr>)"
  by (auto simp: lazer_api_of_def lazer_api_config_new_def pyth_pro_token_def blank_def split: option.splits)

definition push_source :: "args \<Rightarrow> lazer_source" where
  "push_source a =
     \<lparr>ls_url = a_lazer_ws_url a, ls_token = trim (the (a_lazer_api_token a)), ls_channel = PYTH_PRO_PUSH_CHANNEL,
      ls_max_payload_age_ms = PYTH_PRO_MAX_PAYLOAD_AGE_MS\<rparr>"

lemma pyth_pro_source_cases:
  "pyth_pro_source_of X a = Inr p \<longleftrightarrow>
     (if blank (a_lazer_api_token a) then p = None
      else ce_lazer_source_refusal X (push_source a) = None \<and> p = Some (push_source a))"
  by (auto simp: pyth_pro_source_of_def pyth_pro_token_def blank_def push_source_def Let_def split: option.splits)

lemma push_check_refusal_None:
  "push_check_refusal a g = None \<longleftrightarrow>
     effective_run_mode a \<noteq> RunPushCheck \<or> a_dry_run a \<or> \<not> blank (a_lazer_api_token a)
     \<or> (a_redstone_push a \<and> g \<noteq> None)"
  by (auto simp: push_check_refusal_def)

lemma data_service_refusal_None: "data_service_refusal s = None \<longleftrightarrow> s \<noteq> [] \<and> \<not> list_ex is_space s"
  by (simp add: data_service_refusal_def)

definition redstone_of :: "('d, 'p) config_env \<Rightarrow> args \<Rightarrow> string + redstone_gateway_config option" where
  "redstone_of X a =
     gateway_config_parse (ce_url_parse X) (ce_gateways_from_str X)
       (case a_redstone_authenticated_gateways a of Some s \<Rightarrow> s | None \<Rightarrow> [])
       (a_redstone_data_service_id a)"

lemma gateway_config_ok:
  "gateway_config_parse url_parse from_str raw service = Inr (Some g) \<Longrightarrow> list_all gateway_ok (gateways g)"
  by (fastforce simp: gateway_config_parse_def Let_def list_all2_conv_all_nth list_all_length
      dest!: parse_gateways_ok split: if_splits sum.splits)

section \<open>A built configuration\<close>

lemma build_config_Ok:
  assumes "build_config X a = Ok c"
  obtains g where "redstone_of X a = Inr g" "su_redstone_gateways c = g"
    and "validated_signer_key_of X (a_signer_key a) = Inr (su_signer_key c)"
    and "data_service_refusal (a_redstone_data_service_id a) = None"
    and "push_check_refusal a g = None"
    and "pyth_pro_source_of X a = Inr (su_pyth_pro_source c)"
    and "lazer_api_of a = Inr (su_lazer_api c)"
    and "create_strategy X a = Ok (cf_strategy c)"
    and "telegram_config_of a = Ok (su_telegram c)"
    and "notifier_of X a (su_telegram c) = Ok (su_notifier c)"
  using assms unfolding build_config_def redstone_of_def [symmetric] Let_def by (auto simp del: not_None_eq)

lemma build_config_plain:
  assumes "build_config X a = Ok c"
  shows "cf_dry_run c = a_dry_run a" "cf_allowed_markets c = a_allowed_markets a"
    "cf_deprecated_markets c = a_deprecated_markets a" "su_run_mode c = effective_run_mode a"
    "su_redstone_push c = a_redstone_push a" "cf_max_loop_iterations c = a_max_loop_iterations a"
    "cf_allowed_collateral_assets c = List.map_filter (ce_parse_asset X) (a_allowed_collateral_assets a)"
    "cf_ignored_collateral_assets c = List.map_filter (ce_parse_asset X) (a_ignored_collateral_assets a)"
    "cf_ignored_markets c = List.map_filter (\<lambda>s. ce_parse_account X (trim s)) (a_ignored_markets a)"
    "max_attempts (cf_swap_retry_config c) = a_swap_retry_attempts a" "cf_registries c = a_registries a"
    "su_near_rpc_url c = a_near_rpc_url a" "su_liquidation_scan_interval c = a_liquidation_scan_interval a"
    "su_registry_refresh_interval c = a_registry_refresh_interval a"
  using assms unfolding build_config_def Let_def by auto

lemma notifier_built:
  "(\<exists>t. telegram_config_of a = Ok t \<and> (\<exists>n. notifier_of X a t = Ok n))
     \<longleftrightarrow> telegram_ok a \<and> notifier_fits X a (telegram_wanted a)"
proof -
  have "(\<exists>t. telegram_config_of a = Ok t) \<longleftrightarrow> telegram_ok a"
    using Ok_unless_Panic [of "telegram_config_of a"] telegram_cases [of a] by blast
  moreover have "(\<exists>n. notifier_of X a t = Ok n) \<longleftrightarrow> notifier_fits X a (telegram_wanted a)"
    if "telegram_config_of a = Ok t" for t
    using Ok_unless_Panic [of "notifier_of X a t"]
    by (simp only: notifier_cases(1,2) telegram_config_present [OF that] not_not simp_thms)
  ultimately show ?thesis by blast
qed

lemma build_config_Panic:
  "build_config X a = Panic \<longleftrightarrow>
     a_partial_percentage a \<noteq> None \<and> a_fixed_liquidation_amount_usd a \<noteq> None
     \<or> \<not> telegram_ok a \<or> \<not> notifier_fits X a (telegram_wanted a)"
proof -
  have strategy: "(\<exists>s. create_strategy X a = Ok s) \<or> create_strategy X a = Panic"
    using create_strategy_cases(1) by (metis outcome.exhaust)
  have telegram: "(\<exists>t. telegram_config_of a = Ok t) \<or> telegram_config_of a = Panic"
    using telegram_cases(1) by (metis outcome.exhaust)
  have notifier: "telegram_config_of a = Ok t \<Longrightarrow>
      notifier_of X a t = Panic \<longleftrightarrow> \<not> notifier_fits X a (telegram_wanted a)" for t
    by (simp only: notifier_cases(2) telegram_config_present)
  show ?thesis
    using strategy telegram create_strategy_cases(2) [of X a] telegram_cases(2) [of a] notifier
    by (auto simp: build_config_def Let_def obind_eq_Panic simp del: not_None_eq)
qed

end
