(* ===== verification/Provider.thy ===== *)
theory Provider
  imports OneClick
begin

text \<open>
  src/swap/provider.rs and the trait of src/swap/mod.rs: the enum that stands for a swap provider in the rest
  of the program. Its one variant is the 1-Click provider, here with what it meets and its token cache, and
  every operation forwards to it. The cache is the only state, so a reload is an operation on the variant.
\<close>

datatype swap_provider_impl = OneClick oneclick_env "string set"

section \<open>Forwarding\<close>

fun provider_load_supported_tokens :: "swap_provider_impl \<Rightarrow> oc_trace \<Rightarrow> swap_provider_impl \<times> oc_trace" where
  "provider_load_supported_tokens (OneClick E cache) tr =
     (case load_supported_tokens E cache tr of (cache', tr') \<Rightarrow> (OneClick E cache', tr'))"

fun provider_quote :: "swap_provider_impl \<Rightarrow> string \<Rightarrow> string \<Rightarrow> nat \<Rightarrow> app_error + nat" where
  "provider_quote (OneClick E cache) from_asset to_asset output_amount =
     oneclick_quote_fn from_asset to_asset output_amount"

fun provider_swap ::
    "swap_provider_impl \<Rightarrow> string \<Rightarrow> string \<Rightarrow> nat \<Rightarrow> oc_trace \<Rightarrow> (swap_error, unit) outcome \<times> oc_trace" where
  "provider_swap (OneClick E cache) from_asset to_asset amount tr = oneclick_swap E from_asset to_asset amount tr"

definition oneclick_provider_name :: string where
  "oneclick_provider_name = ''1-Click API (NEAR Intents)''"

fun provider_name :: "swap_provider_impl \<Rightarrow> string" where
  "provider_name (OneClick E cache) = oneclick_provider_name"

fun provider_supports_assets :: "swap_provider_impl \<Rightarrow> string \<Rightarrow> string \<Rightarrow> bool" where
  "provider_supports_assets (OneClick E cache) from_asset to_asset = oneclick_supports E cache from_asset to_asset"

text \<open>The 1-Click provider's own registration only delegates.\<close>

definition oneclick_ensure_storage_registration ::
    "oneclick_env \<Rightarrow> string \<Rightarrow> string \<Rightarrow> oc_trace \<Rightarrow> (app_error + unit) \<times> oc_trace" where
  "oneclick_ensure_storage_registration E token account tr = ensure_storage_deposit E token account tr"

fun provider_ensure_storage_registration ::
    "swap_provider_impl \<Rightarrow> string \<Rightarrow> string \<Rightarrow> oc_trace \<Rightarrow> (app_error + unit) \<times> oc_trace" where
  "provider_ensure_storage_registration (OneClick E cache) token account tr =
     oneclick_ensure_storage_registration E token account tr"

text \<open>The trait's defaults: a debug name that is the name, and support for every pair.\<close>

definition provider_debug_name :: "swap_provider_impl \<Rightarrow> string" where
  "provider_debug_name p = provider_name p"

definition default_supports_assets :: "string \<Rightarrow> string \<Rightarrow> bool" where
  "default_supports_assets from_asset to_asset = True"

section \<open>Facts\<close>

text \<open>What the callers of the enum rely on is what its variant promises: one deposit per spent swap.\<close>

fun provider_attempt :: "swap_provider_impl \<Rightarrow> string \<Rightarrow> string \<Rightarrow> nat \<Rightarrow> oc_trace \<Rightarrow> (swap_error + unit) \<times> oc_trace" where
  "provider_attempt (OneClick E cache) from_asset to_asset amount tr = oneclick_attempt E from_asset to_asset amount tr"

lemma provider_attempt_eq:
  "provider_attempt p f t n tr =
     (case provider_swap p f t n tr of
        (Ok u, tr1) \<Rightarrow> (Inr u, tr1) | (Err e, tr1) \<Rightarrow> (Inl e, tr1) | (Panic, tr1) \<Rightarrow> (Inl aborted, tr1))"
  by (cases p) (simp add: oneclick_attempt_def)

interpretation provider: deposit_contract "provider_attempt p f t n" deposits for p f t n
  by (cases p) (unfold_locales, auto dest: oneclick.unspent oneclick.spent)

text \<open>
  A provider whose list was never read takes no pair; a reload that reads the list takes exactly the pairs with
  both ids on it and at least one multi-token leg.
\<close>

lemma empty_cache_supports_nothing: "\<not> provider_supports_assets (OneClick E {}) from_asset to_asset"
  by (simp add: supports_fail_closed)

lemma supports_after_reload:
  assumes "oc_tokens E tr = Inr (status, Inr ids)" "http_success status"
  shows "provider_supports_assets (fst (provider_load_supported_tokens (OneClick E cache) tr)) f t \<longleftrightarrow>
     (oc_nep245 E f \<noteq> None \<or> oc_nep245 E t \<noteq> None)
     \<and> to_oneclick_asset_id E f \<in> set ids \<and> to_oneclick_asset_id E t \<in> set ids"
  using assms by (simp add: load_supported_tokens_def supports_fail_closed)

text \<open>Loading only reads: no deposit is made.\<close>

lemma load_makes_no_deposit:
  "deposits (snd (provider_load_supported_tokens p tr)) = deposits tr"
  by (cases p) (auto simp: load_supported_tokens_def split: sum.splits prod.splits)

end
