(* ===== verification/Startup.thy ===== *)
theory Startup
  imports Config Run Push_Check Provider
begin

text \<open>
  src/service.rs, \<open>LiquidatorService::new\<close> with the two constructors it calls, \<open>OracleFetcher::new\<close> of
  src/oracle.rs and \<open>OneClickSwap::new\<close> of src/swap/oneclick.rs: the first state of a service.

  Building the gateway and HTTP clients is the libraries'; whether it succeeds are the fields of
  \<open>construct_env\<close>. An \<open>expect\<close> on it is a panic. Clients themselves have no state here. The provider's
  answers come from its token cache, which starts empty; the service keeps them as a function, and replacing
  that function is reloading the cache (\<open>reload_tokens_refines_cache\<close>).
\<close>

record construct_env =
  ne_rpc_url_ok :: "string \<Rightarrow> bool"
  ne_gateway_key_ok :: "string \<Rightarrow> bool" \<comment> \<open>near_api's parser on the rendered key\<close>
  ne_client_builds :: "account_id \<Rightarrow> bool"
  ne_binds_signer :: "account_id \<Rightarrow> bool"
  ne_redstone_http :: "string + unit"
  ne_lazer_http :: "string + unit"
  ne_oneclick :: oneclick_env \<comment> \<open>what the swap provider meets; its reading of asset names decides a pair\<close>
  ne_manager_id :: nat

section \<open>Constructors\<close>

text \<open>What the provider is built with: slippage, token and an empty cache.\<close>

record oneclick_state =
  ock_max_slippage_bps :: nat
  ock_api_token :: "string option"
  ock_supported_tokens :: "string set"

definition oneclick_new :: "nat option \<Rightarrow> string option \<Rightarrow> oneclick_state" where
  "oneclick_new max_slippage_bps api_token =
     \<lparr>ock_max_slippage_bps = (case max_slippage_bps of Some n \<Rightarrow> n | None \<Rightarrow> DEFAULT_MAX_SLIPPAGE_BPS),
      ock_api_token = api_token, ock_supported_tokens = {}\<rparr>"

definition create_redstone_client :: "construct_env \<Rightarrow> 'd startup_config \<Rightarrow> redstone_gateway_config option" where
  "create_redstone_client N c =
     (case su_redstone_gateways c of
        None \<Rightarrow> None
      | Some g \<Rightarrow> (case ne_redstone_http N of Inr _ \<Rightarrow> Some g | Inl _ \<Rightarrow> None))"

definition create_swap_provider :: "'d startup_config \<Rightarrow> oneclick_state option" where
  "create_swap_provider c =
     (case cf_collateral_strategy c of
        Hold \<Rightarrow> None
      | SwapToBorrow \<Rightarrow> Some (oneclick_new None (su_oneclick_api_token c)))"

text \<open>The fetcher of the service: its caches start empty, the API leg is off when its client does not build.\<close>

definition fetcher_new ::
    "construct_env \<Rightarrow> bool \<Rightarrow> (redstone_gateway_config \<times> bool) option \<Rightarrow> lazer_api_config option \<Rightarrow> fetcher" where
  "fetcher_new N pyth_pro_updates redstone lazer_api =
     \<lparr>f_pyth_pro_updates = pyth_pro_updates, f_redstone = redstone,
      f_lazer_api = (case lazer_api of None \<Rightarrow> False
                     | Some _ \<Rightarrow> (case ne_lazer_http N of Inr _ \<Rightarrow> True | Inl _ \<Rightarrow> False))\<rparr>"

text \<open>The built provider, as the rest of the program holds it.\<close>

definition provider_of :: "construct_env \<Rightarrow> oneclick_state \<Rightarrow> swap_provider_impl" where
  "provider_of N st = OneClick (ne_oneclick N) (ock_supported_tokens st)"

definition oracle_state_new :: oracle_state where
  "oracle_state_new = \<lparr>os_proxy_cache = {}, os_memo = Map.empty, os_gateway = initial_fetch_state, os_trace = []\<rparr>"

definition expect :: "bool \<Rightarrow> (liquidator_error, unit) outcome" where
  "expect ok = (if ok then Ok () else Panic)"

definition service_new ::
    "construct_env \<Rightarrow> 'd startup_config \<Rightarrow> (liquidator_error, fetcher \<times> 'd service \<times> world) outcome" where
  "service_new N c =
     obind (expect (case su_near_rpc_url c of None \<Rightarrow> True | Some url \<Rightarrow> ne_rpc_url_ok N url)) (\<lambda>_.
     obind (expect (ne_gateway_key_ok N (secret_key (su_signer_key c)))) (\<lambda>_.
     obind (expect (ne_client_builds N (su_signer_account c))) (\<lambda>_.
     obind (expect (ne_binds_signer N (su_signer_account c))) (\<lambda>_.
     let redstone = map_option (\<lambda>client. (client, su_redstone_push c)) (create_redstone_client N c);
         inventory = set_metrics Map.empty (fst (inventory_new (ne_manager_id N)))
     in Ok (fetcher_new N (su_pyth_pro_source c \<noteq> None) redstone (su_lazer_api c),
            \<lparr>sv_markets = [], sv_swap_provider = map_option (\<lambda>st. provider_supports_assets (provider_of N st)) (create_swap_provider c),
             sv_collateral_price_map = [], sv_scan_failure_counts = Map.empty, sv_metrics = metrics_default,
             sv_oracle = oracle_state_new\<rparr>,
            \<lparr>w_inventory = inventory, w_trace = []\<rparr>)))))"

text \<open>The event loop first makes its two timers; tokio's \<open>interval\<close> panics on a zero period.\<close>

definition timers_start :: "'d startup_config \<Rightarrow> bool" where
  "timers_start c \<longleftrightarrow> su_registry_refresh_interval c \<noteq> 0 \<and> su_liquidation_scan_interval c \<noteq> 0"

section \<open>Lemmas\<close>

lemma expect_simps [simp]: "expect b = Ok u \<longleftrightarrow> b" "expect b = Panic \<longleftrightarrow> \<not> b" "expect b \<noteq> Err e"
  by (auto simp: expect_def)

lemma service_new_Ok:
  assumes "service_new N c = Ok (F, sv, w)"
  shows "sv_markets sv = []" "w_trace w = []" "ledger_ok (w_inventory w)"
    "f_pyth_pro_updates F \<longleftrightarrow> su_pyth_pro_source c \<noteq> None"
    "f_redstone F \<noteq> None \<Longrightarrow> f_redstone F = Some (the (su_redstone_gateways c), su_redstone_push c)"
    "f_redstone F \<noteq> None \<Longrightarrow> su_redstone_gateways c \<noteq> None"
    "f_lazer_api F \<Longrightarrow> su_lazer_api c \<noteq> None"
    "sv_swap_provider sv = None \<longleftrightarrow> cf_collateral_strategy c = Hold"
  using assms
  by (auto simp: service_new_def fetcher_new_def create_redstone_client_def create_swap_provider_def Let_def
      inventory_new_def set_metrics_def ledger_ok_def get_total_balance_def get_reserved_balance_def
      split: option.splits sum.splits collateral_strategy.splits)

text \<open>Until the token list has been read once, no pair is taken.\<close>

lemma service_new_fails_closed:
  assumes "service_new N c = Ok (F, sv, w)" "sv_swap_provider sv = Some supports"
  shows "\<not> supports from_asset to_asset"
  using assms
  by (auto simp: service_new_def create_swap_provider_def provider_of_def oneclick_new_def supports_fail_closed
      Let_def split: collateral_strategy.splits)

text \<open>
  The answers of a reload, as \<open>reload_tokens\<close> takes them: those of the list just read, or none. Reloading the
  answers is then reloading the provider's cache.
\<close>

fun provider_answers :: "swap_provider_impl \<Rightarrow> oc_trace \<Rightarrow> (asset \<Rightarrow> asset \<Rightarrow> bool) option" where
  "provider_answers (OneClick E cache) tr =
     (case oc_tokens E tr of
        Inr (status, Inr ids) \<Rightarrow>
          if http_success status then Some (provider_supports_assets (OneClick E (set ids))) else None
      | _ \<Rightarrow> None)"

lemma reload_tokens_refines_cache:
  assumes "sv_swap_provider sv = Some (provider_supports_assets p)"
  shows "sv_swap_provider (reload_tokens (provider_answers p tr) sv)
     = Some (provider_supports_assets (fst (provider_load_supported_tokens p tr)))"
  using assms
  by (cases p) (auto simp: reload_tokens_def load_supported_tokens_def split: sum.splits prod.splits)

lemma service_new_Panic:
  "service_new N c = Panic \<longleftrightarrow>
     \<not> ((case su_near_rpc_url c of None \<Rightarrow> True | Some url \<Rightarrow> ne_rpc_url_ok N url)
        \<and> ne_gateway_key_ok N (secret_key (su_signer_key c))
        \<and> ne_client_builds N (su_signer_account c) \<and> ne_binds_signer N (su_signer_account c))"
  by (auto simp: service_new_def obind_eq_Panic Let_def)

end
