(* ===== verification/Shutdown.thy ===== *)
theory Shutdown
  imports Prelude
begin

text \<open>
  src/service.rs, the shutdown watcher: the task that turns SIGINT and SIGTERM into the shutdown flag and the
  wake channel, and a second signal into an immediate exit; and the waits that the wake cancels.

  The task is a state machine. Its steps interleave with the rest of the process, so storing the flag and
  sending the wake are two steps. Whether a listener could be registered is decided before the task starts;
  a signal without a listener does not reach the task.
\<close>

section \<open>The watcher\<close>

datatype signal = Interrupt | Terminate

datatype watcher_phase =
    NoWatcher \<comment> \<open>no listener could be registered\<close>
  | AwaitFirst
  | StoreFlag
  | SendWake
  | AwaitSecond
  | Exited nat

record watcher =
  wt_listens :: "signal set"
  wt_phase :: watcher_phase
  wt_flag :: bool
  wt_wake :: bool
  wt_received :: nat \<comment> \<open>signals a listener took\<close>

definition spawn_shutdown_watcher :: "(signal \<Rightarrow> bool) \<Rightarrow> watcher" where
  "spawn_shutdown_watcher registers =
     (let listens = (if registers Interrupt then {Interrupt} else {}) \<union> (if registers Terminate then {Terminate} else {})
      in \<lparr>wt_listens = listens, wt_phase = (if listens = {} then NoWatcher else AwaitFirst), wt_flag = False,
          wt_wake = False, wt_received = 0\<rparr>)"

text \<open>\<open>next_signal\<close> resolves with the first signal that has a listener.\<close>

inductive watcher_step :: "watcher \<Rightarrow> watcher \<Rightarrow> bool" where
  first: "wt_phase s = AwaitFirst \<Longrightarrow> sig \<in> wt_listens s \<Longrightarrow>
     watcher_step s (s\<lparr>wt_phase := StoreFlag, wt_received := wt_received s + 1\<rparr>)"
| store: "wt_phase s = StoreFlag \<Longrightarrow> watcher_step s (s\<lparr>wt_phase := SendWake, wt_flag := True\<rparr>)"
| wake: "wt_phase s = SendWake \<Longrightarrow> watcher_step s (s\<lparr>wt_phase := AwaitSecond, wt_wake := True\<rparr>)"
| second: "wt_phase s = AwaitSecond \<Longrightarrow> sig \<in> wt_listens s \<Longrightarrow>
     watcher_step s (s\<lparr>wt_phase := Exited 130, wt_received := wt_received s + 1\<rparr>)"

inductive_cases watcher_stepE: "watcher_step s t"

inductive watcher_reach :: "(signal \<Rightarrow> bool) \<Rightarrow> watcher \<Rightarrow> bool" for registers where
  spawned: "watcher_reach registers (spawn_shutdown_watcher registers)"
| stepped: "watcher_reach registers s \<Longrightarrow> watcher_step s t \<Longrightarrow> watcher_reach registers t"

section \<open>The waits\<close>

text \<open>\<open>await_shutdown\<close> resolves exactly when the channel holds \<open>true\<close>.\<close>

definition await_shutdown :: "watcher \<Rightarrow> bool" where
  "await_shutdown s \<longleftrightarrow> wt_wake s"

text \<open>
  A sleep of \<open>duration\<close> against the time at which the wake is sent, if it ever is: how long it takes and
  whether it was cut short. A wake that is already there cuts it to nothing.
\<close>

definition interruptible_sleep :: "nat \<Rightarrow> nat option \<Rightarrow> nat \<times> bool" where
  "interruptible_sleep duration wake_in =
     (case wake_in of
        None \<Rightarrow> (duration, False)
      | Some t \<Rightarrow> if t < duration then (t, True) else (duration, False))"

section \<open>Lemmas\<close>

definition watcher_ok :: "watcher \<Rightarrow> bool" where
  "watcher_ok s \<longleftrightarrow>
     (case wt_phase s of
        NoWatcher \<Rightarrow> \<not> wt_flag s \<and> \<not> wt_wake s \<and> wt_received s = 0 \<and> wt_listens s = {}
      | AwaitFirst \<Rightarrow> \<not> wt_flag s \<and> \<not> wt_wake s \<and> wt_received s = 0
      | StoreFlag \<Rightarrow> \<not> wt_flag s \<and> \<not> wt_wake s \<and> wt_received s = 1
      | SendWake \<Rightarrow> wt_flag s \<and> \<not> wt_wake s \<and> wt_received s = 1
      | AwaitSecond \<Rightarrow> wt_flag s \<and> wt_wake s \<and> wt_received s = 1
      | Exited ec \<Rightarrow> wt_flag s \<and> wt_wake s \<and> wt_received s = 2 \<and> ec = 130)"

lemma watcher_reach_ok: "watcher_reach registers s \<Longrightarrow> watcher_ok s"
proof (induction rule: watcher_reach.induct)
  case spawned
  show ?case by (simp add: watcher_ok_def spawn_shutdown_watcher_def Let_def)
next
  case (stepped s t)
  from stepped.hyps(2) stepped.IH show ?case by (cases rule: watcher_step.cases) (auto simp: watcher_ok_def)
qed

text \<open>The flag is stored before anyone is woken, and only a second signal exits.\<close>

lemma woken_sees_flag: "watcher_reach registers s \<Longrightarrow> await_shutdown s \<Longrightarrow> wt_flag s"
  by (drule watcher_reach_ok) (auto simp: watcher_ok_def await_shutdown_def split: watcher_phase.splits)

lemma exit_needs_two_signals:
  "watcher_reach registers s \<Longrightarrow> wt_phase s = Exited ec \<longleftrightarrow> wt_received s = 2 \<and> ec = 130"
  by (drule watcher_reach_ok) (auto simp: watcher_ok_def split: watcher_phase.splits)

lemma flag_is_kept: "watcher_step s t \<Longrightarrow> wt_flag s \<Longrightarrow> wt_flag t"
  by (erule watcher_stepE) auto

lemma sleep_is_bounded: "fst (interruptible_sleep duration wake_in) \<le> duration"
  by (auto simp: interruptible_sleep_def split: option.splits)

text \<open>Once a signal was taken, two steps of the task alone set the flag and wake the waits.\<close>

lemma shutdown_is_requested:
  assumes "watcher_reach registers s" "wt_phase s = StoreFlag"
  shows "\<exists>t u. watcher_step s t \<and> watcher_step t u \<and> wt_flag u \<and> await_shutdown u"
proof -
  let ?t = "s\<lparr>wt_phase := SendWake, wt_flag := True\<rparr>"
  let ?u = "?t\<lparr>wt_phase := AwaitSecond, wt_wake := True\<rparr>"
  have "watcher_step s ?t" "watcher_step ?t ?u"
    using watcher_step.store [OF assms(2)] watcher_step.wake [of ?t] by simp_all
  then show ?thesis by (intro exI [of _ ?t] exI [of _ ?u]) (simp add: await_shutdown_def)
qed

end
