(* ===== verification/Requests.thy ===== *)
theory Requests
  imports Config
begin

text \<open>
  What goes on the wire: the gateway URL of src/redstone.rs, the endpoint and request body of src/lazer.rs
  and the Telegram message of src/notifier.rs.

  The \<open>url\<close> crate encodes a path segment and a query value; the encodings are arguments. Its path segments
  skip \<open>.\<close> and \<open>..\<close> and its \<open>pop_if_empty\<close> drops a trailing empty segment. \<open>serde_json\<close> objects are lists of
  their fields in the order the source writes them.
\<close>

section \<open>Endpoints\<close>

definition pop_if_empty :: "string \<Rightarrow> string" where
  "pop_if_empty path = (case strip_suffix ''/'' path of Some p \<Rightarrow> p | None \<Rightarrow> path)"

definition is_dots :: "string \<Rightarrow> bool" where
  "is_dots s \<longleftrightarrow> s = ''.'' \<or> s = ''..''"

definition extend_path :: "(string \<Rightarrow> string) \<Rightarrow> string list \<Rightarrow> string \<Rightarrow> string" where
  "extend_path encode segments path =
     pop_if_empty path @ concat (map (\<lambda>s. ''/'' @ encode s) (filter (\<lambda>s. \<not> is_dots s) segments))"

definition by_feeds_url :: "(string \<Rightarrow> string) \<Rightarrow> (string \<Rightarrow> string) \<Rightarrow> parsed_url \<Rightarrow> string \<Rightarrow> string list \<Rightarrow> parsed_url" where
  "by_feeds_url encode_segment encode_query gateway_url service feeds =
     gateway_url\<lparr>
       url_path := extend_path encode_segment [''v2'', ''data-packages'', ''latest-by-data-feeds'', service] (url_path gateway_url),
       url_query := Some (''dataFeedIds='' @ encode_query (join_with '','' feeds)),
       url_fragment := None\<rparr>"

text \<open>\<open>None\<close> for a URL that cannot be a base.\<close>

definition latest_price_endpoint :: "(string \<Rightarrow> string) \<Rightarrow> (parsed_url \<Rightarrow> bool) \<Rightarrow> parsed_url \<Rightarrow> parsed_url option" where
  "latest_price_endpoint encode_segment can_be_base base =
     (if can_be_base base then Some (base\<lparr>url_path := extend_path encode_segment [''v1'', ''latest_price''] (url_path base)\<rparr>)
      else None)"

section \<open>Bodies\<close>

definition latest_price_request_body :: "nat list \<Rightarrow> string \<Rightarrow> json" where
  "latest_price_request_body feed_ids channel =
     JObject
       [(''priceFeedIds'', JArray (map (\<lambda>n. JNumber (PosInt n)) feed_ids)),
        (''properties'', JArray (map JString [''emaPrice'', ''emaConfidence'', ''exponent'', ''feedUpdateTimestamp''])),
        (''formats'', JArray []),
        (''parsed'', JBool True),
        (''channel'', JString channel)]"

fun fetch_failure_to_string :: "(nat \<Rightarrow> string) \<Rightarrow> fetch_failure \<Rightarrow> string" where
  "fetch_failure_to_string show_status (FailHttp status) = ''http '' @ show_status status"
| "fetch_failure_to_string show_status FailTransport = ''transport error''"

definition telegram_url :: "telegram_config \<Rightarrow> string" where
  "telegram_url cfg = ''https://api.telegram.org/bot'' @ tg_bot_token cfg @ ''/sendMessage''"

definition json_of_int :: "int \<Rightarrow> json" where
  "json_of_int i = JNumber (if 0 \<le> i then PosInt (nat i) else NegInt i)"

definition telegram_payload :: "telegram_config \<Rightarrow> string \<Rightarrow> json" where
  "telegram_payload cfg text =
     JObject
       ([(''chat_id'', JString (tg_chat_id cfg)), (''text'', JString text), (''parse_mode'', JString ''HTML''),
         (''disable_web_page_preview'', JBool True)]
        @ (case tg_thread_id cfg of None \<Rightarrow> [] | Some tid \<Rightarrow> [(''message_thread_id'', json_of_int tid)]))"

section \<open>Lemmas\<close>

text \<open>
  An encoding that leaves no slash and no delimiter keeps what is encoded in its place: the path gets one
  segment for each that was appended, whatever the data service is called, and the query has one parameter,
  whatever the feeds are called.
\<close>

definition slashes :: "string \<Rightarrow> nat" where
  "slashes s = length (filter (\<lambda>c. c = CHR ''/'') s)"

lemma slashes_append [simp]: "slashes (a @ b) = slashes a + slashes b"
  by (simp add: slashes_def)

lemma slashes_segments:
  assumes "\<And>s. slashes (encode s) = 0"
  shows "slashes (concat (map (\<lambda>s. ''/'' @ encode s) segments)) = length segments"
  using assms by (induction segments) (simp_all add: slashes_def)

lemma data_service_stays_one_segment:
  assumes "\<And>s. slashes (encode s) = 0" "\<not> is_dots service"
  shows "slashes (url_path (by_feeds_url encode encode_query gateway service feeds))
    = slashes (pop_if_empty (url_path gateway)) + 4"
  using assms
  by (simp add: by_feeds_url_def extend_path_def is_dots_def slashes_segments [of encode, unfolded append_Cons append_Nil]
      slashes_def)

lemma by_feeds_url_keeps_origin:
  "url_origin (by_feeds_url e q g s fs) = url_origin g" "url_scheme (by_feeds_url e q g s fs) = url_scheme g"
  "url_fragment (by_feeds_url e q g s fs) = None"
  by (simp_all add: by_feeds_url_def)

lemma telegram_payload_fields:
  "json_get (telegram_payload cfg text) ''text'' = Some (JString text)"
  "json_get (telegram_payload cfg text) ''chat_id'' = Some (JString (tg_chat_id cfg))"
  "json_get (telegram_payload cfg text) ''message_thread_id'' = map_option json_of_int (tg_thread_id cfg)"
  by (simp_all add: telegram_payload_def split: option.splits)

end
