(* ===== verification/Entry.thy ===== *)
theory Entry
  imports Startup Shutdown Requests
begin

text \<open>
  src/main.rs and src/http.rs: how the process ends, and what its operational endpoint answers.

  \<open>main\<close> builds the configuration and the service, then hands over to the mode the configuration names. The
  event loop's part is the phase it ended in; for the single run and the push check the runner itself is
  called. The listener itself
  and the logging set-up are left out; panics abort the process (Cargo.toml), and a second signal exits it with
  130 from the task of the theory Shutdown.
\<close>

section \<open>How the process ends\<close>

datatype process_end = Exit nat | Aborted | StillRunning

fun loop_end :: "run_phase \<Rightarrow> process_end" where
  "loop_end Stopped = Exit 0"
| "loop_end Crashed = Aborted"
| "loop_end Looping = StillRunning"

fun once_end :: "(liquidator_error, unit) outcome \<Rightarrow> process_end" where
  "once_end (Ok _) = Exit 0"
| "once_end (Err _) = Exit 1"
| "once_end Panic = Aborted"

fun push_check_end :: "(liquidator_error, push_check_report) outcome \<Rightarrow> process_end" where
  "push_check_end (Ok report) = (if passed report \<or> pr_dry_run report then Exit 0 else Exit 1)"
| "push_check_end (Err _) = Exit 1"
| "push_check_end Panic = Aborted"

text \<open>
  What the process meets besides its arguments: the environment the service is constructed in, the clients'
  answers, the clock, and where the event loop ended, if it did.
\<close>

record ('d, 'p, 'x, 'act, 'sig, 'rid, 'key) main_world =
  mw_new :: construct_env
  mw_oracle :: "('x, 'act) oracle_env"
  mw_service_env :: "('d, 'p) service_env"
  mw_crypto :: "('sig, 'rid, 'key) crypto"
  mw_push_env :: push_check_env
  mw_reads :: "'d registry_reads"
  mw_now :: nat
  mw_loop :: run_phase

definition main_end :: "('d, 'p) config_env \<Rightarrow> ('d, 'p, 'x, 'act, 'sig, 'rid, 'key) main_world \<Rightarrow> args \<Rightarrow> process_end" where
  "main_end X W a =
     (case build_config X a of
        Err message \<Rightarrow> Exit 2
      | Panic \<Rightarrow> Aborted
      | Ok config \<Rightarrow>
     (case service_new (mw_new W) config of
        Ok (F, sv, w) \<Rightarrow>
          (let cf = service_config.truncate config in
           case su_run_mode config of
             RunLoop \<Rightarrow> if timers_start config then loop_end (mw_loop W) else Aborted
           | RunOnce \<Rightarrow>
               once_end (fst (run_once (mw_oracle W) F (mw_service_env W) cf (mw_reads W) (mw_now W) sv w))
           | RunPushCheck \<Rightarrow>
               push_check_end (fst (run_push_check (mw_crypto W) (mw_oracle W) F (mw_push_env W) cf
                 (mw_reads W) (mw_now W) sv w)))
      | _ \<Rightarrow> Aborted))"

section \<open>The operational endpoint\<close>

text \<open>\<open>hr_content_type\<close> is the header the handler itself sets.\<close>

record http_response =
  hr_status :: nat
  hr_content_type :: "string option"
  hr_body :: string

text \<open>Three scan intervals, saturating.\<close>

definition unhealthy_after_secs :: "nat \<Rightarrow> nat" where
  "unhealthy_after_secs scan_interval = min (scan_interval * 3) u64_max"

definition healthz :: "nat \<Rightarrow> metrics \<Rightarrow> nat \<Rightarrow> http_response" where
  "healthz now_unix m unhealthy_after =
     (if healthy now_unix m unhealthy_after
      then \<lparr>hr_status = 200, hr_content_type = None, hr_body = ''ok''\<rparr>
      else \<lparr>hr_status = 503, hr_content_type = None, hr_body = ''no recent successful scan''\<rparr>)"

definition metrics_text :: "metrics \<Rightarrow> http_response" where
  "metrics_text m = \<lparr>hr_status = 200, hr_content_type = Some ''text/plain; version=0.0.4'', hr_body = render m\<rparr>"

definition route :: "string \<Rightarrow> nat \<Rightarrow> metrics \<Rightarrow> nat \<Rightarrow> http_response option" where
  "route path now_unix m unhealthy_after =
     (if path = ''/healthz'' then Some (healthz now_unix m unhealthy_after)
      else if path = ''/metrics'' then Some (metrics_text m)
      else None)"

text \<open>
  Binding the listener is the network's (\<open>bind\<close>, an error text or success). Without a port, or when the bind
  fails, the service runs without the endpoint and a request is refused (the outer \<open>None\<close>; the inner one is
  an unknown path); the failure is not the loop's.
\<close>

definition http_spawn :: "(string \<Rightarrow> nat \<Rightarrow> string + unit) \<Rightarrow> string \<Rightarrow> nat \<Rightarrow> nat \<Rightarrow> string + nat" where
  "http_spawn bind bind_addr port unhealthy_after =
     (case bind bind_addr port of Inl e \<Rightarrow> Inl e | Inr _ \<Rightarrow> Inr unhealthy_after)"

definition run_endpoint :: "(string \<Rightarrow> nat \<Rightarrow> string + unit) \<Rightarrow> 'd startup_config \<Rightarrow> nat option" where
  "run_endpoint bind c =
     (case su_http_port c of
        None \<Rightarrow> None
      | Some port \<Rightarrow>
          (case http_spawn bind (su_http_bind_addr c) port (unhealthy_after_secs (su_liquidation_scan_interval c)) of
             Inl _ \<Rightarrow> None
           | Inr state \<Rightarrow> Some state))"

definition answer :: "nat option \<Rightarrow> string \<Rightarrow> nat \<Rightarrow> metrics \<Rightarrow> http_response option option" where
  "answer endpoint path now_unix m = map_option (route path now_unix m) endpoint"

lemma healthz_ok_iff:
  "hr_status (healthz now m (unhealthy_after_secs interval)) = 200 \<longleftrightarrow>
     last_successful_scan_unix m \<noteq> 0 \<and> now - last_successful_scan_unix m \<le> min (interval * 3) u64_max"
  by (simp add: healthz_def healthy_def unhealthy_after_secs_def)

text \<open>A probe of a running endpoint reads healthy exactly while the last good scan is recent.\<close>

lemma endpoint_healthy_iff:
  "(\<exists>r. answer (run_endpoint bind c) ''/healthz'' now m = Some (Some r) \<and> hr_status r = 200) \<longleftrightarrow>
     (\<exists>port. su_http_port c = Some port \<and> bind (su_http_bind_addr c) port = Inr ())
     \<and> last_successful_scan_unix m \<noteq> 0
     \<and> now - last_successful_scan_unix m \<le> min (su_liquidation_scan_interval c * 3) u64_max"
  by (auto simp: answer_def run_endpoint_def http_spawn_def route_def healthz_ok_iff split: option.splits sum.splits)

end
