(* ===== verification/Config_Properties.thy ===== *)
theory Config_Properties
  imports Service_Properties Swap_Properties Entry
begin

text \<open>
  Properties of the start-up: which arguments are accepted, what an accepted configuration guarantees, what
  of the secrets can show, what the running service makes of the filters, and how the process ends. The
  first section has concrete arguments, the same market library and strategy as the scenarios.
\<close>

section \<open>Concrete arguments\<close>

definition cx_url :: "string \<Rightarrow> parsed_url" where
  "cx_url scheme = \<lparr>url_scheme = scheme, url_username = [], url_password = None, url_query = None,
     url_fragment = None, url_origin = scheme @ ''://lazer'', url_path = ''/''\<rparr>"

definition cx_args :: "bool \<Rightarrow> args" where
  "cx_args once =
     \<lparr>a_registries = [''registry.near''], a_signer_key = '' ed25519:key '', a_signer_account = ''bot.near'',
      a_network = ''mainnet'', a_near_rpc_url = None, a_near_rpc_api_key = None, a_liquidation_scan_interval = 600,
      a_registry_refresh_interval = 3600, a_run_mode = RunLoop, a_once = once, a_concurrency = 10,
      a_position_concurrency = 8, a_partial_percentage = None, a_fixed_liquidation_amount_usd = None,
      a_min_profit_bps = 50, a_dry_run = True, a_collateral_strategy = ArgHold, a_oneclick_api_token = None,
      a_allowed_collateral_assets = [''not an asset''], a_ignored_collateral_assets = [],
      a_allowed_markets = [''market.near''], a_ignored_markets = [], a_deprecated_markets = [''proxy.near''],
      a_loop_liquidation = False, a_max_loop_iterations = 10, a_lazer_ws_url = cx_url ''wss'',
      a_redstone_authenticated_gateways = None, a_redstone_data_service_id = DEFAULT_REDSTONE_DATA_SERVICE_ID,
      a_redstone_push = True, a_lazer_api_url = cx_url ''https'', a_lazer_api_token = Some '' token '',
      a_min_swap_value_usd = Fin 10, a_batch_swap_on_cycle_start = True, a_swap_retry_attempts = 3,
      a_swap_retry_base_delay_ms = 2000, a_scan_failure_notify_threshold = 2,
      a_failure_notification_cooldown_hours = 24, a_telegram_bot_token = None, a_telegram_chat_id = None,
      a_telegram_thread_id = [], a_http_port = None, a_http_bind_addr = ''127.0.0.1''\<rparr>"

definition cx_env :: "(rat, rat) config_env" where
  "cx_env =
     \<lparr>ce_market_lib = sc_lib, ce_pow10 = (\<lambda>_. Fin 1),
      ce_secret_key = (\<lambda>s. if s = ''ed25519:key'' then Some s else None), ce_usable_key = (\<lambda>_. True),
      ce_parse_asset = (\<lambda>s. if s = ''not an asset'' then None else Some s), ce_parse_account = Some,
      ce_url_parse = (\<lambda>_. Inl ''relative''), ce_gateways_from_str = (\<lambda>_. Inr []),
      ce_lazer_source_refusal = (\<lambda>s. if url_scheme (ls_url s) = ''wss'' then None else Some ''not wss''),
      ce_client_builds = True\<rparr>"

lemma cx_trim [simp]: "trim '' ed25519:key '' = ''ed25519:key''" "trim '' token '' = ''token''"
  by (simp_all add: trim_def is_space_def byte_def)

lemma cx_spaces [simp]: "\<not> list_ex is_space ''redstone-primary-prod''"
  by (simp add: is_space_def byte_def)

text \<open>An accepted start-up, and what refuses it.\<close>

lemma build_config_Ok_iff:
  "(\<exists>c. build_config X a = Ok c) \<longleftrightarrow>
     \<not> (a_partial_percentage a \<noteq> None \<and> a_fixed_liquidation_amount_usd a \<noteq> None)
     \<and> telegram_ok a
     \<and> notifier_fits X a (telegram_wanted a)
     \<and> key_ok X (a_signer_key a)
     \<and> data_service_refusal (a_redstone_data_service_id a) = None
     \<and> (\<exists>g. redstone_of X a = Inr g \<and> push_check_refusal a g = None)
     \<and> (blank (a_lazer_api_token a)
        \<or> ce_lazer_source_refusal X (push_source a) = None \<and> url_scheme (a_lazer_api_url a) = ''https'')"
proof -
  have strategy: "(\<exists>s. create_strategy X a = Ok s) \<longleftrightarrow>
      \<not> (a_partial_percentage a \<noteq> None \<and> a_fixed_liquidation_amount_usd a \<noteq> None)"
    using create_strategy_cases [of X a] by (metis outcome.exhaust outcome.distinct(3))
  have key: "(\<exists>k. validated_signer_key_of X (a_signer_key a) = Inr k) \<longleftrightarrow> key_ok X (a_signer_key a)"
    by (auto simp: key_ok_def signer_key_cases) (metis validated_signer_key.sel)
  have source: "(\<exists>p. pyth_pro_source_of X a = Inr p) \<longleftrightarrow>
      blank (a_lazer_api_token a) \<or> ce_lazer_source_refusal X (push_source a) = None"
    by (auto simp: pyth_pro_source_cases)
  have api: "(\<exists>l. lazer_api_of a = Inr l) \<longleftrightarrow>
      blank (a_lazer_api_token a) \<or> url_scheme (a_lazer_api_url a) = ''https''"
    by (auto simp: lazer_api_cases)
  have "(\<exists>c. build_config X a = Ok c) \<longleftrightarrow>
      (\<exists>s. create_strategy X a = Ok s) \<and> (\<exists>t. telegram_config_of a = Ok t \<and> (\<exists>n. notifier_of X a t = Ok n))
      \<and> (\<exists>k. validated_signer_key_of X (a_signer_key a) = Inr k)
      \<and> data_service_refusal (a_redstone_data_service_id a) = None
      \<and> (\<exists>g. redstone_of X a = Inr g \<and> push_check_refusal a g = None)
      \<and> (\<exists>p. pyth_pro_source_of X a = Inr p) \<and> (\<exists>l. lazer_api_of a = Inr l)"
    unfolding build_config_def redstone_of_def [symmetric] Let_def
    by (simp only: obind_Ok_ex of_sum_simps refuse_simps outcome.inject simp_thms ex_simps) blast
  then show ?thesis unfolding strategy notifier_built key source api by blast
qed

lemma cx_parts [simp]:
  "telegram_ok (cx_args once)" "\<not> blank (a_lazer_api_token (cx_args once))" "key_ok cx_env (a_signer_key (cx_args once))"
  "redstone_of cx_env (cx_args once) = Inr None" "ce_lazer_source_refusal cx_env (push_source (cx_args once)) = None"
  "data_service_refusal (a_redstone_data_service_id (cx_args once)) = None"
proof -
  show "telegram_ok (cx_args once)" by (simp add: telegram_ok_def cx_args_def blank_def)
  show "\<not> blank (a_lazer_api_token (cx_args once))" by (simp add: cx_args_def blank_def)
  show "key_ok cx_env (a_signer_key (cx_args once))" by (simp add: key_ok_def cx_args_def cx_env_def)
  show "redstone_of cx_env (cx_args once) = Inr None"
    by (simp add: redstone_of_def cx_env_def gateway_config_parse_def Let_def)
  show "ce_lazer_source_refusal cx_env (push_source (cx_args once)) = None"
    by (simp add: push_source_def cx_args_def cx_env_def cx_url_def)
  show "data_service_refusal (a_redstone_data_service_id (cx_args once)) = None"
    unfolding data_service_refusal_None
    by (simp add: cx_args_def DEFAULT_REDSTONE_DATA_SERVICE_ID_def is_space_def byte_def)
qed

lemma cx_accepted: "\<exists>c. build_config cx_env (cx_args once) = Ok c"
proof -
  have "push_check_refusal (cx_args once) None = None" by (simp add: push_check_refusal_def cx_args_def effective_run_mode_def)
  moreover have "a_partial_percentage (cx_args once) = None" "notifier_fits cx_env (cx_args once) t"
    "url_scheme (a_lazer_api_url (cx_args once)) = ''https''" for t
    by (simp_all add: cx_args_def cx_url_def cx_env_def notifier_fits_def u64_max_def MAX_PERMITS_def)
  ultimately show ?thesis unfolding build_config_Ok_iff by simp
qed

section \<open>What start-up accepts and guarantees\<close>




section \<open>Secrets\<close>

text \<open>Two sets of arguments that differ in credentials only: the six credential fields (each given or not in
  both alike), and whatever the two Lazer URLs carry beyond their scheme and origin.\<close>

definition same_place :: "parsed_url \<Rightarrow> parsed_url \<Rightarrow> bool" where
  "same_place u v \<longleftrightarrow> url_scheme u = url_scheme v \<and> url_origin u = url_origin v"

definition other_credentials :: "args \<Rightarrow> args \<Rightarrow> bool" where
  "other_credentials a b \<longleftrightarrow>
     b = a\<lparr>a_signer_key := a_signer_key b,
           a_near_rpc_api_key := a_near_rpc_api_key b,
           a_oneclick_api_token := a_oneclick_api_token b,
           a_redstone_authenticated_gateways := a_redstone_authenticated_gateways b,
           a_lazer_api_token := a_lazer_api_token b,
           a_telegram_bot_token := a_telegram_bot_token b,
           a_lazer_ws_url := a_lazer_ws_url b,
           a_lazer_api_url := a_lazer_api_url b\<rparr>
     \<and> (a_near_rpc_api_key a = None \<longleftrightarrow> a_near_rpc_api_key b = None)
     \<and> (a_oneclick_api_token a = None \<longleftrightarrow> a_oneclick_api_token b = None)
     \<and> (a_redstone_authenticated_gateways a = None \<longleftrightarrow> a_redstone_authenticated_gateways b = None)
     \<and> (a_lazer_api_token a = None \<longleftrightarrow> a_lazer_api_token b = None)
     \<and> (a_telegram_bot_token a = None \<longleftrightarrow> a_telegram_bot_token b = None)
     \<and> same_place (a_lazer_ws_url a) (a_lazer_ws_url b) \<and> same_place (a_lazer_api_url a) (a_lazer_api_url b)"

text \<open>Credentials of the same standing: the same verdict of every check a credential goes through.\<close>

definition header_safe :: "string \<Rightarrow> bool" where
  "header_safe key \<longleftrightarrow> key \<noteq> [] \<and> list_all is_ascii_graphic key"

definition gateway_list :: "args \<Rightarrow> string" where
  "gateway_list a = unquote (case a_redstone_authenticated_gateways a of Some s \<Rightarrow> s | None \<Rightarrow> [])"

definition same_gateway :: "string \<times> string \<Rightarrow> string \<times> string \<Rightarrow> bool" where
  "same_gateway g h \<longleftrightarrow> fst g = fst h \<and> header_safe (snd g) = header_safe (snd h)"

definition same_standing :: "('d, 'p) config_env \<Rightarrow> args \<Rightarrow> args \<Rightarrow> bool" where
  "same_standing X a b \<longleftrightarrow>
     map_option (ce_usable_key X) (ce_secret_key X (trim (a_signer_key a)))
       = map_option (ce_usable_key X) (ce_secret_key X (trim (a_signer_key b)))
     \<and> (gateway_list a = [] \<longleftrightarrow> gateway_list b = [])
     \<and> rel_sum (=) (list_all2 same_gateway) (ce_gateways_from_str X (gateway_list a)) (ce_gateways_from_str X (gateway_list b))
     \<and> (blank (a_lazer_api_token a) \<longleftrightarrow> blank (a_lazer_api_token b))
     \<and> ce_lazer_source_refusal X (push_source a) = ce_lazer_source_refusal X (push_source b)
     \<and> (blank (a_telegram_bot_token a) \<longleftrightarrow> blank (a_telegram_bot_token b))"

lemma signer_key_standing:
  assumes "map_option (ce_usable_key X) (ce_secret_key X (trim k)) = map_option (ce_usable_key X) (ce_secret_key X (trim k'))"
  shows "(\<exists>v. validated_signer_key_of X k = Inr v) \<longleftrightarrow> (\<exists>v. validated_signer_key_of X k' = Inr v)"
    and "validated_signer_key_of X k = Inl e \<longleftrightarrow> validated_signer_key_of X k' = Inl e"
proof -
  define bad :: string where "bad = ''SIGNER_KEY is not a valid NEAR secret key (expected `ed25519:<base58>`); value withheld''"
  define mismatched :: string where "mismatched = ''SIGNER_KEY parses but is not a usable signer key: its embedded public half does ''
            @ ''not match its secret half (mismatched keypair) '' @ em_dash @ '' re-export the key for ''
            @ ''SIGNER_ACCOUNT_ID from your wallet; value withheld''"
  have eq: "validated_signer_key_of X s = (case ce_secret_key X (trim s) of None \<Rightarrow> Inl bad
      | Some p \<Rightarrow> if ce_usable_key X p then Inr (ValidatedSignerKey p) else Inl mismatched)" for s
    by (simp only: validated_signer_key_of_def bad_def mismatched_def)
  show "(\<exists>v. validated_signer_key_of X k = Inr v) \<longleftrightarrow> (\<exists>v. validated_signer_key_of X k' = Inr v)"
    "validated_signer_key_of X k = Inl e \<longleftrightarrow> validated_signer_key_of X k' = Inl e"
    using assms unfolding eq
    by (cases "ce_secret_key X (trim k)"; cases "ce_secret_key X (trim k')"; auto)+
qed

lemma parse_gateway_standing:
  assumes "same_gateway e e'"
  shows "rel_sum (=) (\<lambda>_ _. True) (parse_gateway url_parse i e) (parse_gateway url_parse i e')"
proof -
  obtain u k where e: "e = (u, k)" by fastforce
  obtain k' where e': "e' = (u, k')" "header_safe k = header_safe k'"
    using assms e by (cases e') (simp add: same_gateway_def)
  have bad: "(key = [] \<or> \<not> list_all is_ascii_graphic key) = (\<not> header_safe key)" for key
    by (simp add: header_safe_def)
  show ?thesis
    unfolding e e'(1) parse_gateway_def fst_conv snd_conv bad e'(2)
    by (simp split: sum.split)
qed

lemma parse_gateways_standing:
  "list_all2 same_gateway es es' \<Longrightarrow>
   rel_sum (=) (\<lambda>_ _. True) (parse_gateways url_parse i es) (parse_gateways url_parse i es')"
proof (induction es arbitrary: es' i)
  case (Cons e es)
  then obtain e' rest where es': "es' = e' # rest" "same_gateway e e'" "list_all2 same_gateway es rest"
    by (auto simp: list_all2_Cons1)
  from Cons.IH [OF es'(3), of "Suc i"] parse_gateway_standing [OF es'(2), of url_parse i] show ?case
    by (auto simp: es'(1) elim!: rel_sum.cases)
qed simp

lemma redstone_standing:
  assumes "same_standing X a b" "a_redstone_data_service_id b = a_redstone_data_service_id a"
  shows "rel_sum (=) (\<lambda>g h. g = None \<longleftrightarrow> h = None) (redstone_of X a) (redstone_of X b)"
proof (cases "gateway_list a = []")
  case True
  with assms(1) have "gateway_list b = []" by (simp add: same_standing_def)
  with True show ?thesis by (simp add: redstone_of_def gateway_config_parse_def Let_def gateway_list_def [symmetric])
next
  case False
  with assms(1) have other: "gateway_list b \<noteq> []" by (simp add: same_standing_def)
  from assms(1) have "rel_sum (=) (list_all2 same_gateway) (ce_gateways_from_str X (gateway_list a)) (ce_gateways_from_str X (gateway_list b))"
    by (simp add: same_standing_def)
  then show ?thesis
  proof cases
    case (1 e e')
    with False other show ?thesis
      by (simp add: redstone_of_def gateway_config_parse_def Let_def gateway_list_def [symmetric])
  next
    case (2 es es')
    have nil: "es = [] \<longleftrightarrow> es' = []" using 2(3) by auto
    from parse_gateways_standing [OF 2(3), of "ce_url_parse X" 0] False other 2(1,2) nil show ?thesis
      by (auto simp: redstone_of_def gateway_config_parse_def Let_def gateway_list_def [symmetric] elim!: rel_sum.cases)
  qed
qed

text \<open>When start-up refuses, and with which message.\<close>

lemma build_config_Err_iff:
  "build_config X a = Err m \<longleftrightarrow>
     (\<exists>s. create_strategy X a = Ok s) \<and> telegram_ok a \<and> notifier_fits X a (telegram_wanted a)
     \<and> (validated_signer_key_of X (a_signer_key a) = Inl m
        \<or> (\<exists>k. validated_signer_key_of X (a_signer_key a) = Inr k)
          \<and> (data_service_refusal (a_redstone_data_service_id a) = Some m
             \<or> data_service_refusal (a_redstone_data_service_id a) = None
               \<and> (redstone_of X a = Inl m
                  \<or> (\<exists>g. redstone_of X a = Inr g
                       \<and> (push_check_refusal a g = Some m
                          \<or> push_check_refusal a g = None
                            \<and> (pyth_pro_source_of X a = Inl m
                               \<or> (\<exists>p. pyth_pro_source_of X a = Inr p) \<and> lazer_api_of a = Inl m))))))"
    (is "_ \<longleftrightarrow> _ \<and> _ \<and> _ \<and> ?rest")
proof -
  have "build_config X a = Err m \<longleftrightarrow>
      (\<exists>s. create_strategy X a = Ok s) \<and> (\<exists>t. telegram_config_of a = Ok t \<and> (\<exists>n. notifier_of X a t = Ok n)) \<and> ?rest"
    unfolding build_config_def redstone_of_def [symmetric] Let_def
    by (simp only: obind_eq_Err of_sum_simps refuse_simps create_strategy_cases(1) telegram_cases(1) notifier_cases(1)
        outcome.distinct simp_thms ex_simps) blast
  then show ?thesis unfolding notifier_built by blast
qed

lemma refusal_standing:
  assumes "other_credentials a b" "same_standing X a b"
  shows "build_config X a = Err m \<longleftrightarrow> build_config X b = Err m"
proof -
  obtain s na oc rg lt tg wu au where b: "b = a\<lparr>a_signer_key := s, a_near_rpc_api_key := na, a_oneclick_api_token := oc,
      a_redstone_authenticated_gateways := rg, a_lazer_api_token := lt, a_telegram_bot_token := tg,
      a_lazer_ws_url := wu, a_lazer_api_url := au\<rparr>"
    using assms(1) unfolding other_credentials_def by blast
  have present: "a_telegram_bot_token a = None \<longleftrightarrow> tg = None" "url_scheme (a_lazer_api_url a) = url_scheme au"
    using assms(1) by (simp_all add: other_credentials_def b same_place_def)
  have blanks: "blank (a_lazer_api_token a) \<longleftrightarrow> blank lt" "blank (a_telegram_bot_token a) \<longleftrightarrow> blank tg"
    using assms(2) by (simp_all add: same_standing_def b)
  have signer: "map_option (ce_usable_key X) (ce_secret_key X (trim (a_signer_key a)))
      = map_option (ce_usable_key X) (ce_secret_key X (trim s))" using assms(2) by (simp add: same_standing_def b)
  have source: "ce_lazer_source_refusal X (push_source a) = ce_lazer_source_refusal X (push_source b)"
    using assms(2) by (simp add: same_standing_def)
  have plain: "create_strategy X b = create_strategy X a" "a_redstone_data_service_id b = a_redstone_data_service_id a"
    by (simp_all add: create_strategy_def b cong: option.case_cong)
  have telegram: "telegram_ok b \<longleftrightarrow> telegram_ok a" "notifier_fits X b (telegram_wanted b) \<longleftrightarrow> notifier_fits X a (telegram_wanted a)"
    using present(1) blanks(2) by (simp_all add: telegram_ok_def notifier_fits_def telegram_wanted_def b)
  have keyed: "validated_signer_key_of X (a_signer_key b) = Inl m \<longleftrightarrow> validated_signer_key_of X (a_signer_key a) = Inl m"
    "(\<exists>k. validated_signer_key_of X (a_signer_key b) = Inr k) \<longleftrightarrow> (\<exists>k. validated_signer_key_of X (a_signer_key a) = Inr k)"
    using signer_key_standing [OF signer] by (simp_all add: b)
  have push: "push_check_refusal b h = push_check_refusal a g" if "g = None \<longleftrightarrow> h = None" for g h
    using that blanks(1) by (simp add: push_check_refusal_def effective_run_mode_def b)
  have pyth: "pyth_pro_source_of X c = (if blank (a_lazer_api_token c) then Inr None
      else case ce_lazer_source_refusal X (push_source c) of
        Some e \<Rightarrow> Inl (''LAZER_WS_URL / LAZER_API_TOKEN cannot configure the Pyth Pro on-chain push source: '' @ e)
      | None \<Rightarrow> Inr (Some (push_source c)))" for c
    by (auto simp: pyth_pro_source_of_def pyth_pro_token_def blank_def push_source_def Let_def split: option.splits)
  have api: "lazer_api_of b = Inl m \<longleftrightarrow> lazer_api_of a = Inl m"
    using blanks(1) present(2)
    by (auto simp: lazer_api_of_def lazer_api_config_new_def pyth_pro_token_def blank_def b split: option.splits if_splits)
  have legs: "pyth_pro_source_of X b = Inl m \<longleftrightarrow> pyth_pro_source_of X a = Inl m"
    "(\<exists>p. pyth_pro_source_of X b = Inr p) \<longleftrightarrow> (\<exists>p. pyth_pro_source_of X a = Inr p)"
    unfolding pyth source using blanks(1) by (auto simp: b split: option.splits if_splits)
  from redstone_standing [OF assms(2) plain(2)] show ?thesis
  proof cases
    case (1 e e')
    then show ?thesis unfolding build_config_Err_iff plain telegram keyed api legs by simp
  next
    case (2 g h)
    then show ?thesis
      unfolding build_config_Err_iff plain telegram keyed api legs
      by (simp only: push [OF 2(3)] sum.inject sum.distinct simp_thms ex_simps)
  qed
qed


text \<open>Two mistyped signer keys, with different tokens beside them.\<close>

definition cx_other :: "args \<Rightarrow> args" where
  "cx_other a = a\<lparr>a_signer_key := ''ed25519:other'', a_lazer_api_token := Some ''other''\<rparr>"


text \<open>
  C25: the filters of the arguments reach the running service: in every state the event loop can be in, from
  the service constructed for an accepted configuration, no market it holds is deprecated, each is on the
  allow list when there is one, each liquidator is dry exactly when the arguments say so, every reservation
  is settled, and a dry run has moved nothing.
\<close>

theorem service_runs_what_was_configured:
  assumes "build_config X a = Ok c" "service_new N c = Ok (F, sv0, w0)"
    and "run_reach E F SE (service_config.truncate c) (su_registry_refresh_interval c) sv0 w0 s"
    and "service_env_ok SE"
  shows "list_all (\<lambda>(market, lq). market \<notin> set (a_deprecated_markets a)
             \<and> (a_allowed_markets a = [] \<or> market \<in> set (a_allowed_markets a))
             \<and> dry_run_mode lq = a_dry_run a) (sv_markets (rn_service s))
    \<and> stage (a_dry_run a) w0 (rn_world s)"
proof -
  let ?cf = "service_config.truncate c"
  note new = service_new_Ok [OF assms(2)]
  have plain: "cf_dry_run ?cf = a_dry_run a" "cf_deprecated_markets ?cf = a_deprecated_markets a"
    "cf_allowed_markets ?cf = a_allowed_markets a"
    using build_config_plain [OF assms(1)] by (simp_all add: service_config.defs)
  have "registry_ok E F ?cf sv0" using new(1) by (simp add: registry_ok_def)
  from run_reach_ok [OF assms(3,4) new(3) this] have "stage (cf_dry_run ?cf) w0 (rn_world s)" "registry_ok E F ?cf (rn_service s)"
    by (simp_all add: run_ok_def)
  with plain show ?thesis
    by (fastforce simp: registry_ok_def list_all_iff market_admitted_def admissible_def liquidator_new_def dry_run_mode_def)
qed

definition cx_new :: construct_env where
  "cx_new = \<lparr>ne_rpc_url_ok = (\<lambda>_. True), ne_gateway_key_ok = (\<lambda>_. True), ne_client_builds = (\<lambda>_. True),
     ne_binds_signer = (\<lambda>_. True), ne_redstone_http = Inr (), ne_lazer_http = Inr (), ne_oneclick = ox_env False Success,
     ne_manager_id = 0\<rparr>"

lemma cx_service: "\<exists>F sv w. service_new cx_new c = Ok (F, sv, w)"
  by (simp add: service_new_def cx_new_def expect_def Let_def split: option.splits)

theorem service_runs_what_was_configured_witness:
  "\<exists>c F sv w s. build_config cx_env (cx_args False) = Ok c \<and> service_new cx_new c = Ok (F, sv, w)
     \<and> run_reach sx_oracle_env F sx_env (service_config.truncate c) (su_registry_refresh_interval c) sv w s
     \<and> stage True w (rn_world s)"
proof -
  obtain c where c: "build_config cx_env (cx_args False) = Ok c" using cx_accepted by blast
  obtain F sv w where n: "service_new cx_new c = Ok (F, sv, w)" using cx_service by blast
  let ?s = "run_start sx_oracle_env F (service_config.truncate c) (su_registry_refresh_interval c) None (sx_registry (Inr sx_listing)) 0 sv w"
  have reach: "run_reach sx_oracle_env F sx_env (service_config.truncate c) (su_registry_refresh_interval c) sv w ?s"
    by (rule run_reach.start)
  have "a_dry_run (cx_args False)" by (simp add: cx_args_def)
  with service_runs_what_was_configured [OF c n reach sx_env_ok] c n reach show ?thesis by auto
qed

text \<open>
  C26: the exit code says what happened. 2: start-up refused the arguments. 0: the event loop was stopped, the
  single run completed, or the push check passed or was a dry run. 1: the single run could not list the
  deployments or admitted none, or the push check failed or did not pass. No other code is returned, and
  none after a panic of the start-up or of the construction of the service.
\<close>

theorem exit_code_is_honest:
  assumes "main_end X W a = Exit ec"
  shows "case build_config X a of
      Panic \<Rightarrow> False
    | Err m \<Rightarrow> ec = 2
    | Ok c \<Rightarrow> ec \<le> 1 \<and>
        (case service_new (mw_new W) c of
           Ok (F, sv, w) \<Rightarrow>
             (case su_run_mode c of
                RunLoop \<Rightarrow> ec = 0 \<and> mw_loop W = Stopped
              | RunOnce \<Rightarrow> ec = 1 \<longleftrightarrow>
                  (case list_all_deployments (mw_reads W) (a_registries a) of
                     Inl _ \<Rightarrow> True
                   | Inr listed \<Rightarrow> fst (admission_loop (mw_oracle W) F (service_config.truncate c) (mw_reads W)
                       (dedupe_deployments listed) [] (sv_oracle sv)) = [])
              | RunPushCheck \<Rightarrow> ec = 0 \<longleftrightarrow>
                  (case fst (run_push_check (mw_crypto W) (mw_oracle W) F (mw_push_env W)
                       (service_config.truncate c) (mw_reads W) (mw_now W) sv w) of
                     Ok r \<Rightarrow> passed r \<or> pr_dry_run r
                   | _ \<Rightarrow> False))
         | _ \<Rightarrow> False)"
proof -
  have once: "once_end r = Exit ec \<longleftrightarrow> (ec = 0 \<and> (\<exists>u. r = Ok u)) \<or> (ec = 1 \<and> (\<exists>e. r = Err e))" for r
    by (cases r) auto
  have push: "push_check_end r = Exit ec \<longleftrightarrow>
      r \<noteq> Panic \<and> ec = (if (\<exists>p. r = Ok p \<and> (passed p \<or> pr_dry_run p)) then 0 else 1)" for r
    by (cases r) auto
  have loop: "loop_end ph = Exit ec \<longleftrightarrow> ph = Stopped \<and> ec = 0" for ph by (cases ph) auto
  show ?thesis
  proof (cases "build_config X a")
    case (Ok c)
    let ?cf = "service_config.truncate c"
    have regs: "cf_registries ?cf = a_registries a"
      using build_config_plain [OF Ok] by (simp add: service_config.defs)
    show ?thesis
    proof (cases "service_new (mw_new W) c")
      case (Ok n)
      obtain F sv w where n: "service_new (mw_new W) c = outcome.Ok (F, sv, w)"
        using Ok by (cases n) auto
      note built = \<open>build_config X a = outcome.Ok c\<close>
      show ?thesis
      proof (cases "su_run_mode c")
        case RunLoop
        with built n assms loop show ?thesis by (simp add: main_end_def Let_def split: if_splits)
      next
        case RunOnce
        let ?r = "fst (run_once (mw_oracle W) F (mw_service_env W) ?cf (mw_reads W) (mw_now W) sv w)"
        from RunOnce built n assms have "once_end ?r = Exit ec" by (simp add: main_end_def Let_def)
        then have "ec \<le> 1" "ec = 1 \<longleftrightarrow> (\<exists>e. ?r = Err e)" by (auto simp: once)
        with built n RunOnce regs show ?thesis by (auto simp: run_once_error_iff split: sum.splits)
      next
        case RunPushCheck
        let ?r = "fst (run_push_check (mw_crypto W) (mw_oracle W) F (mw_push_env W) ?cf (mw_reads W) (mw_now W) sv w)"
        from RunPushCheck built n assms have "push_check_end ?r = Exit ec" by (simp add: main_end_def Let_def)
        with built n RunPushCheck show ?thesis by (auto simp: push split: outcome.splits)
      qed
    qed (use Ok assms in \<open>simp_all add: main_end_def\<close>)
  qed (use assms in \<open>simp_all add: main_end_def\<close>)
qed

text \<open>A single run whose registry cannot be listed.\<close>

definition cx_world :: "(rat, rat, rat, unit, unit, unit, unit) main_world" where
  "cx_world =
     \<lparr>mw_new = cx_new, mw_oracle = sx_oracle_env, mw_service_env = sx_env, mw_crypto = sx_crypto,
      mw_push_env = sx_reads, mw_reads = sx_registry (Inl ''down''), mw_now = 0, mw_loop = Looping\<rparr>"

lemma cx_world_simps [simp]: "mw_new cx_world = cx_new" "mw_loop cx_world = Looping"
  by (simp_all add: cx_world_def)

lemma cx_listing: "list_all_deployments (mw_reads cx_world) [''registry.near''] = Inl ''down''"
  by (simp add: cx_world_def list_all_deployments_def sx_registry_def)

lemma cx_exit: "main_end cx_env cx_world (cx_args True) = Exit 1"
proof -
  obtain c where c: "build_config cx_env (cx_args True) = Ok c" using cx_accepted by blast
  obtain F sv w where n: "service_new cx_new c = Ok (F, sv, w)" using cx_service by blast
  have "su_run_mode c = RunOnce" "cf_registries (service_config.truncate c) = [''registry.near'']"
    using build_config_plain [OF c] by (simp_all add: effective_run_mode_def cx_args_def service_config.defs)
  with c n cx_listing show ?thesis by (simp add: main_end_def run_once_def refresh_registry_def)
qed

theorem exit_code_is_honest_witness:
  "\<exists>c. build_config cx_env (cx_args True) = Ok c \<and> su_run_mode c = RunOnce
     \<and> main_end cx_env cx_world (cx_args True) = Exit 1
     \<and> (case list_all_deployments (mw_reads cx_world) (a_registries (cx_args True)) of Inl _ \<Rightarrow> True | Inr _ \<Rightarrow> False)"
proof -
  obtain c where c: "build_config cx_env (cx_args True) = Ok c" using cx_accepted by blast
  obtain F sv w where n: "service_new cx_new c = Ok (F, sv, w)" using cx_service by blast
  have "a_registries (cx_args True) = [''registry.near'']" "su_run_mode c = RunOnce"
    using build_config_plain [OF c] by (simp_all add: effective_run_mode_def cx_args_def)
  with exit_code_is_honest [OF cx_exit] c n cx_exit cx_listing show ?thesis by simp
qed

text \<open>
  A refresh or scan interval of zero is accepted and then ends the loop before it starts, and an RPC URL that
  does not parse ends the process in the construction of the service.
\<close>

lemma zero_interval_aborts:
  assumes "build_config X a = Ok c" "su_run_mode c = RunLoop" "a_liquidation_scan_interval a = 0"
  shows "main_end X W a = Aborted"
  using assms build_config_plain [OF assms(1)]
  by (auto simp: main_end_def timers_start_def Let_def split: outcome.splits)

lemma bad_rpc_url_aborts:
  assumes "build_config X a = Ok c" "a_near_rpc_url a = Some url" "\<not> ne_rpc_url_ok (mw_new W) url"
  shows "main_end X W a = Aborted"
  using assms build_config_plain [OF assms(1)]
  by (auto simp: main_end_def service_new_Panic [THEN iffD2])

section \<open>A filter that fails open\<close>

text \<open>
  An entry of the collateral allow list that does not parse is skipped. When none parses the list is empty,
  and an empty list allows every collateral: the operator's restriction is gone.
\<close>

lemma collateral_allowlist_fails_open:
  assumes "build_config X a = Ok c" "\<And>s. s \<in> set (a_allowed_collateral_assets a) \<Longrightarrow> ce_parse_asset X s = None"
  shows "cf_allowed_collateral_assets c = []"
  using build_config_plain(7) [OF assms(1)] assms(2) by (auto simp: List.map_filter_def filter_empty_conv)

lemma empty_allowlist_allows_all:
  assumes "cf_allowed_collateral_assets cf = []" "cf_ignored_collateral_assets cf = []"
    and "decimals_are_sane (borrow_asset_decimals (price_oracle_configuration config))
          (collateral_asset_decimals (price_oracle_configuration config))"
  shows "fst (should_process_market cf config)"
  using assms by (simp add: should_process_market_def Let_def)

text \<open>The debug rendering of the arguments prints the RPC URL, in which a key may be, as it is.\<close>

lemma rpc_url_is_rendered:
  "args_debug (a\<lparr>a_near_rpc_url := Some u\<rparr>) = args_debug (a\<lparr>a_near_rpc_url := Some u'\<rparr>) \<longleftrightarrow> u = u'"
  by (simp add: args_debug_def)

end
