(* ===== verification/Explain.thy ===== *)
theory Explain
  imports Config
begin

text \<open>
  What the operator is told in the log. Of src/liquidator.rs: \<open>log_profitable\<close> and \<open>log_unprofitable\<close>, the line
  about a position that was sized and priced, and the line \<open>resolve_evaluation\<close> writes when a loop ends. Of
  src/config.rs: \<open>log_startup\<close>. The fields are in the order of the source, each with its rendering;
  \<open>Decimal::to_f64_lossy\<close> is the market library's and is the argument \<open>lossy\<close>.
\<close>

record log_line =
  ll_message :: string
  ll_fields :: "(string \<times> string) list"

definition asset_info :: "'d market_configuration \<Rightarrow> int \<times> string \<times> int \<times> string" where
  "asset_info config =
     (borrow_asset_decimals (price_oracle_configuration config), borrow_asset config,
      collateral_asset_decimals (price_oracle_configuration config), collateral_asset config)"

section \<open>The numbers\<close>

text \<open>What remains of a value after the liquidation spread.\<close>

definition value_after_spread :: "f64 \<Rightarrow> nat \<Rightarrow> nat" where
  "value_after_spread spread_f64 expected_value =
     f64_to_uint u128_max (f64_mul (f64_of_nat expected_value) (f64_sub (Fin 1) spread_f64))"

text \<open>The revenue the line says was required, saturating.\<close>

definition min_revenue_required :: "nat \<Rightarrow> nat \<Rightarrow> nat" where
  "min_revenue_required margin_bps cost = div_ceil (sat_mul cost (10000 + margin_bps)) 10000"

section \<open>The lines\<close>

definition profitable_line ::
    "('d, 'p) params \<Rightarrow> 'd liquidator \<Rightarrow> account_id \<Rightarrow> borrow_position \<Rightarrow> string \<Rightarrow> sized_liquidation
     \<Rightarrow> liquidation_plan \<Rightarrow> loop_ctx \<Rightarrow> log_line" where
  "profitable_line P lq borrow_account position reason sized plan ctx =
     (let (borrow_dec, borrow_id, coll_dec, coll_id) = asset_info (lq_config lq);
          profit = signed_profit (pl_expected_collateral_value plan) (total_cost plan)
      in \<lparr>ll_message = (if cx_dry_run ctx then ''[DRY RUN] Liquidatable position'' else ''Liquidatable position''),
          ll_fields =
            [(''market'', lq_market lq), (''borrower'', borrow_account), (''reason'', reason)]
            @ (if cx_loop_enabled ctx
               then [(''iteration'', format_iteration (cx_iteration ctx) (cx_max_iterations ctx))] else [])
            @ [(''collateral_total'', format_amount (p_pow10 P) (collateral_asset_deposit position) coll_dec coll_id),
               (''collateral_liquidatable'', format_amount (p_pow10 P) (sz_liquidatable_collateral sized) coll_dec coll_id),
               (''send'', format_amount (p_pow10 P) (pl_liquidation_amount plan) borrow_dec borrow_id),
               (''receive'', format_amount (p_pow10 P) (pl_collateral_amount plan) coll_dec coll_id),
               (''profit'', format_profit (p_pow10 P) profit (pl_liquidation_amount plan) borrow_dec borrow_id)]\<rparr>)"

definition unprofitable_line ::
    "('d, 'p) params \<Rightarrow> ('d \<Rightarrow> f64) \<Rightarrow> 'd liquidator \<Rightarrow> account_id \<Rightarrow> borrow_position \<Rightarrow> sized_liquidation
     \<Rightarrow> liquidation_plan \<Rightarrow> loop_ctx \<Rightarrow> log_line" where
  "unprofitable_line P lossy lq borrow_account position sized plan ctx =
     (let (borrow_dec, borrow_id, coll_dec, coll_id) = asset_info (lq_config lq);
          cost = total_cost plan;
          loss = signed_profit (pl_expected_collateral_value plan) cost;
          spread = lossy (liquidation_maximum_spread (lq_config lq));
          with_spread = value_after_spread spread (pl_expected_collateral_value plan);
          required = min_revenue_required (min_profit_margin_bps (lq_strategy lq)) cost;
          borrow_amount = (\<lambda>n. format_amount (p_pow10 P) n borrow_dec borrow_id);
          collateral_text = (\<lambda>n. format_amount (p_pow10 P) n coll_dec coll_id)
      in \<lparr>ll_message = (if cx_dry_run ctx then ''[DRY RUN] Position not profitable, skipping''
                        else ''Position not profitable, skipping''),
          ll_fields =
            [(''market'', lq_market lq), (''borrower'', borrow_account),
             (''collateral_total'', collateral_text (collateral_asset_deposit position)),
             (''collateral_liquidatable'', collateral_text (sz_liquidatable_collateral sized)),
             (''collateral_requested'', collateral_text (pl_collateral_amount plan)),
             (''send'', borrow_amount (pl_liquidation_amount plan)),
             (''gas_cost'', borrow_amount (pl_gas_cost plan)),
             (''total_cost'', borrow_amount cost),
             (''receive_value_no_spread'', borrow_amount (pl_expected_collateral_value plan)),
             (''receive_value_with_spread'', borrow_amount with_spread),
             (''min_revenue_required'', borrow_amount required),
             (''spread'', fmt_fixed False 1 (f64_mul spread (Fin 100)) @ ''%''),
             (''loss'', format_profit (p_pow10 P) loss cost borrow_dec borrow_id)]\<rparr>)"

text \<open>The line at the end of a loop; \<open>ctx.iteration - 1\<close> is a \<open>u32\<close> subtraction.\<close>

definition log_loop_summary ::
    "('d, 'p) params \<Rightarrow> 'd liquidator \<Rightarrow> account_id \<Rightarrow> nat \<Rightarrow> nat \<Rightarrow> nat \<Rightarrow> string \<Rightarrow> log_line" where
  "log_loop_summary P lq borrow_account iterations total_sent total_received message =
     (let (borrow_dec, borrow_id, coll_dec, coll_id) = asset_info (lq_config lq)
      in \<lparr>ll_message = message,
          ll_fields =
            [(''market'', lq_market lq), (''borrower'', borrow_account), (''iterations'', show_nat iterations),
             (''total_sent'', format_amount (p_pow10 P) total_sent borrow_dec borrow_id),
             (''total_received'', format_amount (p_pow10 P) total_received coll_dec coll_id)]\<rparr>)"

definition resolve_line ::
    "('d, 'p) params \<Rightarrow> 'd liquidator \<Rightarrow> evaluation \<Rightarrow> account_id \<Rightarrow> loop_ctx \<Rightarrow> nat \<Rightarrow> nat
     \<Rightarrow> (unit, log_line option) outcome" where
  "resolve_line P lq evaluation borrow_account ctx total_sent total_received =
     (case map_evaluation evaluation (1 < cx_iteration ctx) of
        Inr plan \<Rightarrow> Ok None
      | Inl st \<Rightarrow>
          (case st_log st of
             NoLog \<Rightarrow> Ok None
           | CompletedHealthy \<Rightarrow>
               if cx_iteration ctx = 0 then Panic
               else Ok (Some (log_loop_summary P lq borrow_account (cx_iteration ctx - 1) total_sent total_received
                      ''Loop liquidation completed successfully - position now healthy''))
           | MaxedOutLog \<Rightarrow>
               Ok (Some (log_loop_summary P lq borrow_account (cx_max_iterations ctx) total_sent total_received
                      ''Loop liquidation stopped - max iterations reached''))
           | BudgetExhaustedUnliquidated \<Rightarrow>
               Ok (Some \<lparr>ll_message = ''Loop iteration budget spent before any liquidation, skipping'',
                         ll_fields = [(''market'', lq_market lq), (''borrower'', borrow_account),
                                      (''max_iterations'', show_nat (cx_max_iterations ctx))]\<rparr>)))"

section \<open>Start-up\<close>

datatype log_level = Info | Warn

definition RETIRED_REDSTONE_VARS :: "string list" where
  "RETIRED_REDSTONE_VARS = [''REDSTONE_API_URL'', ''REDSTONE_GATEWAY_URL'']"

definition run_mode_debug :: "run_mode \<Rightarrow> string" where
  "run_mode_debug m = (case m of RunLoop \<Rightarrow> ''Loop'' | RunOnce \<Rightarrow> ''Once'' | RunPushCheck \<Rightarrow> ''PushCheck'')"

text \<open>\<open>var\<close> is the process environment.\<close>

definition log_startup :: "(string \<Rightarrow> string option) \<Rightarrow> args \<Rightarrow> (log_level \<times> log_line) list" where
  "log_startup var a =
     [(Info, \<lparr>ll_message = ''Starting liquidator bot'',
              ll_fields = [(''network'', a_network a), (''dry_run'', if a_dry_run a then ''true'' else ''false''),
                           (''run_mode'', run_mode_debug (effective_run_mode a))]\<rparr>)]
     @ (if legacy_rpc_key_only (a_near_rpc_api_key a) (var ''NEAR_API_KEY'')
        then [(Warn, \<lparr>ll_message = ''NEAR_API_KEY is set but NEAR_RPC_API_KEY is not. ''
                 @ ''Only NEAR_RPC_API_KEY is read here '' @ em_dash @ '' rename it, or this run's RPC calls go out ''
                 @ ''unauthenticated and a rate-limited partial scan will look like a clean one.'',
               ll_fields = []\<rparr>)]
        else [])
     @ map (\<lambda>retired. (Warn, \<lparr>ll_message = ''No longer read: RedStone's public hosts stop serving on 2026-10-29. ''
                 @ ''Set REDSTONE_AUTHENTICATED_GATEWAYS instead (see docs/configuration.md)'',
               ll_fields = [(''var'', retired)]\<rparr>))
         (filter (\<lambda>retired. var retired \<noteq> None) RETIRED_REDSTONE_VARS)
     @ [if a_dry_run a
        then (Info, \<lparr>ll_message = ''DRY RUN MODE: Scanning only, no transactions will be executed'', ll_fields = []\<rparr>)
        else (Warn, \<lparr>ll_message = ''LIVE MODE: transactions WILL be submitted on-chain ''
                 @ ''(set DRY_RUN=true to simulate instead)'', ll_fields = []\<rparr>)]"

section \<open>Facts\<close>

text \<open>The count of iterations never underflows: a loop that ends healthy has completed one.\<close>

lemma resolve_line_total: "resolve_line P lq ev a ctx sent received \<noteq> Panic"
  by (cases ev) (auto simp: resolve_line_def)

text \<open>A line is written exactly when the loop ends after its first iteration on a healthy position or on its budget.\<close>

lemma resolve_line_silent_iff:
  "resolve_line P lq ev a ctx sent received = Ok None \<longleftrightarrow>
     ev \<noteq> MaxedOut \<and> (ev = EHealthy \<longrightarrow> cx_iteration ctx \<le> 1)"
  by (cases ev) (auto simp: resolve_line_def)

text \<open>A live run is announced as one, last and as a warning.\<close>

lemma live_mode_is_announced: "fst (last (log_startup var a)) = Warn \<longleftrightarrow> \<not> a_dry_run a"
  by (simp add: log_startup_def)


text \<open>
  A position the gate refuses never reads as one that met the requirement: unless the scaling saturates,
  the value shown is below the revenue shown as required.
\<close>

lemma refused_below_requirement:
  assumes "default_should_liquidate margin_bps (sat_mul n 10000 div (10000 + SAFETY_BUFFER_BPS)) revenue gas = Ok False"
    and "(n + gas) * (10000 + margin_bps) \<le> u128_max"
  shows "revenue < min_revenue_required margin_bps (sat_add n gas)"
proof -
  let ?n = "sat_mul n 10000 div (10000 + SAFETY_BUFFER_BPS)"
  have le: "?n + gas \<le> n + gas" by (simp add: sat_mul_def SAFETY_BUFFER_BPS_def)
  have small: "n + gas \<le> u128_max"
    using order_trans [OF mult_le_mono2 [of 1 "10000 + margin_bps" "n + gas"] assms(2)] by simp
  have scaled: "(?n + gas) * (10000 + margin_bps) \<le> (n + gas) * (10000 + margin_bps)"
    using le by (rule mult_le_mono1)
  have "revenue * 10000 < (?n + gas) * (10000 + margin_bps)"
    using assms le small scaled
    by (auto simp: default_should_liquidate_def sat_add_def checked_mul_def div_ceil_le_iff not_le Let_def
        split: if_splits)
  with scaled have "revenue * 10000 < (n + gas) * (10000 + margin_bps)" by linarith
  with small assms(2) show ?thesis
    using div_ceil_le_iff [of 10000 "(n + gas) * (10000 + margin_bps)" revenue]
    by (simp add: min_revenue_required_def sat_add_def sat_mul_def not_le [symmetric])
qed

text \<open>
  The converse does not hold: the gate is asked about the repayment without the safety buffer, the lines
  count it in. A liquidation can be accepted below the revenue a line would call required, and be shown as
  a loss.
\<close>

lemma accepted_below_requirement:
  "default_should_liquidate 0 (sat_mul 1005000 10000 div (10000 + SAFETY_BUFFER_BPS)) 1000000 0 = Ok True"
  "1000000 < min_revenue_required 0 (sat_add 1005000 0)"
  "signed_profit 1000000 (sat_add 1005000 0) = - 5000"
  by (simp_all add: default_should_liquidate_def checked_mul_def sat_add_def sat_mul_def SAFETY_BUFFER_BPS_def
      min_revenue_required_def div_ceil_def u128_max_def signed_profit_def to_i128_def i128_max_def Let_def)

end
