(* ===== verification/Task.thy ===== *)
theory Task
  imports Round
begin

text \<open>
  \<open>liquidate\<close> of src/liquidator.rs as a task: the same code cut where it awaits, so that several positions can
  be in flight at once. Between two awaits a task runs alone; at each await another task may run.

  A \<open>task\<close> is the point the future of a position is suspended at with the variables that live across it, and
  \<open>task_step\<close> is one resumption, built from the operations of the theories Liquidator and Executor. Run alone,
  a task does exactly what \<open>liquidate\<close> does (\<open>liquidate_as_task\<close>). One resumption is coarser than the source
  in one place: the attempts of a swap with their pauses are one step, since they touch nothing the tasks share.
\<close>

record task_vars =
  tv_iteration :: nat
  tv_pushed :: bool
  tv_total_liquidated :: nat
  tv_total_collateral :: nat
  tv_position :: borrow_position

datatype task =
    TCheck task_vars \<comment> \<open>about to read the status\<close>
  | TSize task_vars status_check \<comment> \<open>about to read the inventory and decide\<close>
  | TReserve task_vars liquidation_plan
  | TPush task_vars liquidation_plan settlement
  | TSubmit task_vars liquidation_plan settlement
  | TReceipts task_vars liquidation_plan reservation operation_result
  | TRelease reservation liquidator_error
  | TConsume task_vars liquidation_plan reservation
  | TSwap task_vars liquidation_plan
  | TRefresh task_vars liquidation_plan "swap_issue option"
  | TNotify task_vars liquidation_plan liquidation_outcome "swap_issue option"
  | TRefetch task_vars
  | TDone "(liquidator_error, liquidation_outcome) outcome"

section \<open>One resumption\<close>

text \<open>The top of the loop, with the overflow of the \<open>u32\<close> counter.\<close>

definition next_iteration :: "task_vars \<Rightarrow> task" where
  "next_iteration v =
     (if u32_max < tv_iteration v + 1 then TDone Panic else TCheck (v\<lparr>tv_iteration := tv_iteration v + 1\<rparr>))"

definition task_start :: "borrow_position \<Rightarrow> task" where
  "task_start position =
     next_iteration \<lparr>tv_iteration = 0, tv_pushed = False, tv_total_liquidated = 0, tv_total_collateral = 0,
                     tv_position = position\<rparr>"

text \<open>What follows the status read: sizing, pricing and the gate, on the inventory as it is now.\<close>

definition decide ::
    "('d, 'p) params \<Rightarrow> 'd liquidator \<Rightarrow> borrow_position \<Rightarrow> oracle_response \<Rightarrow> loop_ctx \<Rightarrow> status_check \<Rightarrow> world
     \<Rightarrow> (liquidator_error, evaluation) outcome" where
  "decide P lq position oracle ctx status w =
     (case status of
        SHealthy \<Rightarrow> Ok EHealthy
      | SMaintenanceRequired \<Rightarrow> Ok SkipTerminal
      | Liquidatable reason \<Rightarrow>
          if cx_max_iterations ctx < cx_iteration ctx then Ok MaxedOut
          else
          obind (size_position P lq position oracle w) (\<lambda>sizing.
          case sizing of
            InventoryBelowMinimum \<Rightarrow> Ok (Skip Unfunded)
          | Declined InsufficientInventory \<Rightarrow> Ok (Skip Unfunded)
          | Declined NotViable \<Rightarrow> Ok (Skip StrategyDeclined)
          | SizedOk sized \<Rightarrow>
              obind (assess_profitability P lq oracle sized) (\<lambda>assessed.
              case assessed of
                Plan plan \<Rightarrow> Ok (Proceed plan)
              | Unpriceable \<Rightarrow> Ok (Skip CUnpriceable)
              | AUnprofitable \<Rightarrow> Ok EUnprofitable)))"

text \<open>The submission with its guards; a live task that fails goes on to release its token.\<close>

definition submit ::
    "('d, 'p) params \<Rightarrow> 'd liquidator \<Rightarrow> account_id \<Rightarrow> task_vars \<Rightarrow> liquidation_plan \<Rightarrow> settlement \<Rightarrow> world
     \<Rightarrow> task \<times> world" where
  "submit P lq a v plan settle w =
     (let ex = lq_executor lq; n = pl_liquidation_amount plan; c = pl_collateral_amount plan;
          borrow = borrow_asset (lq_config lq) in
      case settle of
        DryRun \<Rightarrow>
          (if \<not> ex_dry_run ex then TDone (Err dry_settlement_error) else TNotify v plan Liquidated None, w)
      | Live r \<Rightarrow>
          if \<not> issued (w_inventory w) r then (TDone (Err foreign_token_error), w)
          else if ex_dry_run ex then (TRelease r live_settlement_error, w)
          else if \<not> covers r borrow n then (TRelease r (uncovered_error r borrow n), w)
          else
          (case e_liquidate (p_env P) (w_trace w) a n c of
             Inl e \<Rightarrow> TRelease r (LiquidationTransactionError (rpc_error_from_gateway e))
           | Inr operation \<Rightarrow>
               (case op_status operation of
                  OpOther failed_status \<Rightarrow> TRelease r (failed_status_error operation failed_status)
                | OpSucceeded \<Rightarrow> TReceipts v plan r operation),
           emit (EvLiquidate a n c) w))"

text \<open>The swap of the collateral, without the refresh that follows a success.\<close>

definition swap_part ::
    "('d, 'p) params \<Rightarrow> 'd liquidator \<Rightarrow> liquidation_plan \<Rightarrow> world \<Rightarrow> (bool \<times> swap_issue option) \<times> world" where
  "swap_part P lq plan w =
     (case ex_collateral_strategy (lq_executor lq) of
        Hold \<Rightarrow> ((False, None), w)
      | SwapToBorrow \<Rightarrow>
          swap_collateral_to_borrow (p_pow10 P) (p_env P) (lq_executor lq) (collateral_asset (lq_config lq))
            (borrow_asset (lq_config lq)) (pl_collateral_amount plan)
            (Some (borrow_units_to_usd (p_pow10 P) (pl_expected_collateral_value plan)
               (ex_borrow_decimals (lq_executor lq)))) w)"

text \<open>The end of an iteration: the report, the totals with their overflow, and whether to go on.\<close>

definition finish_iteration ::
    "('d, 'p) params \<Rightarrow> 'd liquidator \<Rightarrow> account_id \<Rightarrow> task_vars \<Rightarrow> liquidation_plan \<Rightarrow> liquidation_outcome
     \<Rightarrow> swap_issue option \<Rightarrow> world \<Rightarrow> task \<times> world" where
  "finish_iteration P lq a v plan oc issue w =
     (let total = tv_total_liquidated v + pl_liquidation_amount plan;
          collateral = tv_total_collateral v + pl_collateral_amount plan in
      (if u128_max < total \<or> u128_max < collateral then TDone Panic
       else if \<not> loop_enabled lq then TDone (Ok oc)
       else TRefetch (v\<lparr>tv_total_liquidated := total, tv_total_collateral := collateral\<rparr>),
       notify_execution P lq a plan oc issue (dry_run_mode lq) w))"

fun task_step ::
    "('d, 'p) params \<Rightarrow> 'd liquidator \<Rightarrow> oracle_response \<Rightarrow> account_id \<Rightarrow> task \<Rightarrow> world \<Rightarrow> task \<times> world" where
  "task_step P lq oracle a (TCheck v) w =
     (case check_status P lq a (tv_position v) oracle (ctx_of lq (tv_iteration v)) w of
        (Panic, w1) \<Rightarrow> (TDone Panic, w1)
      | (Err e, w1) \<Rightarrow> (TDone (Err e), w1)
      | (Ok status, w1) \<Rightarrow> (TSize v status, w1))"
| "task_step P lq oracle a (TSize v status) w =
     ((let ctx = ctx_of lq (tv_iteration v) in
       case decide P lq (tv_position v) oracle ctx status w of
         Panic \<Rightarrow> TDone Panic
       | Err e \<Rightarrow> TDone (Err e)
       | Ok ev \<Rightarrow> (case resolve_evaluation ev ctx of Inl oc \<Rightarrow> TDone (Ok oc) | Inr plan \<Rightarrow> TReserve v plan)), w)"
| "task_step P lq oracle a (TReserve v plan) w =
     (if dry_run_mode lq then (TPush v plan DryRun, w)
      else (case reserve (w_inventory w) (borrow_asset (lq_config lq)) (pl_liquidation_amount plan) of
              (Ok r, m) \<Rightarrow> (TPush v plan (Live r), w\<lparr>w_inventory := m\<rparr>)
            | (Err _, m) \<Rightarrow>
                (TDone (Ok (if 1 < tv_iteration v then Liquidated else SkippedUnfunded)), w\<lparr>w_inventory := m\<rparr>)
            | (Panic, m) \<Rightarrow> (TDone Panic, w\<lparr>w_inventory := m\<rparr>)))"
| "task_step P lq oracle a (TPush v plan settle) w =
     (if \<not> tv_pushed v \<and> \<not> dry_run_mode lq
      then (case push_prices P lq w of (pushed, w1) \<Rightarrow> (TSubmit (v\<lparr>tv_pushed := pushed\<rparr>) plan settle, w1))
      else (TSubmit v plan settle, w))"
| "task_step P lq oracle a (TSubmit v plan settle) w = submit P lq a v plan settle w"
| "task_step P lq oracle a (TReceipts v plan r operation) w =
     (case first_failed_receipt (p_env P) operation w of
        (Panic, w1) \<Rightarrow> (TDone Panic, w1)
      | (Err err, w1) \<Rightarrow> (TRelease r err, w1)
      | (Ok (Some failed_on), w1) \<Rightarrow> (TRelease r (failed_receipt_error operation failed_on), w1)
      | (Ok None, w1) \<Rightarrow> (TConsume v plan r, w1))"
| "task_step P lq oracle a (TRelease r err) w = (TDone (Err err), release_in r w)"
| "task_step P lq oracle a (TConsume v plan r) w = (TSwap v plan, consume_in r w)"
| "task_step P lq oracle a (TSwap v plan) w =
     (case swap_part P lq plan w of
        ((True, issue), w1) \<Rightarrow> (TRefresh v plan issue, w1)
      | ((False, issue), w1) \<Rightarrow> (TNotify v plan Liquidated issue, w1))"
| "task_step P lq oracle a (TRefresh v plan issue) w =
     (TNotify v plan Liquidated issue, refresh_asset_in (p_env P) (borrow_asset (lq_config lq)) w)"
| "task_step P lq oracle a (TNotify v plan oc issue) w = finish_iteration P lq a v plan oc issue w"
| "task_step P lq oracle a (TRefetch v) w =
     (case get_borrow_position (p_env P) a w of
        (Panic, w1) \<Rightarrow> (TDone Panic, w1)
      | (Ok (Some updated), w1) \<Rightarrow> (next_iteration (v\<lparr>tv_position := updated\<rparr>), w1)
      | (Ok None, w1) \<Rightarrow> (TDone (Ok Liquidated), w1)
      | (Err _, w1) \<Rightarrow> (TDone (Ok Liquidated), w1))"
| "task_step P lq oracle a (TDone res) w = (TDone res, w)"

fun finished :: "task \<Rightarrow> bool" where
  "finished (TDone _) = True"
| "finished _ = False"

section \<open>A task that runs alone\<close>

definition resumes ::
    "('d, 'p) params \<Rightarrow> 'd liquidator \<Rightarrow> oracle_response \<Rightarrow> account_id \<Rightarrow> task \<times> world \<Rightarrow> task \<times> world \<Rightarrow> bool" where
  "resumes P lq oracle a x y \<longleftrightarrow> \<not> finished (fst x) \<and> task_step P lq oracle a (fst x) (snd x) = y"

abbreviation runs ::
    "('d, 'p) params \<Rightarrow> 'd liquidator \<Rightarrow> oracle_response \<Rightarrow> account_id \<Rightarrow> task \<times> world \<Rightarrow> task \<times> world \<Rightarrow> bool" where
  "runs P lq oracle a \<equiv> (resumes P lq oracle a)\<^sup>*\<^sup>*"

lemma runs_step:
  assumes "task_step P lq oracle a t w = x" "runs P lq oracle a x z" "\<not> finished t"
  shows "runs P lq oracle a (t, w) z"
  by (rule converse_rtranclp_into_rtranclp [OF _ assms(2)]) (use assms in \<open>simp add: resumes_def\<close>)

lemma evaluate_position_split:
  "evaluate_position P lq a pos oracle ctx w =
     (case check_status P lq a pos oracle ctx w of
        (checked, w1) \<Rightarrow> (obind checked (\<lambda>status. decide P lq pos oracle ctx status w1), w1))"
  by (simp add: evaluate_position_def decide_def)

lemma runs_evaluation:
  assumes "evaluate_position P lq a (tv_position v) oracle (ctx_of lq (tv_iteration v)) w = (er, w1)"
    and "runs P lq oracle a
      (case er of
         Panic \<Rightarrow> TDone Panic
       | Err e \<Rightarrow> TDone (Err e)
       | Ok ev \<Rightarrow> (case resolve_evaluation ev (ctx_of lq (tv_iteration v)) of
                   Inl oc \<Rightarrow> TDone (Ok oc) | Inr plan \<Rightarrow> TReserve v plan), w1) z"
  shows "runs P lq oracle a (TCheck v, w) z"
proof -
  obtain checked where c: "check_status P lq a (tv_position v) oracle (ctx_of lq (tv_iteration v)) w = (checked, w1)"
      "er = obind checked (\<lambda>status. decide P lq (tv_position v) oracle (ctx_of lq (tv_iteration v)) status w1)"
    using assms(1) by (auto simp: evaluate_position_split split: prod.splits)
  show ?thesis
  proof (cases checked)
    case (Ok status)
    have "runs P lq oracle a (TSize v status, w1) z"
      by (rule runs_step [OF _ assms(2)]) (use c Ok in \<open>simp_all add: Let_def split: outcome.split\<close>)
    with c(1) Ok show ?thesis by (intro runs_step) simp_all
  qed (use c assms(2) in \<open>auto intro: runs_step\<close>)
qed

text \<open>What \<open>execute_plan\<close> returns, as the point its caller goes on from.\<close>

definition plan_end ::
    "task_vars \<Rightarrow> liquidation_plan \<Rightarrow> (liquidator_error, (liquidation_outcome \<times> swap_issue option) option) outcome
     \<Rightarrow> bool \<Rightarrow> task" where
  "plan_end v plan res pushed =
     (case res of
        Panic \<Rightarrow> TDone Panic
      | Err e \<Rightarrow> TDone (Err e)
      | Ok None \<Rightarrow> TDone (Ok (if 1 < tv_iteration v then Liquidated else SkippedUnfunded))
      | Ok (Some (oc, issue)) \<Rightarrow> TNotify (v\<lparr>tv_pushed := pushed\<rparr>) plan oc issue)"

lemma handle_collateral_split:
  "handle_collateral (p_pow10 P) (p_env P) (lq_executor lq) (borrow_asset (lq_config lq))
      (collateral_asset (lq_config lq)) (plan_request plan) w =
     (case swap_part P lq plan w of
        ((ok, issue), w1) \<Rightarrow> (issue, if ok then refresh_asset_in (p_env P) (borrow_asset (lq_config lq)) w1 else w1))"
  by (simp add: handle_collateral_def swap_part_def plan_request_def split: collateral_strategy.split prod.split)

lemma runs_swap:
  assumes "handle_collateral (p_pow10 P) (p_env P) (lq_executor lq) (borrow_asset (lq_config lq))
      (collateral_asset (lq_config lq)) (plan_request plan) w = (issue, w')"
  shows "runs P lq oracle a (TSwap v plan, w) (TNotify v plan Liquidated issue, w')"
proof -
  obtain ok w1 where sp: "swap_part P lq plan w = ((ok, issue), w1)"
      "w' = (if ok then refresh_asset_in (p_env P) (borrow_asset (lq_config lq)) w1 else w1)"
    using assms by (auto simp: handle_collateral_split split: prod.splits)
  show ?thesis
  proof (cases ok)
    case True
    have "runs P lq oracle a (TRefresh v plan issue, w1) (TNotify v plan Liquidated issue, w')"
      by (rule runs_step [OF _ rtranclp.rtrancl_refl]) (use sp True in simp_all)
    with sp True show ?thesis by (intro runs_step) simp_all
  next
    case False
    show ?thesis by (rule runs_step [OF _ rtranclp.rtrancl_refl]) (use sp False in simp_all)
  qed
qed

lemma runs_receipts:
  assumes "(case first_failed_receipt (p_env P) operation w of
      (Panic, w2) \<Rightarrow> (Panic, w2)
    | (Err err, w2) \<Rightarrow> (Err err, release_in r w2)
    | (Ok (Some failed_on), w2) \<Rightarrow> (Err (failed_receipt_error operation failed_on), release_in r w2)
    | (Ok None, w2) \<Rightarrow>
        let (issue, w3) = handle_collateral (p_pow10 P) (p_env P) (lq_executor lq) (borrow_asset (lq_config lq))
              (collateral_asset (lq_config lq)) (plan_request plan) (consume_in r w2)
        in (Ok (Liquidated, issue), w3)) = (res, w')"
  shows "runs P lq oracle a (TReceipts v plan r operation, w)
    (case res of Panic \<Rightarrow> TDone Panic | Err e \<Rightarrow> TDone (Err e) | Ok (oc, issue) \<Rightarrow> TNotify v plan oc issue, w')"
proof -
  obtain got w2 where rc: "first_failed_receipt (p_env P) operation w = (got, w2)" by fastforce
  have release: "runs P lq oracle a (TRelease r e, w2) (TDone (Err e), release_in r w2)" for e
    by (rule runs_step [OF _ rtranclp.rtrancl_refl]) simp_all
  show ?thesis
  proof (cases got)
    case (Ok failed)
    show ?thesis
    proof (cases failed)
      case None
      obtain issue where h: "handle_collateral (p_pow10 P) (p_env P) (lq_executor lq) (borrow_asset (lq_config lq))
          (collateral_asset (lq_config lq)) (plan_request plan) (consume_in r w2) = (issue, w')"
          "res = Ok (Liquidated, issue)"
        using assms rc Ok None by (auto split: prod.splits)
      have "runs P lq oracle a (TConsume v plan r, w2) (TNotify v plan Liquidated issue, w')"
        by (rule runs_step [OF _ runs_swap [OF h(1)]]) simp_all
      with rc Ok None h(2) show ?thesis by (intro runs_step) simp_all
    next
      case (Some failed_on)
      with assms rc Ok release show ?thesis by (intro runs_step) auto
    qed
  next
    case (Err e)
    with assms rc release show ?thesis by (intro runs_step) auto
  next
    case Panic
    with assms rc show ?thesis by (intro runs_step) auto
  qed
qed

lemma plan_request_simps [simp]:
  "liquidation_amount (plan_request plan) = pl_liquidation_amount plan"
  "collateral_amount (plan_request plan) = pl_collateral_amount plan"
  "expected_collateral_value (plan_request plan) = pl_expected_collateral_value plan"
  by (simp_all add: plan_request_def)

lemma runs_submit:
  assumes "execute_liquidation (p_pow10 P) (p_env P) (lq_executor lq) a (borrow_asset (lq_config lq))
      (collateral_asset (lq_config lq)) (plan_request plan) settle w = (res, w')"
  shows "runs P lq oracle a (TSubmit v plan settle, w)
    (case res of Panic \<Rightarrow> TDone Panic | Err e \<Rightarrow> TDone (Err e) | Ok (oc, issue) \<Rightarrow> TNotify v plan oc issue, w')"
proof (cases settle)
  case DryRun
  show ?thesis
    by (rule runs_step [OF _ rtranclp.rtrancl_refl])
       (use assms DryRun in \<open>auto simp: execute_dry_run submit_def Let_def split: if_splits\<close>)
next
  case (Live r)
  let ?ex = "lq_executor lq" and ?n = "pl_liquidation_amount plan" and ?c = "pl_collateral_amount plan"
  let ?b = "borrow_asset (lq_config lq)"
  let ?w1 = "emit (EvLiquidate a ?n ?c) w"
  have release: "runs P lq oracle a (TRelease r e, u) (TDone (Err e), release_in r u)" for e u
    by (rule runs_step [OF _ rtranclp.rtrancl_refl]) simp_all
  note defs = execute_liquidation_def submit_def Let_def
  consider (foreign) "\<not> issued (w_inventory w) r"
    | (dry) "issued (w_inventory w) r" "ex_dry_run ?ex"
    | (uncovered) "issued (w_inventory w) r" "\<not> ex_dry_run ?ex" "\<not> covers r ?b ?n"
    | (sent) "issued (w_inventory w) r" "\<not> ex_dry_run ?ex" "covers r ?b ?n" by blast
  then show ?thesis
  proof cases
    case foreign
    show ?thesis
      by (rule runs_step [OF _ rtranclp.rtrancl_refl]) (use assms Live foreign in \<open>auto simp: defs\<close>)
  next
    case dry
    have "res = Err live_settlement_error" "w' = release_in r w" using assms Live dry by (simp_all add: defs)
    then show ?thesis
      using release [of "live_settlement_error" w] Live dry by (intro runs_step) (simp_all add: defs)
  next
    case uncovered
    have "res = Err (uncovered_error r ?b ?n)" "w' = release_in r w" using assms Live uncovered by (simp_all add: defs)
    then show ?thesis
      using release [of "uncovered_error r ?b ?n" w] Live uncovered by (intro runs_step) (simp_all add: defs)
  next
    case sent
    show ?thesis
    proof (cases "e_liquidate (p_env P) (w_trace w) a ?n ?c")
      case (Inl e)
      have "res = Err (LiquidationTransactionError (rpc_error_from_gateway e))" "w' = release_in r ?w1"
        using assms Live sent Inl by (simp_all add: defs)
      then show ?thesis
        using release [of "LiquidationTransactionError (rpc_error_from_gateway e)" ?w1] Live sent Inl
        by (intro runs_step) (simp_all add: defs)
    next
      case (Inr operation)
      show ?thesis
      proof (cases "op_status operation")
        case (OpOther st)
        have "res = Err (failed_status_error operation st)" "w' = release_in r ?w1"
          using assms Live sent Inr OpOther by (simp_all add: defs)
        then show ?thesis
          using release [of "failed_status_error operation st" ?w1] Live sent Inr OpOther
          by (intro runs_step) (simp_all add: defs)
      next
        case OpSucceeded
        have "runs P lq oracle a (TReceipts v plan r operation, ?w1)
            (case res of Panic \<Rightarrow> TDone Panic | Err e \<Rightarrow> TDone (Err e) | Ok (oc, issue) \<Rightarrow> TNotify v plan oc issue, w')"
          by (rule runs_receipts) (use assms Live sent Inr OpSucceeded in \<open>simp add: execute_liquidation_def\<close>)
        then show ?thesis
          by (rule runs_step [rotated]) (use Live sent Inr OpSucceeded in \<open>simp_all add: defs\<close>)
      qed
    qed
  qed
qed

lemma runs_plan:
  assumes "execute_plan P lq a plan (tv_pushed v) w = (res, pushed', w')"
  shows "runs P lq oracle a (TReserve v plan, w) (plan_end v plan res pushed', w')"
proof -
  let ?b = "borrow_asset (lq_config lq)"
  have live: "runs P lq oracle a (TPush v plan settle, w1) (plan_end v plan res pushed', w')"
    if x: "(let (pushed'', w2) = (if \<not> tv_pushed v \<and> \<not> dry_run_mode lq then push_prices P lq w1 else (tv_pushed v, w1));
              (xr, w3) = execute_liquidation (p_pow10 P) (p_env P) (lq_executor lq) a ?b
                            (collateral_asset (lq_config lq)) (plan_request plan) settle w2 in
          (obind xr (\<lambda>x. Ok (Some x)), pushed'', w3)) = (res, pushed', w')" for settle w1
  proof -
    obtain p2 w2 xr where e: "(if \<not> tv_pushed v \<and> \<not> dry_run_mode lq then push_prices P lq w1 else (tv_pushed v, w1)) = (p2, w2)"
        "execute_liquidation (p_pow10 P) (p_env P) (lq_executor lq) a ?b (collateral_asset (lq_config lq))
           (plan_request plan) settle w2 = (xr, w')"
        "res = obind xr (\<lambda>x. Ok (Some x))" "pushed' = p2"
      using x by (auto split: prod.splits)
    have "runs P lq oracle a (TSubmit (v\<lparr>tv_pushed := p2\<rparr>) plan settle, w2) (plan_end v plan res pushed', w')"
      using runs_submit [OF e(2), of "oracle" "v\<lparr>tv_pushed := p2\<rparr>"] e(3,4)
      by (cases xr) (auto simp: plan_end_def)
    moreover have "task_step P lq oracle a (TPush v plan settle) w1 = (TSubmit (v\<lparr>tv_pushed := p2\<rparr>) plan settle, w2)"
      using e(1) by (auto split: prod.splits if_splits)
    ultimately show ?thesis by (intro runs_step) simp_all
  qed
  show ?thesis
  proof (cases "dry_run_mode lq")
    case True
    with assms show ?thesis
      by (intro runs_step [OF _ live]) (simp_all add: execute_plan_def dry_run_mode_def)
  next
    case False
    obtain rv m where rv: "reserve (w_inventory w) ?b (pl_liquidation_amount plan) = (rv, m)" by fastforce
    show ?thesis
    proof (cases rv)
      case (Ok r)
      with assms False rv show ?thesis
        by (intro runs_step [OF _ live]) (simp_all add: execute_plan_def dry_run_mode_def)
    next
      case (Err e)
      with assms False rv show ?thesis
        by (intro runs_step [OF _ rtranclp.rtrancl_refl])
           (auto simp: execute_plan_def dry_run_mode_def Let_def plan_end_def)
    next
      case Panic
      with rv show ?thesis by simp
    qed
  qed
qed

lemma runs_after_plan:
  assumes "after_plan P lq a oracle i tn tc plan xr p2 w2 = (res, w')"
    and "tv_iteration v = Suc i" "tv_total_liquidated v = tn" "tv_total_collateral v = tc"
    and IH: "\<And>updated tn1 tc1 w4.
      liquidate_loop P lq a oracle (Suc i) p2 tn1 tc1 updated w4 = (res, w') \<Longrightarrow>
      runs P lq oracle a
        (next_iteration \<lparr>tv_iteration = Suc i, tv_pushed = p2, tv_total_liquidated = tn1, tv_total_collateral = tc1,
           tv_position = updated\<rparr>, w4) (TDone res, w')"
  shows "runs P lq oracle a (plan_end v plan xr p2, w2) (TDone res, w')"
proof -
  have again: "runs P lq oracle a (TNotify (v\<lparr>tv_pushed := p2\<rparr>) plan oc issue, w2) (TDone res, w')"
    if x: "xr = Ok (Some (oc, issue))" for oc issue
  proof -
    let ?w3 = "notify_execution P lq a plan oc issue (dry_run_mode lq) w2"
    let ?v = "v\<lparr>tv_pushed := p2, tv_total_liquidated := tn + pl_liquidation_amount plan,
                tv_total_collateral := tc + pl_collateral_amount plan\<rparr>"
    note run = assms(1) [unfolded after_plan_def x, simplified, unfolded Let_def]
    show ?thesis
    proof (cases "(u128_max < tn + pl_liquidation_amount plan \<or> u128_max < tc + pl_collateral_amount plan) \<or> \<not> loop_enabled lq")
      case True
      show ?thesis
        by (rule runs_step [OF _ rtranclp.rtrancl_refl])
           (use run assms(2-4) True in \<open>auto simp: finish_iteration_def Let_def split: if_splits\<close>)
    next
      case False
      obtain got w4 where got: "get_borrow_position (p_env P) a ?w3 = (got, w4)" by fastforce
      have "runs P lq oracle a (TRefetch ?v, ?w3) (TDone res, w')"
      proof (cases "\<exists>updated. got = Ok (Some updated)")
        case True
        then obtain updated where u: "got = Ok (Some updated)" ..
        with run False got have "liquidate_loop P lq a oracle (Suc i) p2 (tn + pl_liquidation_amount plan)
            (tc + pl_collateral_amount plan) updated w4 = (res, w')" by simp
        moreover have "?v\<lparr>tv_position := updated\<rparr> = \<lparr>tv_iteration = Suc i, tv_pushed = p2,
            tv_total_liquidated = tn + pl_liquidation_amount plan,
            tv_total_collateral = tc + pl_collateral_amount plan, tv_position = updated\<rparr>"
          using assms(2) by (cases v) simp
        ultimately have "runs P lq oracle a (next_iteration (?v\<lparr>tv_position := updated\<rparr>), w4) (TDone res, w')"
          using IH by metis
        then show ?thesis by (rule runs_step [rotated]) (use got u in simp_all)
      next
        case no: False
        show ?thesis
          by (rule runs_step [OF _ rtranclp.rtrancl_refl])
             (use run False got no in \<open>auto split: outcome.splits option.splits\<close>)
      qed
      then show ?thesis
        by (rule runs_step [rotated]) (use False assms(2-4) in \<open>simp_all add: finish_iteration_def Let_def\<close>)
    qed
  qed
  show ?thesis
  proof (cases "\<exists>oc issue. xr = Ok (Some (oc, issue))")
    case True
    with again show ?thesis by (auto simp: plan_end_def)
  next
    case False
    with assms(1,2) have "plan_end v plan xr p2 = TDone res \<and> w' = w2"
      by (auto simp: after_plan_def plan_end_def split: outcome.splits option.splits)
    then show ?thesis by simp
  qed
qed

lemma runs_loop:
  assumes "liquidate_loop P lq a oracle i pushed tn tc pos w = (res, w')"
  shows "runs P lq oracle a
    (next_iteration \<lparr>tv_iteration = i, tv_pushed = pushed, tv_total_liquidated = tn, tv_total_collateral = tc,
       tv_position = pos\<rparr>, w) (TDone res, w')"
  using assms
proof (induction "Suc (max_iterations lq) - i" arbitrary: i pushed tn tc pos w res w' rule: less_induct)
  case less
  let ?ctx = "ctx_of lq (Suc i)"
  let ?v = "\<lparr>tv_iteration = Suc i, tv_pushed = pushed, tv_total_liquidated = tn, tv_total_collateral = tc, tv_position = pos\<rparr>"
  note step = less.prems [unfolded liquidate_loop.simps [of P lq a "oracle" i pushed tn tc pos w] Let_def]
  show ?case
  proof (cases "u32_max < i + 1")
    case True
    with step show ?thesis by (simp add: next_iteration_def)
  next
    case budget: False
    obtain er w1 where ev: "evaluate_position P lq a pos oracle ?ctx w = (er, w1)" by fastforce
    have "runs P lq oracle a
        (case er of Panic \<Rightarrow> TDone Panic | Err e \<Rightarrow> TDone (Err e)
         | Ok ev \<Rightarrow> (case resolve_evaluation ev ?ctx of Inl oc \<Rightarrow> TDone (Ok oc) | Inr plan \<Rightarrow> TReserve ?v plan), w1)
        (TDone res, w')"
    proof (cases "\<exists>plan. er = Ok (Proceed plan)")
      case True
      then obtain plan where plan: "er = Ok (Proceed plan)" ..
      obtain xr p2 w2 where xe: "execute_plan P lq a plan pushed w1 = (xr, p2, w2)" using prod_cases3 by blast
      have le: "i < max_iterations lq" using proceed_within_budget [OF ev [unfolded plan]] by (simp add: ctx_of_def)
      have after: "after_plan P lq a oracle i tn tc plan xr p2 w2 = (res, w')"
        using liquidate_loop_planned [of P lq a pos "oracle" i w plan w1 pushed xr p2 w2 tn tc] ev plan budget xe less.prems
        by simp
      have "runs P lq oracle a (TReserve ?v plan, w1) (plan_end ?v plan xr p2, w2)"
        by (rule runs_plan) (use xe in simp)
      also have "runs P lq oracle a (plan_end ?v plan xr p2, w2) (TDone res, w')"
        by (rule runs_after_plan [OF after]) (use less.hyps le in auto)
      finally show ?thesis using plan by (simp add: resolve_evaluation_def)
    next
      case False
      have "w' = w1 \<and> (case er of Panic \<Rightarrow> TDone Panic | Err e \<Rightarrow> TDone (Err e)
         | Ok ev \<Rightarrow> (case resolve_evaluation ev ?ctx of Inl oc \<Rightarrow> TDone (Ok oc) | Inr plan \<Rightarrow> TReserve ?v plan)) = TDone res"
        using step ev budget False by (auto split: outcome.splits sum.splits)
      then show ?thesis by simp
    qed
    then have "runs P lq oracle a (TCheck ?v, w) (TDone res, w')"
      using runs_evaluation [of P lq a ?v "oracle" w er w1] ev unfolding task_vars.select_convs by blast
    with budget show ?thesis by (simp add: next_iteration_def)
  qed
qed

text \<open>Run alone, a task is a call of \<open>liquidate\<close>.\<close>

theorem liquidate_as_task:
  assumes "liquidate P lq a position oracle w = (res, w')"
  shows "runs P lq oracle a (task_start position, w) (TDone res, w')"
  using runs_loop [OF assms [unfolded liquidate_def]] by (simp add: task_start_def)

end
