(* ===== verification/Concurrent.thy ===== *)
theory Concurrent
  imports Task
begin

text \<open>
  The round of src/liquidator.rs at any \<open>POSITION_CONCURRENCY\<close>: \<open>buffer_unordered\<close> over the tasks of the
  theory Task. A state holds the candidates not yet pulled, the tasks in flight and the tally; a step pulls a
  candidate, ends the stream on shutdown, resumes one task, or takes a result. Which one is left open, so a
  run of the relation is one schedule of the executor and the theorems hold for all of them.

  A panic aborts the process (Cargo.toml), so no step follows one.
\<close>

section \<open>The round\<close>

record round_state =
  rd_world :: world
  rd_next :: nat \<comment> \<open>the index of the next candidate\<close>
  rd_waiting :: borrow_positions
  rd_running :: "(nat \<times> account_id \<times> task) list"
  rd_tally :: round_tally

definition round_init :: "borrow_positions \<Rightarrow> round_tally \<Rightarrow> world \<Rightarrow> round_state" where
  "round_init candidates t w =
     \<lparr>rd_world = w, rd_next = 0, rd_waiting = candidates, rd_running = [], rd_tally = t\<rparr>"

definition crashed :: "round_state \<Rightarrow> bool" where
  "crashed s = list_ex (\<lambda>(k, a, t). t = TDone Panic) (rd_running s)"

definition round_over :: "round_state \<Rightarrow> bool" where
  "round_over s \<longleftrightarrow> rd_waiting s = [] \<and> rd_running s = []"

text \<open>The pause of the sequential mode, after every position but the last.\<close>

definition pace :: "env \<Rightarrow> nat \<Rightarrow> nat \<Rightarrow> nat \<Rightarrow> world \<Rightarrow> world" where
  "pace E concurrency n_all k w =
     (if concurrency = 1 \<and> k + 1 < n_all \<and> \<not> e_shutdown E (w_trace w) then emit (EvPause 1000) w else w)"

inductive round_step ::
    "('d, 'p) params \<Rightarrow> 'd liquidator \<Rightarrow> oracle_response \<Rightarrow> nat \<Rightarrow> nat \<Rightarrow> round_state \<Rightarrow> round_state \<Rightarrow> bool"
  for Q lq resp concurrency n_all where
  pull: "\<not> crashed s \<Longrightarrow> rd_waiting s = (a, position) # rest \<Longrightarrow> length (rd_running s) < concurrency \<Longrightarrow>
    \<not> e_shutdown (p_env Q) (w_trace (rd_world s)) \<Longrightarrow>
    round_step Q lq resp concurrency n_all s
      (s\<lparr>rd_waiting := rest, rd_next := rd_next s + 1,
         rd_running := rd_running s @ [(rd_next s, a, task_start position)]\<rparr>)"
| stop: "\<not> crashed s \<Longrightarrow> rd_waiting s \<noteq> [] \<Longrightarrow> length (rd_running s) < concurrency \<Longrightarrow>
    e_shutdown (p_env Q) (w_trace (rd_world s)) \<Longrightarrow>
    round_step Q lq resp concurrency n_all s (s\<lparr>rd_waiting := []\<rparr>)"
| resume: "\<not> crashed s \<Longrightarrow> rd_running s = xs @ (k, a, t) # ys \<Longrightarrow> \<not> finished t \<Longrightarrow>
    task_step Q lq resp a t (rd_world s) = (t', w') \<Longrightarrow>
    round_step Q lq resp concurrency n_all s (s\<lparr>rd_running := xs @ (k, a, t') # ys, rd_world := w'\<rparr>)"
| yield_result: "\<not> crashed s \<Longrightarrow> rd_running s = xs @ (k, a, TDone res) # ys \<Longrightarrow>
    round_step Q lq resp concurrency n_all s
      (s\<lparr>rd_running := xs @ ys, rd_tally := tally_count res (rd_tally s),
         rd_world := tally_notify lq a res (pace (p_env Q) concurrency n_all k (rd_world s))\<rparr>)"

inductive_cases round_stepE: "round_step Q lq resp concurrency n_all s s'"

abbreviation round_reaches ::
    "('d, 'p) params \<Rightarrow> 'd liquidator \<Rightarrow> oracle_response \<Rightarrow> nat \<Rightarrow> nat \<Rightarrow> round_state \<Rightarrow> round_state \<Rightarrow> bool" where
  "round_reaches P lq oracle concurrency n_all \<equiv> (round_step P lq oracle concurrency n_all)\<^sup>*\<^sup>*"

section \<open>What a task holds and says\<close>

text \<open>The reservation a task carries from its grant to its settlement.\<close>

fun task_tokens :: "task \<Rightarrow> reservation multiset" where
  "task_tokens (TPush v plan (Live r)) = {#r#}"
| "task_tokens (TSubmit v plan (Live r)) = {#r#}"
| "task_tokens (TReceipts v plan r operation) = {#r#}"
| "task_tokens (TRelease r err) = {#r#}"
| "task_tokens (TConsume v plan r) = {#r#}"
| "task_tokens _ = {#}"

definition round_tokens :: "round_state \<Rightarrow> reservation multiset" where
  "round_tokens s = sum_list (map (\<lambda>(k, a, t). task_tokens t) (rd_running s))"

text \<open>A task in flight carries a token exactly when it is live, and the token covers its plan.\<close>

fun task_ok :: "'d liquidator \<Rightarrow> task \<Rightarrow> bool" where
  "task_ok lq (TPush v plan (Live r)) =
     (\<not> dry_run_mode lq \<and> covers r (borrow_asset (lq_config lq)) (pl_liquidation_amount plan))"
| "task_ok lq (TPush v plan DryRun) = dry_run_mode lq"
| "task_ok lq (TSubmit v plan (Live r)) =
     (\<not> dry_run_mode lq \<and> covers r (borrow_asset (lq_config lq)) (pl_liquidation_amount plan))"
| "task_ok lq (TSubmit v plan DryRun) = dry_run_mode lq"
| "task_ok lq (TReceipts v plan r operation) = (\<not> dry_run_mode lq)"
| "task_ok lq (TRelease r err) = (\<not> dry_run_mode lq)"
| "task_ok lq (TConsume v plan r) = (\<not> dry_run_mode lq)"
| "task_ok lq (TSwap v plan) = (\<not> dry_run_mode lq)"
| "task_ok lq (TRefresh v plan issue) = (\<not> dry_run_mode lq)"
| "task_ok lq _ = True"

text \<open>
  Since the market was last asked about \<open>a\<close>, and called it liquidatable, nothing was submitted against \<open>a\<close>;
  what other tasks read and submit in between does not matter.
\<close>

fun fresh_for :: "env \<Rightarrow> account_id \<Rightarrow> oracle_response \<Rightarrow> event list \<Rightarrow> bool" where
  "fresh_for E a oracle [] = False"
| "fresh_for E a oracle (EvStatusRead b # tr) =
     (if b = a then (case e_borrow_status E tr a oracle of Inr (Some (Liquidation _)) \<Rightarrow> True | _ \<Rightarrow> False)
      else fresh_for E a oracle tr)"
| "fresh_for E a oracle (EvLiquidate b n c # tr) = (b \<noteq> a \<and> fresh_for E a oracle tr)"
| "fresh_for E a oracle (ev # tr) = fresh_for E a oracle tr"

primrec confirmed_for :: "env \<Rightarrow> account_id set \<Rightarrow> oracle_response \<Rightarrow> event list \<Rightarrow> event list \<Rightarrow> bool" where
  "confirmed_for E A oracle [] old = True"
| "confirmed_for E A oracle (ev # new) old =
     (confirmed_for E A oracle new old \<and>
      (case ev of EvLiquidate b n c \<Rightarrow> b \<in> A \<and> fresh_for E b oracle (new @ old) | _ \<Rightarrow> True))"

fun decided :: "task \<Rightarrow> bool" where
  "decided (TSize v (Liquidatable reason)) = True"
| "decided (TReserve v plan) = True"
| "decided (TPush v plan settle) = True"
| "decided (TSubmit v plan settle) = True"
| "decided _ = False"

fun concerns :: "account_id \<Rightarrow> event \<Rightarrow> bool" where
  "concerns a (EvStatusRead b) = (b = a)"
| "concerns a (EvLiquidate b n c) = (b = a)"
| "concerns a _ = False"

section \<open>Lemmas: traces\<close>

lemma confirmed_for_append [simp]:
  "confirmed_for E A oracle (xs @ ys) old \<longleftrightarrow> confirmed_for E A oracle ys old \<and> confirmed_for E A oracle xs (ys @ old)"
  by (induction xs) (auto split: event.splits)

lemma confirmed_for_quiet: "submitted new = [] \<Longrightarrow> confirmed_for E A oracle new old"
  by (induction new) (auto split: event.splits if_splits)

lemma fresh_for_skip: "\<forall>ev \<in> set new. \<not> concerns a ev \<Longrightarrow> fresh_for E a oracle (new @ old) = fresh_for E a oracle old"
proof (induction new)
  case (Cons ev new)
  then show ?case by (cases ev) auto
qed simp

text \<open>The sequential notion is the stronger one.\<close>

lemma fresh_fresh_for: "fresh E a oracle tr \<Longrightarrow> fresh_for E a oracle tr"
  by (induction E a "oracle" tr rule: fresh.induct) auto

section \<open>Lemmas: one resumption\<close>

definition silent :: "event list \<Rightarrow> bool" where
  "silent new \<longleftrightarrow> (\<forall>ev \<in> set new. \<forall>b. \<not> concerns b ev)"

lemma silent_simps [simp]:
  "silent []" "silent (ev # new) \<longleftrightarrow> (\<forall>b. \<not> concerns b ev) \<and> silent new"
  "silent (xs @ ys) \<longleftrightarrow> silent xs \<and> silent ys"
  by (auto simp: silent_def)

lemma silent_submitted: "silent new \<Longrightarrow> submitted new = []"
  by (induction new) (auto split: event.splits)

lemma silent_fresh: "silent new \<Longrightarrow> fresh_for E a oracle (new @ old) = fresh_for E a oracle old"
  by (rule fresh_for_skip) (auto simp: silent_def)

lemma swap_part_world:
  assumes "swap_part P lq plan w = ((ok, issue), w')"
  shows "w_inventory w' = w_inventory w \<and> (\<exists>new. extends w w' new \<and> silent new)"
proof (cases "ex_collateral_strategy (lq_executor lq)")
  case Hold
  with assms show ?thesis by (auto simp: swap_part_def extends_def intro!: exI [of _ "[]"])
next
  case SwapToBorrow
  have "silent new" if "only_swaps new" for new
    using that by (induction new) (auto simp: only_swaps_def)
  with SwapToBorrow assms show ?thesis
    by (auto simp: swap_part_def dest!: swap_collateral_world)
qed

lemma notify_execution_silent: "\<exists>new. extends w (notify_execution P lq a plan oc issue dry w) new \<and> silent new"
  by (auto simp: notify_execution_def Let_def extends_def split: option.split)

lemma first_failed_receipt_silent:
  "first_failed_receipt E operation w = (r, w') \<Longrightarrow>
     w_inventory w' = w_inventory w \<and> (\<exists>new. extends w w' new \<and> silent new)"
  by (auto simp: first_failed_receipt_def extends_def split: option.splits sum.splits)

text \<open>What a resumption adds to the trace: the status read, the transaction, or nothing about an account.\<close>

lemma task_step_trace:
  assumes "task_step P lq oracle a t w = (t', w')"
  obtains (silent) new where "extends w w' new" "silent new"
  | (reads) v where "t = TCheck v" "extends w w' [EvStatusRead a]"
  | (sends) v plan r where "t = TSubmit v plan (Live r)"
      "extends w w' [EvLiquidate a (pl_liquidation_amount plan) (pl_collateral_amount plan)]"
      "\<not> dry_run_mode lq" "covers r (borrow_asset (lq_config lq)) (pl_liquidation_amount plan)"
proof (cases t)
  case (TCheck v)
  then show thesis using assms reads by (auto simp: extends_def dest: check_status_world split: prod.splits outcome.splits)
next
  case (TSize v status)
  with assms silent [of "[]"] show thesis by simp
next
  case (TReserve v plan)
  with assms have "extends w w' []" by (auto simp: extends_def split: if_splits prod.splits outcome.splits)
  then show thesis by (rule silent) simp
next
  case (TPush v plan settle)
  show thesis
  proof (cases "\<not> tv_pushed v \<and> \<not> dry_run_mode lq")
    case True
    with TPush assms show thesis
      using push_prices_effect [of P lq w] by (auto split: prod.splits intro!: silent)
  next
    case False
    with TPush assms silent [of "[]"] show thesis by (auto simp: extends_def split: if_splits)
  qed
next
  case (TSubmit v plan settle)
  show thesis
  proof (cases "\<exists>r. settle = Live r \<and> issued (w_inventory w) r \<and> \<not> ex_dry_run (lq_executor lq)
      \<and> covers r (borrow_asset (lq_config lq)) (pl_liquidation_amount plan)")
    case True
    then obtain r where r: "settle = Live r" "issued (w_inventory w) r" "\<not> ex_dry_run (lq_executor lq)"
      "covers r (borrow_asset (lq_config lq)) (pl_liquidation_amount plan)" by blast
    with TSubmit assms show thesis
      by (intro sends [of v plan r]) (auto simp: submit_def Let_def dry_run_mode_def extends_def)
  next
    case False
    with TSubmit assms have "extends w w' []"
      by (auto simp: submit_def Let_def extends_def split: settlement.splits if_splits)
    then show thesis by (rule silent) simp
  qed
next
  case (TReceipts v plan r operation)
  obtain got w2 where rc: "first_failed_receipt (p_env P) operation w = (got, w2)" by fastforce
  with TReceipts assms have "w' = w2" by (auto split: outcome.splits option.splits)
  with first_failed_receipt_silent [OF rc] silent show thesis by blast
next
  case (TSwap v plan)
  obtain ok issue w2 where sp: "swap_part P lq plan w = ((ok, issue), w2)" by (metis prod.exhaust)
  with TSwap assms have "w' = w2" by (cases ok) auto
  with swap_part_world [OF sp] silent show thesis by blast
next
  case (TRefresh v plan issue)
  with assms have "extends w w' [EvBalanceRead (borrow_asset (lq_config lq))]" by (auto simp: extends_def)
  then show thesis by (rule silent) simp
next
  case (TNotify v plan oc issue)
  with assms have "w' = notify_execution P lq a plan oc issue (dry_run_mode lq) w"
    by (simp add: finish_iteration_def Let_def)
  with notify_execution_silent silent show thesis by blast
next
  case (TRefetch v)
  obtain got w2 where gp: "get_borrow_position (p_env P) a w = (got, w2)" by fastforce
  with TRefetch assms have "w' = w2" by (auto split: outcome.splits option.splits)
  with get_borrow_position_world [OF gp] have "extends w w' [EvPositionRead a]" by (simp add: extends_def)
  then show thesis by (rule silent) simp
qed (use assms silent [of "[]"] in \<open>auto simp: extends_def\<close>)

text \<open>
  The inventory after a resumption: a reservation was granted to this task, settled by it, a balance was
  refreshed, or nothing changed.
\<close>

lemma task_step_inventory:
  assumes "task_step P lq oracle a t w = (t', w')" "\<not> finished t" "task_ok lq t"
    and own: "\<forall>r \<in># task_tokens t. issued (w_inventory w) r"
  obtains (same) "w_inventory w' = w_inventory w" "task_tokens t' = task_tokens t" "task_ok lq t'"
  | (granted) n r where "reserve (w_inventory w) (borrow_asset (lq_config lq)) n = (Ok r, w_inventory w')"
      "\<not> dry_run_mode lq" "task_tokens t = {#}" "task_tokens t' = {#r#}" "task_ok lq t'"
  | (released) r where "w_inventory w' = release (w_inventory w) r"
      "\<not> dry_run_mode lq" "task_tokens t = {#r#}" "task_tokens t' = {#}" "task_ok lq t'"
  | (consumed) r where "w_inventory w' = consume (w_inventory w) r"
      "\<not> dry_run_mode lq" "task_tokens t = {#r#}" "task_tokens t' = {#}" "task_ok lq t'"
  | (refreshed) tr where "w_inventory w' =
        snd (refresh_asset (e_now (p_env P) tr) (e_balance (p_env P) tr) (borrow_asset (lq_config lq)) (w_inventory w))"
      "\<not> dry_run_mode lq" "task_tokens t = {#}" "task_tokens t' = {#}" "task_ok lq t'"
proof (cases t)
  case (TCheck v)
  with assms(1) show thesis
    by (intro same) (auto dest: check_status_world split: prod.splits outcome.splits)
next
  case (TSize v status)
  with assms(1) show thesis by (intro same) (auto simp: Let_def split: outcome.splits sum.splits)
next
  case (TReserve v plan)
  show thesis
  proof (cases "dry_run_mode lq")
    case True
    with TReserve assms(1) show thesis by (intro same) auto
  next
    case False
    obtain rv m where rv: "reserve (w_inventory w) (borrow_asset (lq_config lq)) (pl_liquidation_amount plan) = (rv, m)"
      by fastforce
    show thesis
    proof (cases rv)
      case (Ok r)
      with TReserve False rv assms(1) ledger.reserve_token [OF rv [unfolded Ok]] show thesis
        by (intro granted [of "pl_liquidation_amount plan" r]) auto
    next
      case (Err e)
      with TReserve False rv assms(1) show thesis by (intro same) (auto dest: reserve_Err)
    qed (use rv in simp)
  qed
next
  case (TPush v plan settle)
  with assms(1,3) push_prices_effect show thesis
    by (intro same; cases settle) (fastforce split: if_splits prod.splits)+
next
  case (TSubmit v plan settle)
  show thesis
  proof (cases settle)
    case DryRun
    with TSubmit assms(1,3) show thesis
      by (intro same) (auto simp: submit_def Let_def dry_run_mode_def)
  next
    case (Live r)
    with TSubmit assms(3) own have "issued (w_inventory w) r" "\<not> ex_dry_run (lq_executor lq)"
      "covers r (borrow_asset (lq_config lq)) (pl_liquidation_amount plan)" by (auto simp: dry_run_mode_def)
    with TSubmit Live assms(1) show thesis
      by (intro same)
         (auto simp: submit_def Let_def dry_run_mode_def split: sum.splits operation_status.splits)
  qed
next
  case (TReceipts v plan r operation)
  obtain got w2 where rc: "first_failed_receipt (p_env P) operation w = (got, w2)" by fastforce
  note rw = first_failed_receipt_world [OF rc]
  with TReceipts rc assms(1,3) show thesis
    by (intro same) (auto split: outcome.splits option.splits)
next
  case (TRelease r err)
  with assms(1,3) show thesis by (intro released [of r]) auto
next
  case (TConsume v plan r)
  with assms(1,3) show thesis by (intro consumed [of r]) auto
next
  case (TSwap v plan)
  obtain ok issue w2 where sp: "swap_part P lq plan w = ((ok, issue), w2)" by (metis prod.exhaust)
  with swap_part_world [OF sp] TSwap assms(1,3) show thesis by (intro same; cases ok) auto
next
  case (TRefresh v plan issue)
  with assms(1,3) show thesis by (intro refreshed [of "w_trace w"]) auto
next
  case (TNotify v plan oc issue)
  with assms(1) show thesis
    by (intro same) (auto simp: finish_iteration_def Let_def notify_execution_world(1))
next
  case (TRefetch v)
  obtain got w2 where gp: "get_borrow_position (p_env P) a w = (got, w2)" by fastforce
  with get_borrow_position_world [OF gp] TRefetch assms(1) show thesis
    by (intro same) (auto simp: next_iteration_def split: outcome.splits option.splits)
qed (use assms(2) in simp)

lemma task_step_ledger:
  assumes "task_step P lq oracle a t w = (t', w')" "\<not> finished t" "task_ok lq t" "env_ok (p_env P)"
    and inv: "ledger_inv (w_inventory w, T + task_tokens t)"
  shows "ledger_inv (w_inventory w', T + task_tokens t') \<and> task_ok lq t'"
proof -
  have "\<forall>r \<in># task_tokens t. issued (w_inventory w) r" using inv by (auto simp: ledger_inv_def)
  with assms(1-3) show ?thesis
  proof (cases rule: task_step_inventory)
    case same
    with inv show ?thesis by simp
  next
    case (granted n r)
    with ledger_inv_reserve [OF inv] show ?thesis by (metis add_mset_add_single add.right_neutral)
  next
    case (released r)
    with ledger_inv_settle(1) [OF inv, of r] show ?thesis by simp
  next
    case (consumed r)
    with ledger_inv_settle(2) [OF inv, of r] show ?thesis by simp
  next
    case (refreshed tr)
    have "ledger_inv (w_inventory w', T + task_tokens t)"
      by (rule ledger_inv_frame [OF inv])
         (use refreshed(1) inv assms(4) in
           \<open>auto simp: ledger_views refresh_asset_balance ledger_inv_def env_ok_def split: sum.splits\<close>)
    with refreshed show ?thesis by simp
  qed
qed

lemma decide_Proceed:
  assumes "decide P lq position oracle ctx status w = Ok ev" "resolve_evaluation ev ctx = Inr plan"
  shows "\<exists>reason. status = Liquidatable reason" "cx_iteration ctx \<le> cx_max_iterations ctx"
  using assms by (auto simp: decide_def split: status_check.splits if_splits)

lemma task_step_decided:
  assumes "task_step P lq oracle a t w = (t', w')" "\<not> finished t"
    and "decided t \<Longrightarrow> fresh_for (p_env P) a oracle (w_trace w)" "decided t'"
  shows "fresh_for (p_env P) a oracle (w_trace w')"
proof (cases t)
  case (TCheck v)
  obtain checked w2 where c: "check_status P lq a (tv_position v) oracle (ctx_of lq (tv_iteration v)) w = (checked, w2)"
    by fastforce
  with TCheck assms(1,4) obtain reason where r: "checked = Ok (Liquidatable reason)" "w' = w2"
    by (auto split: outcome.splits elim: decided.elims)
  with check_status_liquidatable [OF c [unfolded r(1)]] check_status_world [OF c] show ?thesis by simp
next
  case (TSize v status)
  let ?d = "decide P lq (tv_position v) oracle (ctx_of lq (tv_iteration v)) status w"
  have w': "w' = w" using TSize assms(1) by simp
  obtain ev where ev: "?d = Ok ev" using TSize assms(1,4) by (cases ?d) (auto simp: Let_def)
  obtain plan where "resolve_evaluation ev (ctx_of lq (tv_iteration v)) = Inr plan"
    using TSize assms(1,4) ev by (cases "resolve_evaluation ev (ctx_of lq (tv_iteration v))") (auto simp: Let_def)
  from decide_Proceed(1) [OF ev this] obtain reason where "status = Liquidatable reason" ..
  with assms(3) TSize w' show ?thesis by simp
next
  case (TReserve v plan)
  with assms have "w_trace w' = w_trace w" by (auto split: if_splits prod.splits outcome.splits)
  with TReserve assms(3) show ?thesis by simp
next
  case (TPush v plan settle)
  from assms(1) show ?thesis
    by (cases rule: task_step_trace) (use TPush assms(3) in \<open>auto simp: extends_def silent_fresh\<close>)
next
  case (TSubmit v plan settle)
  with assms(1,4) show ?thesis
    by (auto simp: submit_def Let_def split: settlement.splits if_splits sum.splits operation_status.splits)
next
  case (TReceipts v plan r operation)
  with assms(1,4) show ?thesis by (auto split: prod.splits outcome.splits option.splits)
next
  case (TSwap v plan)
  with assms(1,4) show ?thesis by (auto split: prod.splits bool.splits)
next
  case (TNotify v plan oc issue)
  with assms(1,4) show ?thesis by (auto simp: finish_iteration_def Let_def split: if_splits)
next
  case (TRefetch v)
  with assms(1,4) show ?thesis
    by (auto simp: next_iteration_def split: prod.splits outcome.splits option.splits if_splits)
qed (use assms in auto)

text \<open>A dry run only reads and reports.\<close>

lemma task_step_dry:
  assumes "task_step P lq oracle a t w = (t', w')" "\<not> finished t" "task_ok lq t" "dry_run_mode lq"
  shows "w_inventory w' = w_inventory w \<and> (\<exists>new. extends w w' new \<and> money new = [])"
proof (cases t)
  case (TCheck v)
  with assms(1) have "w_inventory w' = w_inventory w" "extends w w' [EvStatusRead a]"
    by (auto simp: extends_def dest: check_status_world split: prod.splits outcome.splits)
  then show ?thesis by (auto simp: is_money_event_def intro!: exI [of _ "[EvStatusRead a]"])
next
  case (TSubmit v plan settle)
  with assms have "w' = w" by (cases settle) (auto simp: submit_def Let_def dry_run_mode_def)
  then show ?thesis by (auto intro!: exI [of _ "[]"])
next
  case (TNotify v plan oc issue)
  with assms(1) have "w' = notify_execution P lq a plan oc issue (dry_run_mode lq) w"
    by (simp add: finish_iteration_def Let_def)
  with notify_execution_world show ?thesis by blast
next
  case (TRefetch v)
  obtain got w2 where gp: "get_borrow_position (p_env P) a w = (got, w2)" by fastforce
  with TRefetch assms(1) have "w' = w2" by (auto split: outcome.splits option.splits)
  with get_borrow_position_world [OF gp] show ?thesis
    by (auto simp: extends_def is_money_event_def intro!: exI [of _ "[EvPositionRead a]"])
qed (use assms in \<open>auto simp: extends_def intro!: exI [of _ "[]"]\<close>)

section \<open>Lemmas: how long a task runs\<close>

fun task_vars_of :: "task \<Rightarrow> task_vars option" where
  "task_vars_of (TReserve v plan) = Some v"
| "task_vars_of (TPush v plan settle) = Some v"
| "task_vars_of (TSubmit v plan settle) = Some v"
| "task_vars_of (TReceipts v plan r operation) = Some v"
| "task_vars_of (TConsume v plan r) = Some v"
| "task_vars_of (TSwap v plan) = Some v"
| "task_vars_of (TRefresh v plan issue) = Some v"
| "task_vars_of (TNotify v plan oc issue) = Some v"
| "task_vars_of (TRefetch v) = Some v"
| "task_vars_of _ = None"

text \<open>Past its decision a task is within its iteration budget; before it, at most one beyond.\<close>

fun in_budget :: "'d liquidator \<Rightarrow> task \<Rightarrow> bool" where
  "in_budget lq (TCheck v) = (tv_iteration v \<le> max_iterations lq + 1)"
| "in_budget lq (TSize v status) = (tv_iteration v \<le> max_iterations lq + 1)"
| "in_budget lq t = (case task_vars_of t of None \<Rightarrow> True | Some v \<Rightarrow> tv_iteration v \<le> max_iterations lq)"

fun task_rank :: "task \<Rightarrow> nat" where
  "task_rank (TCheck v) = 12"
| "task_rank (TSize v status) = 11"
| "task_rank (TReserve v plan) = 10"
| "task_rank (TPush v plan settle) = 9"
| "task_rank (TSubmit v plan settle) = 8"
| "task_rank (TReceipts v plan r operation) = 7"
| "task_rank (TConsume v plan r) = 6"
| "task_rank (TSwap v plan) = 5"
| "task_rank (TRefresh v plan issue) = 4"
| "task_rank (TNotify v plan oc issue) = 3"
| "task_rank (TRefetch v) = 2"
| "task_rank (TRelease r err) = 1"
| "task_rank (TDone res) = 0"

fun task_left :: "'d liquidator \<Rightarrow> task \<Rightarrow> nat" where
  "task_left lq (TCheck v) = (max_iterations lq + 1 - tv_iteration v) * 12 + 12"
| "task_left lq (TSize v status) = (max_iterations lq + 1 - tv_iteration v) * 12 + 11"
| "task_left lq t =
     (case task_vars_of t of None \<Rightarrow> task_rank t
      | Some v \<Rightarrow> (max_iterations lq + 1 - tv_iteration v) * 12 + task_rank t)"

lemma next_iteration_left:
  assumes "tv_iteration v \<le> max_iterations lq"
  shows "in_budget lq (next_iteration v) \<and>
    task_left lq (next_iteration v) \<le> (max_iterations lq - tv_iteration v) * 12 + 12"
  using assms by (auto simp: next_iteration_def)

lemma task_step_left:
  assumes "task_step P lq oracle a t w = (t', w')" "\<not> finished t" "in_budget lq t"
  shows "in_budget lq t' \<and> task_left lq t' < task_left lq t"
proof (cases t)
  case (TSize v status)
  show ?thesis
  proof (cases "\<exists>plan. t' = TReserve v plan")
    case True
    then obtain plan where t': "t' = TReserve v plan" ..
    with TSize assms(1) obtain ev where "decide P lq (tv_position v) oracle (ctx_of lq (tv_iteration v)) status w = Ok ev"
        "resolve_evaluation ev (ctx_of lq (tv_iteration v)) = Inr plan"
      by (auto simp: Let_def split: outcome.splits sum.splits)
    from decide_Proceed(2) [OF this] TSize t' show ?thesis by (simp add: ctx_of_def)
  next
    case False
    with TSize assms(1) show ?thesis by (auto simp: Let_def split: outcome.splits sum.splits)
  qed
next
  case (TSubmit v plan settle)
  with assms show ?thesis
    by (auto simp: submit_def Let_def split: settlement.splits if_splits sum.splits operation_status.splits)
next
  case (TRefetch v)
  then have le: "tv_iteration v \<le> max_iterations lq" using assms(3) by simp
  consider "\<exists>res. t' = TDone res" | updated where "t' = next_iteration (v\<lparr>tv_position := updated\<rparr>)"
    using TRefetch assms(1) by (auto split: prod.splits outcome.splits option.splits)
  then show ?thesis
  proof cases
    case 1
    with TRefetch show ?thesis by auto
  next
    case 2
    with next_iteration_left [of "v\<lparr>tv_position := updated\<rparr>" lq] le TRefetch show ?thesis by (simp add: Suc_diff_le)
  qed
qed (use assms in \<open>auto simp: finish_iteration_def Let_def split: prod.splits outcome.splits option.splits if_splits bool.splits\<close>)

section \<open>Lemmas: the invariant of the round\<close>

definition tokens_of :: "(nat \<times> account_id \<times> task) list \<Rightarrow> reservation multiset" where
  "tokens_of running = sum_list (map (\<lambda>(k, a, t). task_tokens t) running)"

lemma tokens_of_simps [simp]:
  "tokens_of [] = {#}" "tokens_of ((k, a, t) # running) = task_tokens t + tokens_of running"
  "tokens_of (xs @ ys) = tokens_of xs + tokens_of ys"
  by (simp_all add: tokens_of_def)

lemma round_tokens_eq: "round_tokens s = tokens_of (rd_running s)"
  by (simp add: round_tokens_def tokens_of_def)

definition accounts_of :: "round_state \<Rightarrow> account_id list" where
  "accounts_of s = map (\<lambda>(k, a, t). a) (rd_running s) @ map fst (rd_waiting s)"

definition task_inv :: "('d, 'p) params \<Rightarrow> 'd liquidator \<Rightarrow> oracle_response \<Rightarrow> world \<Rightarrow> nat \<times> account_id \<times> task \<Rightarrow> bool" where
  "task_inv P lq oracle w = (\<lambda>(k, a, t). task_ok lq t \<and> in_budget lq t
     \<and> (decided t \<longrightarrow> fresh_for (p_env P) a oracle (w_trace w)))"

definition round_trace_ok ::
    "('d, 'p) params \<Rightarrow> 'd liquidator \<Rightarrow> oracle_response \<Rightarrow> account_id set \<Rightarrow> world \<Rightarrow> world \<Rightarrow> bool" where
  "round_trace_ok P lq oracle A w0 w \<longleftrightarrow>
     (\<exists>new. extends w0 w new \<and> confirmed_for (p_env P) A oracle new (w_trace w0)
        \<and> (dry_run_mode lq \<longrightarrow> money new = [] \<and> w_inventory w = w_inventory w0))"

definition round_inv ::
    "('d, 'p) params \<Rightarrow> 'd liquidator \<Rightarrow> oracle_response \<Rightarrow> nat \<Rightarrow> account_id set \<Rightarrow> world
     \<Rightarrow> reservation multiset \<Rightarrow> round_state \<Rightarrow> bool" where
  "round_inv P lq oracle concurrency A w0 T s \<longleftrightarrow>
     ledger_inv (w_inventory (rd_world s), T + round_tokens s)
     \<and> list_all (task_inv P lq oracle (rd_world s)) (rd_running s)
     \<and> length (rd_running s) \<le> concurrency
     \<and> distinct (accounts_of s) \<and> set (accounts_of s) \<subseteq> A
     \<and> round_trace_ok P lq oracle A w0 (rd_world s)"

lemma task_inv_mono:
  assumes "task_inv P lq oracle w (k, a, t)" "extends w w' new" "\<forall>ev \<in> set new. \<not> concerns a ev"
  shows "task_inv P lq oracle w' (k, a, t)"
  using assms by (auto simp: task_inv_def extends_def fresh_for_skip)

lemma task_invs_mono:
  assumes "list_all (task_inv P lq oracle w) running" "extends w w' new"
    and "\<And>k a t. (k, a, t) \<in> set running \<Longrightarrow> \<forall>ev \<in> set new. \<not> concerns a ev"
  shows "list_all (task_inv P lq oracle w') running"
  using assms task_inv_mono by (fastforce simp: list_all_iff)

lemma round_trace_step:
  assumes "round_trace_ok P lq oracle A w0 w" "extends w w' new" "confirmed_for (p_env P) A oracle new (w_trace w)"
    and "dry_run_mode lq \<Longrightarrow> money new = [] \<and> w_inventory w' = w_inventory w"
  shows "round_trace_ok P lq oracle A w0 w'"
proof -
  obtain old where old: "extends w0 w old" "confirmed_for (p_env P) A oracle old (w_trace w0)"
    "dry_run_mode lq \<longrightarrow> money old = [] \<and> w_inventory w = w_inventory w0"
    using assms(1) by (auto simp: round_trace_ok_def)
  then show ?thesis
    unfolding round_trace_ok_def
    by (intro exI [of _ "new @ old"]) (use assms in \<open>auto simp: extends_def\<close>)
qed

lemma yield_world:
  "\<exists>new. extends w (tally_notify lq a res (pace E concurrency n_all k w)) new \<and> silent new \<and> money new = []"
  "w_inventory (tally_notify lq a res (pace E concurrency n_all k w)) = w_inventory w"
  by (auto simp: tally_notify_def pace_def extends_def is_money_event_def split: outcome.split liquidation_outcome.split)

lemma task_inv_start:
  "task_inv P lq oracle w (k, a, task_start position)"
  by (simp add: task_inv_def task_start_def next_iteration_def)

lemma task_tokens_start [simp]: "task_tokens (task_start position) = {#}"
  by (simp add: task_start_def next_iteration_def)

text \<open>One resumption inside the round.\<close>

lemma round_inv_resume:
  assumes inv: "round_inv P lq oracle concurrency A w0 T s" and env: "env_ok (p_env P)"
    and run: "rd_running s = xs @ (k, a, t) # ys" and go: "\<not> finished t"
    and step: "task_step P lq oracle a t (rd_world s) = (t', w')"
  shows "round_inv P lq oracle concurrency A w0 T (s\<lparr>rd_running := xs @ (k, a, t') # ys, rd_world := w'\<rparr>)"
proof -
  let ?w = "rd_world s"
  have ti: "task_ok lq t" "in_budget lq t" "decided t \<Longrightarrow> fresh_for (p_env P) a oracle (w_trace ?w)"
    and others: "list_all (task_inv P lq oracle ?w) (xs @ ys)"
    using inv run by (auto simp: round_inv_def task_inv_def)
  have accounts: "distinct (accounts_of s)" "set (accounts_of s) \<subseteq> A" using inv by (simp_all add: round_inv_def)
  then have a: "a \<in> A" using run by (simp add: accounts_of_def)
  have other: "b \<noteq> a" if "(j, b, u) \<in> set (xs @ ys)" for j b u
  proof -
    have "b \<in> (\<lambda>(k, a, t). a) ` set (xs @ ys)" using that by force
    moreover have "a \<notin> (\<lambda>(k, a, t). a) ` set (xs @ ys)" using accounts(1) run by (simp add: accounts_of_def image_Un)
    ultimately show ?thesis by blast
  qed
  have "ledger_inv (w_inventory ?w, (T + tokens_of xs + tokens_of ys) + task_tokens t)"
    using inv run by (simp add: round_inv_def round_tokens_eq ac_simps)
  from task_step_ledger [OF step go ti(1) env this]
  have led: "ledger_inv (w_inventory w', T + (tokens_of xs + (task_tokens t' + tokens_of ys)))" "task_ok lq t'"
    by (simp_all add: ac_simps)
  have new: "\<exists>new. extends ?w w' new \<and> (\<forall>ev \<in> set new. \<forall>b. b \<noteq> a \<longrightarrow> \<not> concerns b ev)
      \<and> confirmed_for (p_env P) A oracle new (w_trace ?w)"
    using step
  proof (cases rule: task_step_trace)
    case (silent new)
    with silent_submitted show ?thesis by (auto simp: silent_def confirmed_for_quiet)
  next
    case (reads v)
    then show ?thesis by (intro exI [of _ "[EvStatusRead a]"]) simp
  next
    case (sends v plan r)
    then show ?thesis
      using a ti(3)
      by (intro exI [of _ "[EvLiquidate a (pl_liquidation_amount plan) (pl_collateral_amount plan)]"]) simp
  qed
  then obtain new where new: "extends ?w w' new" "\<forall>ev \<in> set new. \<forall>b. b \<noteq> a \<longrightarrow> \<not> concerns b ev"
    "confirmed_for (p_env P) A oracle new (w_trace ?w)" by blast
  have dry: "money new = [] \<and> w_inventory w' = w_inventory ?w" if "dry_run_mode lq"
    using task_step_dry [OF step go ti(1) that] new(1) by (auto simp: extends_def)
  have "list_all (task_inv P lq oracle w') (xs @ ys)"
    by (rule task_invs_mono [OF others new(1)]) (use new(2) other in blast)
  moreover have "task_inv P lq oracle w' (k, a, t')"
    using led(2) task_step_left [OF step go ti(2)] task_step_decided [OF step go ti(3)] by (simp add: task_inv_def)
  moreover have "round_trace_ok P lq oracle A w0 w'"
    using round_trace_step [OF _ new(1,3) dry] inv by (simp add: round_inv_def)
  ultimately show ?thesis
    using inv run led(1) by (simp add: round_inv_def round_tokens_eq accounts_of_def)
qed

lemma round_inv_step:
  assumes "round_step P lq oracle concurrency n_all s s'" "round_inv P lq oracle concurrency A w0 T s"
    and "env_ok (p_env P)"
  shows "round_inv P lq oracle concurrency A w0 T s'"
  using assms(1)
proof cases
  case (pull a position rest)
  with assms(2) task_inv_start show ?thesis
    by (auto simp: round_inv_def round_tokens_eq accounts_of_def)
next
  case stop
  with assms(2) show ?thesis by (auto simp: round_inv_def round_tokens_eq accounts_of_def)
next
  case (resume xs k a t ys t' w')
  with round_inv_resume [OF assms(2,3)] show ?thesis by simp
next
  case (yield_result xs k a res ys)
  let ?w' = "tally_notify lq a res (pace (p_env P) concurrency n_all k (rd_world s))"
  obtain new where new: "extends (rd_world s) ?w' new" "silent new" "money new = []" using yield_world(1) by blast
  have "list_all (task_inv P lq oracle ?w') (xs @ ys)"
    by (rule task_invs_mono [OF _ new(1)]) (use assms(2) yield_result new(2) in \<open>auto simp: round_inv_def silent_def\<close>)
  moreover have "round_trace_ok P lq oracle A w0 ?w'"
    by (rule round_trace_step [OF _ new(1)])
       (use assms(2) new silent_submitted yield_world(2) in \<open>auto simp: round_inv_def confirmed_for_quiet\<close>)
  moreover have "w_inventory ?w' = w_inventory (rd_world s)" by (rule yield_world(2))
  moreover have "distinct (map (\<lambda>(k, a, t). a) (xs @ ys) @ map fst (rd_waiting s))
      \<and> set (map (\<lambda>(k, a, t). a) (xs @ ys) @ map fst (rd_waiting s)) \<subseteq> A"
    using assms(2) yield_result by (auto simp: round_inv_def accounts_of_def)
  ultimately show ?thesis
    using assms(2) yield_result by (simp add: round_inv_def round_tokens_eq accounts_of_def)
qed

lemma round_inv_init:
  assumes "ledger_inv (w_inventory w, T)" "distinct (map fst candidates)"
  shows "round_inv P lq oracle concurrency (set (map fst candidates)) w T (round_init candidates t w)"
  using assms
  by (auto simp: round_inv_def round_init_def round_tokens_eq accounts_of_def round_trace_ok_def intro!: exI [of _ "[]"])

lemma round_reaches_inv:
  assumes "round_reaches P lq oracle concurrency n_all (round_init candidates t w) s"
    and "env_ok (p_env P)" "ledger_inv (w_inventory w, T)" "distinct (map fst candidates)"
  shows "round_inv P lq oracle concurrency (set (map fst candidates)) w T s"
  using assms(1)
proof (induction rule: rtranclp_induct)
  case base
  show ?case by (rule round_inv_init [OF assms(3,4)])
next
  case (step s s')
  from round_inv_step [OF step.hyps(2) step.IH assms(2)] show ?case .
qed

end
