(* ===== verification/Schedule.thy ===== *)
theory Schedule
  imports Concurrent
begin

text \<open>
  The schedules of a concurrent round: each of them ends within a bound that only depends on the number of
  candidates and the iteration budget, none gets stuck, every position that was started is counted once, and
  at concurrency 1 there is one schedule, the sequential round of the theory Round.
\<close>

section \<open>Lemmas: every schedule ends\<close>

text \<open>The resumptions a task can need, and what is left of a round.\<close>

definition task_cost :: "'d liquidator \<Rightarrow> nat" where
  "task_cost lq = 12 * (max_iterations lq + 1)"

definition round_left :: "'d liquidator \<Rightarrow> round_state \<Rightarrow> nat" where
  "round_left lq s =
     length (rd_waiting s) * (task_cost lq + 2) + sum_list (map (\<lambda>(k, a, t). task_left lq t + 1) (rd_running s))"

definition budgets_ok :: "'d liquidator \<Rightarrow> round_state \<Rightarrow> bool" where
  "budgets_ok lq s \<longleftrightarrow> list_all (\<lambda>(k, a, t). in_budget lq t) (rd_running s)"

lemma task_start_left: "in_budget lq (task_start position) \<and> task_left lq (task_start position) \<le> task_cost lq"
  by (simp add: task_start_def next_iteration_def task_cost_def)

lemma round_step_left:
  assumes "round_step P lq oracle concurrency n_all s s'" "budgets_ok lq s"
  shows "budgets_ok lq s' \<and> round_left lq s' < round_left lq s"
  using assms(1)
proof cases
  case (pull a position rest)
  with assms(2) task_start_left [of lq position] show ?thesis by (auto simp: budgets_ok_def round_left_def)
next
  case stop
  with assms(2) show ?thesis by (auto simp: budgets_ok_def round_left_def neq_Nil_conv)
next
  case (resume xs k a t ys t' w')
  then have "in_budget lq t" using assms(2) by (simp add: budgets_ok_def)
  with task_step_left resume have "in_budget lq t' \<and> task_left lq t' < task_left lq t" by metis
  with resume assms(2) show ?thesis by (simp add: budgets_ok_def round_left_def)
next
  case (yield_result xs k a res ys)
  with assms(2) show ?thesis by (simp add: budgets_ok_def round_left_def)
qed

lemma round_steps_left:
  assumes "(round_step P lq oracle concurrency n_all ^^ n) s s'" "budgets_ok lq s"
  shows "n + round_left lq s' \<le> round_left lq s"
  using assms
proof (induction n arbitrary: s)
  case (Suc n)
  then obtain s1 where s1: "round_step P lq oracle concurrency n_all s s1"
    "(round_step P lq oracle concurrency n_all ^^ n) s1 s'" using relpowp_Suc_D2 by metis
  from round_step_left [OF s1(1) Suc.prems(2)] Suc.IH [OF s1(2)] show ?case by simp
qed simp

lemma round_progress:
  assumes "0 < concurrency" "\<not> crashed s" "\<not> round_over s"
  shows "\<exists>s'. round_step P lq oracle concurrency n_all s s'"
proof (cases "rd_running s")
  case Nil
  with assms(3) obtain a position rest where "rd_waiting s = (a, position) # rest"
    by (auto simp: round_over_def neq_Nil_conv)
  with Nil assms(1) show ?thesis
    using round_step.pull [OF assms(2), of a position rest concurrency P lq "oracle" n_all]
      round_step.stop [OF assms(2), of concurrency P lq "oracle" n_all]
    by (cases "e_shutdown (p_env P) (w_trace (rd_world s))") (simp, blast)+
next
  case (Cons x ys)
  obtain k a t where x: "x = (k, a, t)" by (cases x)
  show ?thesis
  proof (cases "finished t")
    case True
    then obtain res where "t = TDone res" by (cases t) auto
    with Cons x assms(2) show ?thesis using round_step.yield_result [of s "[]" k a res ys P lq "oracle" concurrency n_all] by auto
  next
    case False
    obtain t' w' where "task_step P lq oracle a t (rd_world s) = (t', w')" by fastforce
    with Cons x False assms(2) show ?thesis using round_step.resume [of s "[]" k a t ys P lq "oracle" t' w' concurrency n_all] by auto
  qed
qed

section \<open>Lemmas: the sequential round\<close>

lemma append_single: "xs @ x # ys = [y] \<longleftrightarrow> xs = [] \<and> ys = [] \<and> x = y"
  by (cases xs) auto

text \<open>At concurrency 1 there is one schedule.\<close>

lemma round_step_det:
  assumes "round_step P lq oracle 1 n_all s s1" "round_step P lq oracle 1 n_all s s2" "length (rd_running s) \<le> 1"
  shows "s1 = s2"
  using assms(1)
proof cases
  case (pull a position rest)
  with assms(2) show ?thesis by (auto elim: round_step.cases)
next
  case stop
  with assms(2) show ?thesis by (auto elim: round_step.cases)
next
  case (resume xs k a t ys t' w')
  then have "rd_running s = [(k, a, t)]" "xs = []" "ys = []" using assms(3) by auto
  with assms(2) resume show ?thesis by (auto elim!: round_step.cases simp: append_single)
next
  case (yield_result xs k a res ys)
  then have "rd_running s = [(k, a, TDone res)]" "xs = []" "ys = []" using assms(3) by auto
  with assms(2) yield_result show ?thesis by (auto elim!: round_step.cases simp: append_single)
qed

lemma round_step_length:
  "round_step P lq oracle concurrency n_all s s' \<Longrightarrow> length (rd_running s) \<le> concurrency \<Longrightarrow>
     length (rd_running s') \<le> concurrency"
  by (auto elim: round_step.cases)

text \<open>Two completed runs of a deterministic relation are the same.\<close>

lemma round_runs_meet:
  assumes "round_reaches P lq oracle 1 n_all s s1" "round_reaches P lq oracle 1 n_all s s2"
    and "length (rd_running s) \<le> 1"
    and "\<nexists>u. round_step P lq oracle 1 n_all s1 u" "\<nexists>u. round_step P lq oracle 1 n_all s2 u"
  shows "s1 = s2"
  using assms
proof (induction rule: converse_rtranclp_induct)
  case base
  then show ?case by (auto elim: converse_rtranclpE)
next
  case (step s u)
  from step.prems(1) show ?case
  proof (cases rule: converse_rtranclpE)
    case base
    with step.hyps(1) step.prems(4) show ?thesis by blast
  next
    case (step v)
    with round_step_det [OF step.hyps(1) step(1) step.prems(2)] step.IH step.prems
      round_step_length [OF step.hyps(1)] show ?thesis by blast
  qed
qed

lemma round_over_ends: "round_over s \<Longrightarrow> \<nexists>u. round_step P lq oracle concurrency n_all s u"
  by (auto simp: round_over_def elim: round_step.cases)

lemma crashed_ends: "crashed s \<Longrightarrow> \<nexists>u. round_step P lq oracle concurrency n_all s u"
  by (auto elim: round_step.cases)

text \<open>A task that runs alone in the round, from its pull to its result.\<close>

lemma round_runs_task:
  assumes "runs P lq oracle a (t, w) x"
  shows "round_reaches P lq oracle concurrency n_all (s\<lparr>rd_running := [(k, a, t)], rd_world := w\<rparr>)
    (s\<lparr>rd_running := [(k, a, fst x)], rd_world := snd x\<rparr>)"
  using assms
proof (induction rule: rtranclp_induct)
  case (step y z)
  let ?s = "\<lambda>x. s\<lparr>rd_running := [(k, a, fst x)], rd_world := snd x\<rparr>"
  have "\<not> crashed (?s y)" using step.hyps(2) by (auto simp: crashed_def resumes_def)
  then have "round_step P lq oracle concurrency n_all (?s y)
      (?s y\<lparr>rd_running := [] @ (k, a, fst z) # [], rd_world := snd z\<rparr>)"
    by (rule round_step.resume [where xs = "[]" and ys = "[]" and t = "fst y"]) (use step.hyps(2) in \<open>auto simp: resumes_def\<close>)
  with step.IH show ?case by (simp add: rtranclp.rtrancl_into_rtrancl)
qed simp

lemma round_runs_position:
  assumes "\<not> e_shutdown (p_env P) (w_trace w)" "liquidate P lq a position oracle w = (res, w1)"
  shows "round_reaches P lq oracle 1 n_all
    \<lparr>rd_world = w, rd_next = k, rd_waiting = (a, position) # rest, rd_running = [], rd_tally = t\<rparr>
    \<lparr>rd_world = w1, rd_next = k + 1, rd_waiting = rest, rd_running = [(k, a, TDone res)], rd_tally = t\<rparr>"
proof -
  let ?s = "\<lparr>rd_world = w, rd_next = k, rd_waiting = (a, position) # rest, rd_running = [], rd_tally = t\<rparr>"
  have "round_step P lq oracle 1 n_all ?s (?s\<lparr>rd_waiting := rest, rd_next := rd_next ?s + 1,
      rd_running := rd_running ?s @ [(rd_next ?s, a, task_start position)]\<rparr>)"
    by (rule round_step.pull) (use assms(1) in \<open>simp_all add: crashed_def\<close>)
  moreover have "round_reaches P lq oracle 1 n_all
      (?s\<lparr>rd_waiting := rest, rd_next := k + 1, rd_running := [(k, a, task_start position)], rd_world := w\<rparr>)
      (?s\<lparr>rd_waiting := rest, rd_next := k + 1, rd_running := [(k, a, TDone res)], rd_world := w1\<rparr>)"
    using round_runs_task [OF liquidate_as_task [OF assms(2)], where concurrency = 1 and n_all = n_all and k = k
        and s = "?s\<lparr>rd_waiting := rest, rd_next := k + 1\<rparr>"] by simp
  ultimately show ?thesis by (auto intro: converse_rtranclp_into_rtranclp)
qed

lemma process_positions_no_error: "process_positions P lq oracle candidates t w \<noteq> (Err e, w')"
proof (induction candidates arbitrary: t w)
  case (Cons c rest)
  obtain a position where c: "c = (a, position)" by fastforce
  obtain res w1 where "liquidate P lq a position oracle w = (res, w1)" by fastforce
  with Cons.IH c show ?case by (cases res) (simp_all add: Let_def)
qed simp

text \<open>The sequential round is a schedule, up to its end or its crash.\<close>

lemma round_runs_sequentially:
  assumes "process_positions P lq oracle candidates t w = (r, w')" "k + length candidates = n_all"
  shows "\<exists>s. round_reaches P lq oracle 1 n_all
      \<lparr>rd_world = w, rd_next = k, rd_waiting = candidates, rd_running = [], rd_tally = t\<rparr> s
    \<and> (case r of Ok t' \<Rightarrow> round_over s \<and> rd_tally s = t' \<and> rd_world s = w' | _ \<Rightarrow> crashed s \<and> rd_world s = w')"
  using assms
proof (induction candidates arbitrary: t w k)
  case Nil
  then show ?case by (auto simp: round_over_def)
next
  case (Cons c rest)
  obtain a position where c: "c = (a, position)" by fastforce
  let ?s = "\<lparr>rd_world = w, rd_next = k, rd_waiting = (a, position) # rest, rd_running = [], rd_tally = t\<rparr>"
  show ?case
  proof (cases "e_shutdown (p_env P) (w_trace w)")
    case True
    have "round_step P lq oracle 1 n_all ?s (?s\<lparr>rd_waiting := []\<rparr>)"
      by (rule round_step.stop) (use True in \<open>simp_all add: crashed_def\<close>)
    moreover have "r = Ok t" "w' = w" using Cons.prems(1) c True by auto
    ultimately show ?thesis
      by (intro exI [of _ "?s\<lparr>rd_waiting := []\<rparr>"]) (auto simp: c round_over_def)
  next
    case False
    obtain res w1 where l: "liquidate P lq a position oracle w = (res, w1)" by fastforce
    let ?u = "\<lparr>rd_world = w1, rd_next = k + 1, rd_waiting = rest, rd_running = [(k, a, TDone res)], rd_tally = t\<rparr>"
    note first = round_runs_position [OF False l, of n_all k rest t]
    show ?thesis
    proof (cases "res = Panic")
      case True
      with Cons.prems(1) c False l have "r = Panic" "w' = w1" by simp_all
      with first True show ?thesis by (intro exI [of _ ?u]) (auto simp: c crashed_def)
    next
      case no_panic: False
      let ?w2 = "tally_notify lq a res (pace (p_env P) 1 n_all k w1)"
      let ?v = "\<lparr>rd_world = ?w2, rd_next = k + 1, rd_waiting = rest, rd_running = [], rd_tally = tally_count res t\<rparr>"
      have "\<not> crashed ?u" using no_panic by (simp add: crashed_def)
      then have "round_step P lq oracle 1 n_all ?u (?u\<lparr>rd_running := [] @ [], rd_tally := tally_count res (rd_tally ?u),
          rd_world := tally_notify lq a res (pace (p_env P) 1 n_all k (rd_world ?u))\<rparr>)"
        by (rule round_step.yield_result) simp
      then have to_v: "round_reaches P lq oracle 1 n_all ?s ?v"
        using first by (auto intro: rtranclp.rtrancl_into_rtrancl)
      have "k + 1 < n_all \<longleftrightarrow> rest \<noteq> []" using Cons.prems(2) by auto
      then have "process_positions P lq oracle rest (tally_count res t) ?w2 = (r, w')"
        using Cons.prems(1) c False l no_panic by (cases res) (simp_all add: pace_def Let_def)
      from Cons.IH [OF this, of "k + 1"] Cons.prems(2) obtain s where
        "round_reaches P lq oracle 1 n_all ?v s"
        "case r of Ok t' \<Rightarrow> round_over s \<and> rd_tally s = t' \<and> rd_world s = w' | _ \<Rightarrow> crashed s \<and> rd_world s = w'" by auto
      with to_v c show ?thesis by (metis rtranclp_trans)
    qed
  qed
qed

text \<open>At concurrency 1 a round that completed, or died, is the sequential one.\<close>

lemma sequential_round:
  assumes "round_reaches P lq oracle 1 (length candidates) (round_init candidates t w) s" "round_over s \<or> crashed s"
  shows "process_positions P lq oracle candidates t w = (if crashed s then Panic else Ok (rd_tally s), rd_world s)"
proof -
  obtain r w' where pp: "process_positions P lq oracle candidates t w = (r, w')" by fastforce
  obtain s1 where s1: "round_reaches P lq oracle 1 (length candidates) (round_init candidates t w) s1"
      "case r of Ok t' \<Rightarrow> round_over s1 \<and> rd_tally s1 = t' \<and> rd_world s1 = w' | _ \<Rightarrow> crashed s1 \<and> rd_world s1 = w'"
    using round_runs_sequentially [OF pp, of 0] by (auto simp: round_init_def)
  have "round_over s1 \<or> crashed s1" using s1(2) by (cases r) simp_all
  then have ends: "\<nexists>u. round_step P lq oracle 1 (length candidates) s1 u"
    using round_over_ends [of s1 P lq "oracle"] crashed_ends [of s1 P lq "oracle"] by blast
  have over: "\<nexists>u. round_step P lq oracle 1 (length candidates) s u"
    using assms(2) round_over_ends [of s P lq "oracle"] crashed_ends [of s P lq "oracle"] by blast
  have "s = s1"
    by (rule round_runs_meet [OF assms(1) s1(1) _ over ends]) (simp add: round_init_def)
  with s1(2) pp show ?thesis
    by (cases r) (auto simp: round_over_def crashed_def process_positions_no_error)
qed

text \<open>With at most one candidate the concurrency makes no difference.\<close>

lemma round_step_single:
  assumes "round_step P lq oracle 1 n_all s s'" "n_all \<le> 1" "0 < concurrency"
  shows "round_step P lq oracle concurrency n_all s s'"
  using assms(1)
proof cases
  case (pull a position rest)
  with assms(3) round_step.pull [of s a position rest concurrency P lq "oracle" n_all] show ?thesis by simp
next
  case (yield_result xs k a res ys)
  have "pace (p_env P) concurrency n_all k (rd_world s) = pace (p_env P) 1 n_all k (rd_world s)"
    using assms(2) by (simp add: pace_def)
  with yield_result round_step.yield_result [of s xs k a res ys P lq "oracle" concurrency n_all]
  show ?thesis by simp
qed (use assms(3) in \<open>auto intro: round_step.intros\<close>)

section \<open>Lemmas: every result is counted\<close>

definition counted_ok :: "nat \<Rightarrow> nat \<Rightarrow> round_state \<Rightarrow> bool" where
  "counted_ok n_all t0 s \<longleftrightarrow>
     tally_total (rd_tally s) + length (rd_running s) = t0 + rd_next s
     \<and> rd_next s + length (rd_waiting s) \<le> n_all"

lemma round_step_counted:
  assumes "round_step P lq oracle concurrency n_all s s'" "counted_ok m t0 s"
  shows "counted_ok m t0 s'"
  using assms(1)
proof cases
  case (yield_result xs k a res ys)
  then have "res \<noteq> Panic" by (auto simp: crashed_def)
  with yield_result assms(2) show ?thesis by (simp add: counted_ok_def)
qed (use assms(2) in \<open>auto simp: counted_ok_def\<close>)

text \<open>Without a shutdown nothing that waits is dropped.\<close>

lemma round_step_pulled:
  assumes "round_step P lq oracle concurrency n_all s s'" "\<And>tr. \<not> e_shutdown (p_env P) tr"
  shows "rd_next s' + length (rd_waiting s') = rd_next s + length (rd_waiting s)"
  using assms by (auto elim: round_step.cases)

lemma round_reaches_counted:
  assumes "round_reaches P lq oracle concurrency n_all (round_init candidates t w) s"
  shows "counted_ok (length candidates) (tally_total t) s"
    and "(\<And>tr. \<not> e_shutdown (p_env P) tr) \<Longrightarrow> rd_next s + length (rd_waiting s) = length candidates"
  using assms
proof (induction rule: rtranclp_induct)
  case base
  show "counted_ok (length candidates) (tally_total t) (round_init candidates t w)"
    and "rd_next (round_init candidates t w) + length (rd_waiting (round_init candidates t w)) = length candidates"
    by (simp_all add: counted_ok_def round_init_def)
next
  case (step s s')
  from round_step_counted [OF step.hyps(2) step.IH(1)] show "counted_ok (length candidates) (tally_total t) s'" .
  assume "\<And>tr. \<not> e_shutdown (p_env P) tr"
  with round_step_pulled [OF step.hyps(2)] step.IH(2)
  show "rd_next s' + length (rd_waiting s') = length candidates" by simp
qed

text \<open>A step that submits resumes a task whose reservation covers the transaction.\<close>

lemma step_submission_covered:
  assumes "round_step P lq oracle concurrency n_all s s'"
    and "w_trace (rd_world s') = EvLiquidate a n c # w_trace (rd_world s)"
  shows "\<exists>r \<in># round_tokens s. covers r (borrow_asset (lq_config lq)) n"
  using assms(1)
proof cases
  case (resume xs k b t ys t' w')
  from resume(5) show ?thesis
  proof (cases rule: task_step_trace)
    case (silent new)
    with resume assms(2) have "new = [EvLiquidate a n c]" by (simp add: extends_def)
    with silent(2) show ?thesis by simp
  next
    case (sends v plan r)
    with resume assms(2) show ?thesis by (auto simp: round_tokens_eq extends_def intro!: bexI [of _ r])
  qed (use resume assms(2) in \<open>simp add: extends_def\<close>)
next
  case (yield_result xs k b res ys)
  obtain new where new: "silent new"
    "extends (rd_world s) (tally_notify lq b res (pace (p_env P) concurrency n_all k (rd_world s))) new"
    using yield_world(1) by blast
  with yield_result assms(2) have "new = [EvLiquidate a n c]" by (simp add: extends_def)
  with new(1) show ?thesis by simp
qed (use assms(2) in auto)

end
