(* ===== verification/Concurrent_Run.thy ===== *)
theory Concurrent_Run
  imports Schedule
begin

text \<open>
  The whole of \<open>run_liquidations\<close> (src/liquidator.rs) at any \<open>POSITION_CONCURRENCY\<close>: the prices, the scan and
  the screen as in the theory Round, then some schedule of the candidates, up to its end or to the panic that
  aborts the process.
\<close>

section \<open>The run\<close>

inductive concurrent_run ::
    "('d, 'p) params \<Rightarrow> 'd liquidator \<Rightarrow> nat \<Rightarrow> world \<Rightarrow> (liquidator_error, round_summary) outcome \<Rightarrow> world \<Rightarrow> bool"
  for Q lq concurrency w where
  idle: "scan_market Q lq w = (Inl res, w1) \<Longrightarrow> concurrent_run Q lq concurrency w res w1"
| over: "scan_market Q lq w = (Inr (resp, candidates, t), w1) \<Longrightarrow>
    round_reaches Q lq resp concurrency (length candidates) (round_init candidates t w1) s \<Longrightarrow> round_over s \<Longrightarrow>
    concurrent_run Q lq concurrency w (Ok (round_summary_of (rd_tally s))) (rd_world s)"
| crash: "scan_market Q lq w = (Inr (resp, candidates, t), w1) \<Longrightarrow>
    round_reaches Q lq resp concurrency (length candidates) (round_init candidates t w1) s \<Longrightarrow> crashed s \<Longrightarrow>
    concurrent_run Q lq concurrency w Panic (rd_world s)"

section \<open>Lemmas: the scan\<close>

text \<open>The pages are gathered in a map: each account once.\<close>

lemma extend_positions_distinct: "distinct (map fst acc) \<Longrightarrow> distinct (map fst (extend_positions acc page))"
proof (induction page arbitrary: acc)
  case (Cons kv page)
  obtain k v where kv: "kv = (k, v)" by fastforce
  have "extend_positions acc (kv # page) = extend_positions (AList.update k v acc) page"
    by (simp add: extend_positions_def kv)
  with Cons distinct_update show ?case by metis
qed (simp add: extend_positions_def)

lemma borrows_loop_distinct:
  "borrows_loop E off acc w = (Ok found, w') \<Longrightarrow> distinct (map fst acc) \<Longrightarrow> distinct (map fst found)"
proof (induction E off acc w rule: borrows_loop.induct)
  case (1 E off acc w)
  show ?case
  proof (cases "e_list_positions E (w_trace w) off PAGE_SIZE")
    case (Inl e)
    with "1.prems" show ?thesis by (simp add: borrows_loop.simps [of E off acc w])
  next
    case (Inr page)
    let ?f = "min (length page) u32_max"
    note more = extend_positions_distinct [OF "1.prems"(2), of page]
    show ?thesis
    proof (cases "?f = 0 \<or> u32_max < off + ?f \<or> ?f < PAGE_SIZE")
      case True
      with Inr "1.prems" more show ?thesis
        by (simp add: borrows_loop.simps [of E off acc w] Let_def split: if_splits)
    next
      case False
      then have rec: "borrows_loop E (off + ?f) (extend_positions acc page)
          (emit (EvPositionsPage off PAGE_SIZE) w) = (Ok found, w')"
        using Inr "1.prems"(1) unfolding borrows_loop.simps [of E off acc w] Let_def
        by (simp del: min_less_iff_conj split: if_splits)
      show ?thesis by (rule "1.IH" [OF Inr refl refl _ refl _ _ rec more]) (use False in auto)
    qed
  qed
qed

lemma get_all_borrows_facts:
  assumes "get_all_borrows E w = (got, w')"
  shows "w_inventory w' = w_inventory w" "\<exists>new. extends w w' new \<and> money new = []"
    "got = Ok borrows \<Longrightarrow> distinct (map fst borrows)"
  using borrows_loop_reads_only [OF assms [unfolded get_all_borrows_def]] assms borrows_loop_distinct
  by (auto simp: get_all_borrows_def)

lemma screening_facts:
  assumes "(candidates, screened, w3) =
     (case (pair, now_ms) of
        (Inr price_pair, Some now) \<Rightarrow> screen_positions P lq price_pair now ordered 0 w2
      | _ \<Rightarrow> (ordered, 0, w2))"
  shows "w_inventory w3 = w_inventory w2" "\<exists>new. extends w2 w3 new \<and> money new = []"
    "distinct (map fst ordered) \<Longrightarrow> distinct (map fst candidates)"
  using assms clear_dedup_quiet
  by (fastforce simp: screen_positions_eq extends_def distinct_map_filter split: sum.splits option.splits)+

text \<open>The scan spends nothing, and what it yields rests on prices that cover both assets of the market.\<close>

lemma scan_market_facts:
  assumes "scan_market P lq w = (r, w')"
  shows "w_inventory w' = w_inventory w \<and> (\<exists>new. extends w w' new \<and> money new = [])
    \<and> (case r of
         Inl res \<Rightarrow> \<forall>s. res = Ok s \<longrightarrow> s = round_summary_default
       | Inr (resp, candidates, t) \<Rightarrow>
           e_oracle_prices (p_env P) (w_trace w) = Inr resp
           \<and> covers_all resp [borrow_asset_price_id (price_oracle_configuration (lq_config lq)),
                              collateral_asset_price_id (price_oracle_configuration (lq_config lq))]
           \<and> ((\<forall>ps. mset (p_hash_order P ps) = mset ps) \<longrightarrow> distinct (map fst candidates)))"
proof -
  let ?oc = "price_oracle_configuration (lq_config lq)"
  let ?ids = "[borrow_asset_price_id ?oc, collateral_asset_price_id ?oc]"
  let ?w1 = "emit (EvPricesFetched (oracle_account_id ?oc) ?ids) w"
  have w1: "extends w ?w1 [EvPricesFetched (oracle_account_id ?oc) ?ids]"
    "money [EvPricesFetched (oracle_account_id ?oc) ?ids] = []"
    by (simp_all add: extends_def is_money_event_def)
  obtain got w2 where got: "get_all_borrows (p_env P) ?w1 = (got, w2)" by fastforce
  note pages = get_all_borrows_facts [OF got]
  obtain new where "extends ?w1 w2 new" "money new = []" using pages(2) by blast
  then have w2: "\<exists>new. extends w w2 new \<and> money new = []"
    using extends_trans [OF w1(1)] w1(2) by fastforce
  consider (early) "w' = ?w1" "\<exists>e. r = Inl (Err e)"
    | (paged) "w' = w2" "r = Inl Panic \<or> (\<exists>e. r = Inl (Err e)) \<or> r = Inl (Ok round_summary_default)"
    | (go) resp borrows where "e_oracle_prices (p_env P) (w_trace w) = Inr resp" "covers_all resp ?ids"
        "got = Ok borrows" "borrows \<noteq> []"
    using assms got by (auto simp: scan_market_def Let_def split: sum.splits outcome.splits if_splits)
  then show ?thesis
  proof cases
    case early
    with w1 show ?thesis by auto
  next
    case paged
    with w2 pages(1) show ?thesis by auto
  next
    case go
    obtain candidates screened w3 where scr: "(candidates, screened, w3) =
        (case (create_price_pair (p_lib P) ?oc resp, e_unix_ms (p_env P) (w_trace w2)) of
           (Inr price_pair, Some now) \<Rightarrow> screen_positions P lq price_pair now (p_hash_order P borrows) 0 w2
         | _ \<Rightarrow> (p_hash_order P borrows, 0, w2))" by (metis prod_cases3)
    note sf = screening_facts [OF scr]
    have "w' = w3" "\<exists>t. r = Inr (resp, candidates, t)"
      using assms got go scr [symmetric] by (auto simp: scan_market_def Let_def)
    moreover have "\<exists>new. extends w w3 new \<and> money new = []"
      using w2 sf(2) extends_trans by fastforce
    moreover have "distinct (map fst candidates)" if "\<forall>ps. mset (p_hash_order P ps) = mset ps"
    proof (rule sf(3))
      have "mset (map fst (p_hash_order P borrows)) = mset (map fst borrows)" using that by simp
      with pages(3) [OF go(3)] show "distinct (map fst (p_hash_order P borrows))"
        using mset_eq_imp_distinct_iff by blast
    qed
    ultimately show ?thesis using go(1,2) sf(1) pages(1) by auto
  qed
qed

section \<open>Lemmas: the whole run\<close>

lemma round_tokens_over: "round_over s \<Longrightarrow> round_tokens s = {#}"
  by (simp add: round_tokens_def round_over_def)

lemma concurrent_run_at_1:
  "concurrent_run P lq 1 w res w' \<longleftrightarrow> run_liquidations P lq w = (res, w')"
proof
  assume "concurrent_run P lq 1 w res w'"
  then show "run_liquidations P lq w = (res, w')"
  proof cases
    case idle
    then show ?thesis by (simp add: run_liquidations_def)
  next
    case (over resp candidates t w1 s)
    then have "\<not> crashed s" by (simp add: round_over_def crashed_def)
    with over sequential_round [OF over(4)] show ?thesis by (simp add: run_liquidations_def)
  next
    case (crash resp candidates t w1 s)
    with sequential_round [OF crash(4)] show ?thesis by (simp add: run_liquidations_def)
  qed
next
  assume run: "run_liquidations P lq w = (res, w')"
  obtain r w1 where scan: "scan_market P lq w = (r, w1)" by fastforce
  show "concurrent_run P lq 1 w res w'"
  proof (cases r)
    case (Inl early)
    with scan run show ?thesis by (auto simp: run_liquidations_def intro: concurrent_run.idle)
  next
    case (Inr go)
    then obtain resp candidates t where go: "r = Inr (resp, candidates, t)" by (cases go) auto
    obtain pr w2 where pp: "process_positions P lq resp candidates t w1 = (pr, w2)" by fastforce
    from round_runs_sequentially [OF pp, of 0] obtain s where
      s: "round_reaches P lq resp 1 (length candidates) (round_init candidates t w1) s"
      "case pr of Ok t' \<Rightarrow> round_over s \<and> rd_tally s = t' \<and> rd_world s = w2 | _ \<Rightarrow> crashed s \<and> rd_world s = w2"
      by (auto simp: round_init_def)
    note steps = concurrent_run.over [OF scan [unfolded go] s(1)] concurrent_run.crash [OF scan [unfolded go] s(1)]
    have "pr \<noteq> Err e" for e using process_positions_no_error [of P lq resp candidates t w1 e w2] pp by auto
    with run scan go pp s(2) steps show ?thesis
      by (cases pr) (auto simp: run_liquidations_def)
  qed
qed

text \<open>A state that the schedule of a scanned market reaches, seen from the start of the run.\<close>

lemma scheduled_run:
  assumes scan: "scan_market P lq w = (Inr (resp, candidates, t), w1)"
    and reach: "round_reaches P lq resp concurrency n_all (round_init candidates t w1) s"
    and env: "env_ok (p_env P)" and books: "ledger_inv (w_inventory w, T)"
    and hash: "\<forall>ps. mset (p_hash_order P ps) = mset ps"
  shows "ledger_inv (w_inventory (rd_world s), T + round_tokens s)"
    "\<exists>new. extends w (rd_world s) new
       \<and> (dry_run_mode lq \<longrightarrow> money new = [] \<and> w_inventory (rd_world s) = w_inventory w)
       \<and> (submitted new \<noteq> [] \<longrightarrow>
            (\<exists>resp A. e_oracle_prices (p_env P) (w_trace w) = Inr resp
              \<and> covers_all resp [borrow_asset_price_id (price_oracle_configuration (lq_config lq)),
                                 collateral_asset_price_id (price_oracle_configuration (lq_config lq))]
              \<and> confirmed_for (p_env P) A resp new (w_trace w)))"
proof -
  note facts = scan_market_facts [OF scan]
  have prices: "e_oracle_prices (p_env P) (w_trace w) = Inr resp"
    "covers_all resp [borrow_asset_price_id (price_oracle_configuration (lq_config lq)),
                      collateral_asset_price_id (price_oracle_configuration (lq_config lq))]"
    using facts by simp_all
  have books1: "ledger_inv (w_inventory w1, T)" using facts books by simp
  have "distinct (map fst candidates)" using facts hash by simp
  note inv = round_reaches_inv [OF reach env books1 this, unfolded round_inv_def round_trace_ok_def]
  then show "ledger_inv (w_inventory (rd_world s), T + round_tokens s)" by blast
  obtain old where old: "extends w w1 old" "money old = []" using facts by auto
  obtain new where new: "extends w1 (rd_world s) new"
      "confirmed_for (p_env P) (set (map fst candidates)) resp new (w_trace w1)"
      "dry_run_mode lq \<longrightarrow> money new = [] \<and> w_inventory (rd_world s) = w_inventory w1"
    using inv by blast
  have "w_trace w1 = old @ w_trace w" using old(1) by (simp add: extends_def)
  then have "confirmed_for (p_env P) (set (map fst candidates)) resp (new @ old) (w_trace w)"
    using new(2) old(2) by (simp add: confirmed_for_quiet no_money)
  moreover have "extends w (rd_world s) (new @ old)" using extends_trans [OF old(1) new(1)] .
  moreover have "dry_run_mode lq \<longrightarrow> money (new @ old) = [] \<and> w_inventory (rd_world s) = w_inventory w"
    using new(3) old(2) facts by simp
  ultimately show "\<exists>new. extends w (rd_world s) new
       \<and> (dry_run_mode lq \<longrightarrow> money new = [] \<and> w_inventory (rd_world s) = w_inventory w)
       \<and> (submitted new \<noteq> [] \<longrightarrow>
            (\<exists>resp A. e_oracle_prices (p_env P) (w_trace w) = Inr resp
              \<and> covers_all resp [borrow_asset_price_id (price_oracle_configuration (lq_config lq)),
                                 collateral_asset_price_id (price_oracle_configuration (lq_config lq))]
              \<and> confirmed_for (p_env P) A resp new (w_trace w)))"
    using prices by blast
qed

end
