(* ===== verification/Round_Properties.thy ===== *)
theory Round_Properties
  imports Concurrent_Run Scenario
begin

text \<open>
  The properties of a round whose positions run concurrently, and the scenario of two borrowers that
  witnesses them.
\<close>

section \<open>Two borrowers\<close>

definition rc_candidates :: borrow_positions where
  "rc_candidates = [(''alice.near'', sc_position), (''bob.near'', sc_position)]"

definition rc_tally :: round_tally where
  "rc_tally = \<lparr>t_liquidated = 0, t_not_liquidatable = 0, t_skipped_unfunded = 0, t_unprofitable = 0, t_failed = 0,
               t_failed_execution = 0\<rparr>"

definition rc_vars :: task_vars where
  "rc_vars = \<lparr>tv_iteration = 1, tv_pushed = False, tv_total_liquidated = 0, tv_total_collateral = 0,
              tv_position = sc_position\<rparr>"

abbreviation rc_params :: "(rat, rat) params" where
  "rc_params \<equiv> sc_params (Inr (Some Healthy))"

text \<open>Alice's task holds its reservation, bob's was just pulled.\<close>

definition rc_state :: round_state where
  "rc_state = \<lparr>rd_world = \<lparr>w_inventory = sc_held, w_trace = [EvStatusRead ''alice.near'']\<rparr>, rd_next = 2,
     rd_waiting = [],
     rd_running = [(0, ''alice.near'', TPush rc_vars sc_plan (Live sc_token)), (1, ''bob.near'', TCheck rc_vars)],
     rd_tally = rc_tally\<rparr>"

lemma rc_start [simp]: "task_start sc_position = TCheck rc_vars"
  by (simp add: task_start_def next_iteration_def rc_vars_def u32_max_def)

lemma rc_no_shutdown [simp]: "\<not> e_shutdown (sc_env later) tr"
  by (simp add: sc_env_def)

lemma rc_ledger: "ledger_inv (sc_inventory, {#})"
  by (simp add: ledger_inv_def sc_inventory_def get_reserved_balance_def get_total_balance_def u128_max_def)

lemma rc_reserved:
  "runs rc_params (sc_liquidator False) sc_prices ''alice.near'' (TCheck rc_vars, sc_world [])
     (TPush rc_vars sc_plan (Live sc_token), \<lparr>w_inventory = sc_held, w_trace = [EvStatusRead ''alice.near'']\<rparr>)"
proof (rule runs_evaluation)
  show "evaluate_position rc_params (sc_liquidator False) ''alice.near'' (tv_position rc_vars) sc_prices
      (ctx_of (sc_liquidator False) (tv_iteration rc_vars)) (sc_world []) =
    (Ok (Proceed sc_plan), emit (EvStatusRead ''alice.near'') (sc_world []))"
    using sc_evaluate [of "[]"] by (simp add: rc_vars_def)
  have "runs rc_params (sc_liquidator False) sc_prices ''alice.near''
      (TReserve rc_vars sc_plan, emit (EvStatusRead ''alice.near'') (sc_world []))
      (TPush rc_vars sc_plan (Live sc_token), \<lparr>w_inventory = sc_held, w_trace = [EvStatusRead ''alice.near'']\<rparr>)"
    by (rule runs_step [OF _ rtranclp.rtrancl_refl])
       (use sc_reserve in \<open>simp_all add: sc_liquidator_def dry_run_mode_def sc_config_def sc_plan_def sc_world_def emit_def\<close>)
  then show "runs rc_params (sc_liquidator False) sc_prices ''alice.near''
      (case Ok (Proceed sc_plan) of Panic \<Rightarrow> TDone Panic | Err e \<Rightarrow> TDone (Err e)
       | Ok ev \<Rightarrow> (case resolve_evaluation ev (ctx_of (sc_liquidator False) (tv_iteration rc_vars)) of
                   Inl oc \<Rightarrow> TDone (Ok oc) | Inr plan \<Rightarrow> TReserve rc_vars plan),
       emit (EvStatusRead ''alice.near'') (sc_world []))
      (TPush rc_vars sc_plan (Live sc_token), \<lparr>w_inventory = sc_held, w_trace = [EvStatusRead ''alice.near'']\<rparr>)"
    by (simp add: resolve_evaluation_def)
qed

lemma rc_reach:
  "round_reaches rc_params (sc_liquidator False) sc_prices 2 2 (round_init rc_candidates rc_tally (sc_world [])) rc_state"
proof -
  let ?R = "round_step rc_params (sc_liquidator False) sc_prices 2 2"
  let ?s0 = "round_init rc_candidates rc_tally (sc_world [])"
  let ?s1 = "\<lparr>rd_world = sc_world [], rd_next = 1, rd_waiting = [(''bob.near'', sc_position)],
    rd_running = [(0, ''alice.near'', TCheck rc_vars)], rd_tally = rc_tally\<rparr>"
  let ?s2 = "?s1\<lparr>rd_running := [(0, ''alice.near'', TPush rc_vars sc_plan (Live sc_token))],
    rd_world := \<lparr>w_inventory = sc_held, w_trace = [EvStatusRead ''alice.near'']\<rparr>\<rparr>"
  have "?R ?s0 (?s0\<lparr>rd_waiting := [(''bob.near'', sc_position)], rd_next := rd_next ?s0 + 1,
      rd_running := rd_running ?s0 @ [(rd_next ?s0, ''alice.near'', task_start sc_position)]\<rparr>)"
    by (rule round_step.pull) (simp_all add: round_init_def rc_candidates_def crashed_def)
  then have "?R ?s0 ?s1" by (simp add: round_init_def)
  moreover have "?R\<^sup>*\<^sup>* ?s1 ?s2"
    using round_runs_task [OF rc_reserved, where concurrency = 2 and n_all = 2 and k = 0 and s = ?s1] by simp
  moreover have "?R ?s2 (?s2\<lparr>rd_waiting := [], rd_next := rd_next ?s2 + 1,
      rd_running := rd_running ?s2 @ [(rd_next ?s2, ''bob.near'', task_start sc_position)]\<rparr>)"
    by (rule round_step.pull) (simp_all add: crashed_def)
  then have "?R ?s2 rc_state" by (simp add: rc_state_def numeral_2_eq_2)
  ultimately show ?thesis by (meson converse_rtranclp_into_rtranclp rtranclp.rtrancl_into_rtrancl)
qed

section \<open>Whatever the schedule\<close>

lemma held_union [simp]: "held (S + T) a = held S a + held T a"
  by (simp add: held_def)

text \<open>
  C13: Concurrency does not break the books. In every state a round can reach, whichever tasks were resumed in
  whatever order: what is reserved beyond the start is exactly what the positions in flight carry, every one
  of those reservations is this ledger's, no more positions are in flight than configured, each transaction
  was against a candidate the market had called liquidatable since the last transaction against it, and a
  dry run has moved nothing. A transaction that is about to be submitted is covered by a reservation that is
  out.
\<close>

theorem concurrent_round_is_safe:
  assumes "round_reaches P lq oracle concurrency n_all (round_init candidates t w) s"
    and "env_ok (p_env P)" "ledger_inv (w_inventory w, T)" "distinct (map fst candidates)"
  shows "(\<forall>x. get_reserved_balance (w_inventory (rd_world s)) x
            = get_reserved_balance (w_inventory w) x + held (round_tokens s) x)
    \<and> (\<forall>r \<in># round_tokens s. issued (w_inventory (rd_world s)) r)
    \<and> length (rd_running s) \<le> concurrency
    \<and> (\<exists>new. extends w (rd_world s) new
         \<and> confirmed_for (p_env P) (set (map fst candidates)) oracle new (w_trace w)
         \<and> (dry_run_mode lq \<longrightarrow> money new = [] \<and> w_inventory (rd_world s) = w_inventory w))
    \<and> (\<forall>s' a n c. round_step P lq oracle concurrency n_all s s' \<longrightarrow>
         w_trace (rd_world s') = EvLiquidate a n c # w_trace (rd_world s) \<longrightarrow>
         (\<exists>r \<in># round_tokens s. covers r (borrow_asset (lq_config lq)) n))"
proof -
  note inv = round_reaches_inv [OF assms, unfolded round_inv_def]
  have "\<exists>r \<in># round_tokens s. covers r (borrow_asset (lq_config lq)) n"
    if "round_step P lq oracle concurrency n_all s s'"
      "w_trace (rd_world s') = EvLiquidate a n c # w_trace (rd_world s)" for s' a n c
    using that by (rule step_submission_covered)
  with inv assms(3) show ?thesis by (auto simp: round_trace_ok_def ledger_inv_def)
qed

text \<open>Alice's reservation of 499 is out, and it is the only one.\<close>

theorem concurrent_round_is_safe_witness:
  "get_reserved_balance (w_inventory (rd_world rc_state)) ''usdc''
     = get_reserved_balance (w_inventory (sc_world [])) ''usdc'' + held (round_tokens rc_state) ''usdc''
   \<and> length (rd_running rc_state) = 2"
  using concurrent_round_is_safe [OF rc_reach, of "{#}"] rc_ledger sc_hypotheses(1)
  by (simp add: rc_candidates_def rc_state_def sc_world_def)



section \<open>The whole run\<close>

text \<open>
  C12: Raising \<open>POSITION_CONCURRENCY\<close> costs no safety. However the positions of a market interleave, when
  \<open>run_liquidations\<close> returns the ledger holds exactly the reservations it held before, the summary splits its
  attempts into successes and failures, and, even when it panics, a dry run has moved nothing and anything
  submitted rests on prices that covered both assets of the market and on a market that had called that
  very borrower liquidatable since its last transaction. The map of positions may be iterated in any order.
\<close>

theorem concurrent_run_is_safe:
  assumes run: "concurrent_run P lq concurrency w res w'"
    and env: "env_ok (p_env P)" and books: "ledger_inv (w_inventory w, T)"
    and hash: "\<forall>ps. mset (p_hash_order P ps) = mset ps"
  shows "(res \<noteq> Panic \<longrightarrow> ledger_inv (w_inventory w', T))
    \<and> (\<forall>s. res = Ok s \<longrightarrow> rs_attempted s = rs_succeeded s + rs_failed s \<and> rs_attempted s \<le> rs_candidates s)
    \<and> (\<exists>new. extends w w' new
         \<and> (dry_run_mode lq \<longrightarrow> money new = [] \<and> w_inventory w' = w_inventory w)
         \<and> (submitted new \<noteq> [] \<longrightarrow>
              (\<exists>resp A. e_oracle_prices (p_env P) (w_trace w) = Inr resp
                \<and> covers_all resp [borrow_asset_price_id (price_oracle_configuration (lq_config lq)),
                                   collateral_asset_price_id (price_oracle_configuration (lq_config lq))]
                \<and> confirmed_for (p_env P) A resp new (w_trace w))))"
  using run
proof cases
  case idle
  with scan_market_facts [OF idle(1)] books show ?thesis
    by (auto simp: round_summary_default_def no_money)
next
  case (over resp candidates t w1 s)
  with scheduled_run [OF over(3,4) env books hash] show ?thesis
    by (auto simp: round_summary_of_def round_tokens_over)
next
  case (crash resp candidates t w1 s)
  with scheduled_run [OF crash(3,4) env books hash] show ?thesis by auto
qed

text \<open>A run with room for two positions that finds one: it succeeds, and no reservation stays behind.\<close>

lemma rc_run:
  obtains s w' where "concurrent_run rc_params (sc_liquidator False) 2 (sc_world []) (Ok s) w'" "rs_succeeded s = 1"
proof -
  obtain s w' where run: "concurrent_run rc_params (sc_liquidator False) 1 (sc_world []) (Ok s) w'" "rs_succeeded s = 1"
    using sc_round_healthy concurrent_run_at_1 by metis
  from run(1) have "concurrent_run rc_params (sc_liquidator False) 2 (sc_world []) (Ok s) w'"
  proof cases
    case (over resp candidates t w1 u)
    then have "length candidates \<le> 1" by (auto simp: sc_scan)
    then have "round_reaches rc_params (sc_liquidator False) resp 2 (length candidates) (round_init candidates t w1) u"
      using over(4) by (auto elim!: rtranclp_mono [THEN predicate2D, rotated] intro: round_step_single)
    with over show ?thesis by (auto intro: concurrent_run.over)
  qed (simp_all add: sc_scan)
  with run(2) that show thesis by blast
qed

theorem concurrent_run_is_safe_witness:
  "\<exists>s w' new. concurrent_run rc_params (sc_liquidator False) 2 (sc_world []) (Ok s) w' \<and> rs_succeeded s = 1
     \<and> ledger_inv (w_inventory w', {#}) \<and> extends (sc_world []) w' new"
proof -
  obtain s w' where run: "concurrent_run rc_params (sc_liquidator False) 2 (sc_world []) (Ok s) w'" "rs_succeeded s = 1"
    by (rule rc_run)
  have "\<forall>ps. mset (p_hash_order rc_params ps) = mset ps" by (simp add: sc_params_def)
  from concurrent_run_is_safe [OF run(1) _ _ this] rc_ledger sc_hypotheses run show ?thesis by fastforce
qed

text \<open>
  C15: With a concurrency of 1 the stream is the plain loop. A run of the market with one position in flight
  ends exactly as processing its candidates one after the other does: with the same summary or the same
  panic, the same inventory and the same calls in the same order. So what is proved of the sequential
  \<open>run_liquidations\<close>, and of the cycles that call it, holds of the stream the code builds.
\<close>

theorem sequential_run_is_the_only_schedule:
  "concurrent_run P lq 1 w res w' \<longleftrightarrow> run_liquidations P lq w = (res, w')"
  by (rule concurrent_run_at_1)

end
