(* ===== verification/Spec2Isabelle.thy ===== *)
theory Spec2Isabelle
  imports Scenario Pricing_Properties Service_Properties Swap_Properties Config_Properties Explain Round_Properties
begin

text \<open>
  \<^bold>\<open>templar-liquidator\<close>

  The program is a liquidation bot for lending markets on NEAR. A process lists the markets of its
  registries, admits those it can price, and in rounds scans the borrowers of every admitted market, sizes
  a repayment for each position that is liquidatable, reserves the borrow asset, submits the liquidation,
  and swaps the collateral it received. Prices come from signed off-chain sources when scanning and from
  the market's oracle, refreshed on-chain by the bot itself, when executing.

  \<^bold>\<open>How the model is built.\<close> Every function of the source is a HOL function; mutable state is passed
  explicitly; a Rust call ends in \<open>Ok\<close>, \<open>Err\<close> or \<open>Panic\<close> (theory Prelude), where a panic is an overflow,
  a failed \<open>unreachable!\<close> and the like, which abort the process (Cargo.toml). Unsigned integers are natural
  numbers with the bound of their width written out at every operation that can leave it; \<open>f64\<close> is an exact
  model of binary64 (theory F64). Strings are byte lists. What is outside the repository (the gateway
  client, the contracts behind it, HTTP, JSON and URL parsers, cryptography, the market library, the clock)
  is a record of functions; a function that is asked more than once gets the trace of everything done so
  far, so that its answers may differ from call to call. Traces are latest first. Logging is left out.

  \<^bold>\<open>The parts\<close>, in the order they build on each other:

  \<^item> \<open>Prelude\<close>, \<open>F64\<close>, \<open>Json\<close>: outcomes, bounded arithmetic, text parsing and rendering, floats, JSON values.
  \<^item> \<open>Errors\<close> (rpc.rs, the error types of liquidator.rs), \<open>Format\<close> (format.rs), \<open>Metrics\<close> (metrics.rs),
    \<open>Notifier\<close> (notifier.rs).
  \<^item> \<open>Market\<close> (the market data, scanner.rs versions), \<open>Scanner\<close> (scanner.rs: status reads, paging).
  \<^item> \<open>Strategy\<close> (liquidation_strategy.rs), \<open>Profitability\<close> (profitability.rs). The locale
    \<open>sizing_contract\<close> is what the liquidator needs of a strategy; both strategies are interpretations.
  \<^item> \<open>Inventory\<close> (inventory.rs): balances, reservations and their tokens. The locale \<open>reservation_ledger\<close>
    is the contract of reserve, release and consume; the manager is its interpretation.
  \<^item> \<open>Swap_Retry\<close> (swap/retry.rs) and \<open>OneClick\<close> (swap/oneclick.rs). The locale \<open>deposit_contract\<close> is what
    the retry loop needs of a swap: an attempt that fails before the deposit moved nothing, any other moved
    funds once. The provider's \<open>swap\<close> is its interpretation, and so is the forwarding enum of \<open>Provider\<close>
    (swap/provider.rs).
  \<^item> \<open>World\<close>, \<open>Executor\<close> (executor.rs), \<open>Liquidator\<close> (liquidator.rs: \<open>liquidate\<close>), \<open>Round\<close> (liquidator.rs:
    \<open>run_liquidations\<close>). The world is the shared inventory and the trace of submissions, swaps, pushes and
    reads.
  \<^item> \<open>Task\<close>, \<open>Concurrent\<close>, \<open>Schedule\<close>, \<open>Concurrent_Run\<close> (liquidator.rs, executor.rs): the same round with several positions in
    flight. A task is \<open>liquidate\<close> cut at the points where it waits or takes the lock of the inventory; the
    relation \<open>round_step\<close> pulls a candidate, resumes any task, or takes a result, so its runs are the schedules
    of \<open>buffer_unordered\<close>; \<open>concurrent_run\<close> is all of \<open>run_liquidations\<close> around it. A task that runs alone is
    \<open>liquidate\<close>, and at concurrency 1 the run is the one of \<open>Round\<close>.
  \<^item> \<open>Redstone_Push\<close> (redstone_push.rs), \<open>Redstone\<close> (redstone.rs), \<open>Lazer\<close> (lazer.rs), \<open>Oracle\<close> (oracle.rs).
    \<open>Requests\<close> has the request URLs and bodies of the price and swap clients.
  \<^item> \<open>Service\<close>, \<open>Cycle\<close>, \<open>Run\<close> (service.rs: registry refresh, round over all markets, batch swap, cycle,
    \<open>run_once\<close>, and the event loop as the inductive relation \<open>run_reach\<close>), \<open>Shutdown\<close> (the signal watcher),
    \<open>Push_Check\<close> (push_check.rs and its runner).
  \<^item> \<open>Config\<close> (config.rs: from the arguments to the configuration), \<open>Startup\<close> (service.rs: construction of the
    service from it), \<open>Entry\<close> (main.rs, http.rs). \<open>Explain\<close> has the lines the operator reads about
    a start-up, a decision on a position and the end of a loop.
  \<^item> \<open>Scenario\<close> and the \<open>sx\<close>, \<open>px\<close>, \<open>ox\<close> and \<open>cx\<close> definitions of the property theories are concrete markets,
    services, gateways, venues and arguments, on which the properties are evaluated.

  \<^bold>\<open>What is shown.\<close> The properties are numbered in the order of their importance. This theory has those of
  one position, of the shared inventory, of sizing and profitability and of a round; \<open>Pricing_Properties\<close>
  those of prices and pushes; \<open>Service_Properties\<close> those of the service, the notifier, the metrics and the
  push check; \<open>Swap_Properties\<close> those of the swap venue; \<open>Config_Properties\<close> those of start-up and exit; \<open>Round_Properties\<close> those of a round
  with concurrent positions.
  The main lines are: no reservation is left behind and nothing is spent twice; a transaction is only sent
  on information read in the same iteration, and a success is only reported on evidence; a dry run moves
  nothing, from the command line down to the trace; a retried swap deposits once; a push and a scan price
  are justified by what the sources signed, and fresh; every loop ends; what the summary, the counters, the
  alerts and the exit code say is what happened; and no secret shows.

  \<^bold>\<open>Loops and bounds.\<close> No fuel is used: each loop recurses on what bounds it in the source. The paging loop
  recurses on the distance of its \<open>u32\<close> offset to the maximum, \<open>liquidate\<close> on the iterations left of
  \<open>max_iterations\<close>, the status polling on its 24 attempts, the retry loop on the list of attempts, all
  others on a list. The event loop does not end, so its properties are invariants of the reachable states. A
  concurrent round has no fuel either: a measure of its state (\<open>round_left\<close>) decreases with every step.

  \<^bold>\<open>Contracts of the outside.\<close> The predicates \<open>env_ok\<close>, \<open>service_env_ok\<close> and the like state what the
  source relies on: amounts are \<open>u128\<close>, a market library's conversions are what their documentation says.
  \<open>10f64.powi\<close> has no documented precision and is a parameter wherever it is used.

  \<^bold>\<open>Not modelled.\<close> The HTTP exchanges themselves and the construction of the HTTP clients, parsing of JSON,
  URLs and the command line, hashing and signature recovery, response fields nothing reads, the axum
  listener, and logging apart from the lines of \<open>Explain\<close>. A timer is a tick: a step of the event loop that may happen at any time.
  Inside one resumption of a task, what the gateway is asked is answered at once: the swap of the collateral
  and a push of prices are one step each, which no other position of the round can split. The cycle and the
  event loop compose the sequential round; the tests of the crate are not translated. White space is ASCII
  white space, where the source also accepts other Unicode white space.
\<close>

section \<open>One position: \<open>liquidate\<close>\<close>

text \<open>
  C1: No reservation is left behind. Whatever \<open>liquidate\<close> returns (an outcome, an error, a panic), and
  whatever the gateway, the venue and the oracle answered on the way, every reserved amount is what it
  was before the call, and no balance but that of the borrow asset changed.
\<close>

theorem liquidate_settles_every_reservation:
  assumes "liquidate P lq a pos resp w = (res, w')" "env_ok (p_env P)" "ledger_ok (w_inventory w)"
  shows "settled (borrow_asset (lq_config lq)) (w_inventory w) (w_inventory w')"
  using liquidate_effect [OF assms] by (auto simp: loop_effect_def)

theorem liquidate_settles_every_reservation_witness:
  "\<exists>w'. liquidate (sc_params (Inr (Some Healthy))) (sc_liquidator False) ''alice.near'' sc_position sc_prices (sc_world [])
          = (Ok Liquidated, w')
      \<and> settled ''usdc'' sc_inventory (w_inventory w')"
proof -
  obtain w' where run: "liquidate (sc_params (Inr (Some Healthy))) (sc_liquidator False) ''alice.near''
      sc_position sc_prices (sc_world []) = (Ok Liquidated, w')"
    using sc_run_healthy [of "[]"] by auto
  from liquidate_settles_every_reservation [OF run] run show ?thesis
    by (auto simp: sc_hypotheses sc_liquidator_def sc_config_def)
qed

text \<open>
  C2: Nothing is submitted on stale information. Every transaction of a call of \<open>liquidate\<close> is against
  the borrower it was called for, and before each one, since the previous transaction, the market
  contract itself was asked for the status of that position and last answered that it is liquidatable.
\<close>

theorem liquidate_confirms_before_submitting:
  assumes "liquidate P lq a pos resp w = (res, w')" "env_ok (p_env P)" "ledger_ok (w_inventory w)"
  shows "\<exists>new. extends w w' new \<and> confirmed (p_env P) {a} resp new (w_trace w)"
  using liquidate_effect [OF assms] by (auto simp: loop_effect_def)

theorem liquidate_confirms_before_submitting_witness:
  "\<exists>w' new. liquidate (sc_params (Inr (Some Healthy))) (sc_liquidator False) ''alice.near'' sc_position sc_prices
          (sc_world []) = (Ok Liquidated, w')
      \<and> submitted (w_trace w') = [EvLiquidate ''alice.near'' 499 552]
      \<and> extends (sc_world []) w' new \<and> confirmed (sc_env (Inr (Some Healthy))) {''alice.near''} sc_prices new []"
proof -
  obtain w' where run: "liquidate (sc_params (Inr (Some Healthy))) (sc_liquidator False) ''alice.near''
      sc_position sc_prices (sc_world []) = (Ok Liquidated, w')"
    "submitted (w_trace w') = [EvLiquidate ''alice.near'' 499 552]"
    using sc_run_healthy [of "[]"] by auto
  from liquidate_confirms_before_submitting [OF run(1)] run show ?thesis
    by (auto simp: sc_hypotheses)
qed

text \<open>
  C4: The work of one call is bounded: at most \<open>max_iterations\<close> transactions, at most one when looping is
  disabled (which a dry run implies), and at most one push of on-chain prices. The call ends: the
  iterations are the recursion of a total function.
\<close>

theorem liquidate_is_bounded:
  assumes "liquidate P lq a pos resp w = (res, w')" "env_ok (p_env P)" "ledger_ok (w_inventory w)"
  shows "\<exists>new. extends w w' new \<and> length (submitted new) \<le> max_iterations lq
    \<and> (\<not> loop_enabled lq \<longrightarrow> length (submitted new) \<le> 1) \<and> length (pushes new) \<le> 1"
  using liquidate_effect [OF assms] by (auto simp: loop_effect_def)

theorem liquidate_is_bounded_witness:
  "\<exists>w' new. liquidate (sc_params (Inr (Some Healthy))) (sc_liquidator False) ''alice.near'' sc_position sc_prices
          (sc_world []) = (Ok Liquidated, w')
      \<and> extends (sc_world []) w' new \<and> length (submitted new) \<le> 3 \<and> length (pushes new) \<le> 1"
proof -
  obtain w' where run: "liquidate (sc_params (Inr (Some Healthy))) (sc_liquidator False) ''alice.near''
      sc_position sc_prices (sc_world []) = (Ok Liquidated, w')"
    using sc_run_healthy [of "[]"] by auto
  have "max_iterations (sc_liquidator False) = 3"
    by (simp add: max_iterations_def dry_run_mode_def sc_liquidator_def)
  with liquidate_is_bounded [OF run] run show ?thesis by (auto simp: sc_hypotheses)
qed

text \<open>
  C5: A dry run moves nothing. With a dry-run executor no transaction is submitted, no swap is started,
  no price is pushed, and the inventory is the one the call started with.
\<close>

theorem liquidate_dry_run_moves_nothing:
  assumes "liquidate P lq a pos resp w = (res, w')" "env_ok (p_env P)" "ledger_ok (w_inventory w)"
    and "dry_run_mode lq"
  shows "\<exists>new. extends w w' new \<and> money new = [] \<and> w_inventory w' = w_inventory w"
  using liquidate_effect [OF assms(1-3)] assms(4) by (auto simp: loop_effect_def)

theorem liquidate_dry_run_moves_nothing_witness:
  "\<exists>w' new. liquidate (sc_params (Inr (Some Healthy))) (sc_liquidator True) ''alice.near'' sc_position sc_prices
          (sc_world []) = (Ok Liquidated, w')
      \<and> extends (sc_world []) w' new \<and> money new = [] \<and> w_inventory w' = sc_inventory"
proof -
  obtain w' where run: "liquidate (sc_params (Inr (Some Healthy))) (sc_liquidator True) ''alice.near''
      sc_position sc_prices (sc_world []) = (Ok Liquidated, w')"
    using sc_run_dry [of "[]"] by auto
  from liquidate_dry_run_moves_nothing [OF run] run show ?thesis
    by (auto simp: sc_hypotheses dry_run_mode_def sc_liquidator_def)
qed

text \<open>
  C6: The outcome says what happened: a live call that returns an outcome returns \<open>Liquidated\<close> exactly
  when it submitted a transaction. So a later iteration that skips, finds nothing profitable or
  exhausts its budget does not hide the liquidation that landed before it.
\<close>

theorem liquidate_outcome_iff_submitted:
  assumes "liquidate P lq a pos resp w = (Ok oc, w')" "env_ok (p_env P)" "ledger_ok (w_inventory w)"
    and "\<not> dry_run_mode lq"
  shows "\<exists>new. extends w w' new \<and> (oc = Liquidated \<longleftrightarrow> submitted new \<noteq> [])"
  using liquidate_effect [OF assms(1-3)] assms(4) by (auto simp: loop_effect_def)

theorem liquidate_outcome_iff_submitted_witness:
  "\<exists>w' new. liquidate (sc_params (Inr (Some Healthy))) (sc_liquidator False) ''alice.near'' sc_position sc_prices
          (sc_world []) = (Ok Liquidated, w')
      \<and> extends (sc_world []) w' new \<and> submitted new \<noteq> []"
proof -
  obtain w' where run: "liquidate (sc_params (Inr (Some Healthy))) (sc_liquidator False) ''alice.near''
      sc_position sc_prices (sc_world []) = (Ok Liquidated, w')"
    using sc_run_healthy [of "[]"] by auto
  from liquidate_outcome_iff_submitted [OF run] run show ?thesis
    by (auto simp: sc_hypotheses dry_run_mode_def sc_liquidator_def)
qed

text \<open>
  C7: A plan is only carried out when everything was established in the same iteration: the market called
  the position liquidatable; both feeds have a positive, finite dollar price, and the value and the gas cost
  the strategy accepted are the seized collateral and the gas estimate of five cents converted at exactly
  those prices; the repayment is positive, within the declared share of the available balance and of
  a balance that reaches the market minimum; and the iteration is within the budget.
\<close>

theorem proceed_is_justified:
  assumes "evaluate_position P lq a pos resp ctx w = (Ok (Proceed plan), w1)" "ledger_ok (w_inventory w)"
  defines "available \<equiv> get_available_balance (w_inventory w) (borrow_asset (lq_config lq))"
    and "oc \<equiv> price_oracle_configuration (lq_config lq)"
  shows "(\<exists>reason. e_borrow_status (p_env P) (w_trace w) a resp = Inr (Some (Liquidation reason)))
    \<and> (\<exists>cu bu. dollar_price (p_pow10 P) resp (collateral_asset_price_id oc) cu
         \<and> dollar_price (p_pow10 P) resp (borrow_asset_price_id oc) bu
         \<and> whole_units (dollars_in_borrow (p_pow10 P) oc
              (collateral_dollars (p_pow10 P) oc (pl_collateral_amount plan) cu) bu) (pl_expected_collateral_value plan)
         \<and> whole_units (dollars_in_borrow (p_pow10 P) oc (round_f64 (5 / 100)) bu) (pl_gas_cost plan))
    \<and> should_liquidate (lq_strategy lq) (sat_mul (pl_liquidation_amount plan) 10000 div (10000 + SAFETY_BUFFER_BPS))
        (pl_expected_collateral_value plan) (pl_gas_cost plan) = Ok True
    \<and> 0 < pl_liquidation_amount plan \<and> 0 < pl_collateral_amount plan
    \<and> pl_liquidation_amount plan \<le> available * max_liquidation_percentage (lq_strategy lq) div 100
    \<and> pl_liquidation_amount plan \<le> available
    \<and> borrow_range_minimum (lq_config lq) \<le> available
    \<and> cx_iteration ctx \<le> cx_max_iterations ctx"
proof -
  obtain reason sized where p: "check_status P lq a pos resp ctx w = (Ok (Liquidatable reason), w1)"
    "size_position P lq pos resp w1 = Ok (SizedOk sized)" "assess_profitability P lq resp sized = Ok (Plan plan)"
    using proceed_pieces [OF assms(1)] by blast
  have inv: "w_inventory w1 = w_inventory w" using check_status_world [OF p(1)] by simp
  note S = size_position_SizedOk [OF p(2), unfolded inv, OF assms(2), folded available_def]
  note A = assess_profitability_Plan [OF p(3)]
  have prices: "\<exists>cu bu. dollar_price (p_pow10 P) resp (collateral_asset_price_id oc) cu
         \<and> dollar_price (p_pow10 P) resp (borrow_asset_price_id oc) bu
         \<and> whole_units (dollars_in_borrow (p_pow10 P) oc
              (collateral_dollars (p_pow10 P) oc (pl_collateral_amount plan) cu) bu) (pl_expected_collateral_value plan)
         \<and> whole_units (dollars_in_borrow (p_pow10 P) oc (round_f64 (5 / 100)) bu) (pl_gas_cost plan)"
  proof -
    have c: "convert_collateral_to_borrow_asset (p_pow10 P) (p_show_f64 P) (pl_collateral_amount plan) resp (lq_config lq)
        = Ok (pl_expected_collateral_value plan)"
      and g: "convert_gas_cost_to_borrow_asset (p_pow10 P) (p_show_f64 P) (round_f64 (5 / 100)) resp (lq_config lq)
        = Ok (pl_gas_cost plan)"
      using A by (simp_all add: DEFAULT_GAS_COST_USD_def)
    from convert_gas_value [OF g] obtain bu' where bu': "dollar_price (p_pow10 P) resp (borrow_asset_price_id oc) bu'"
      "whole_units (dollars_in_borrow (p_pow10 P) oc (round_f64 (5 / 100)) bu') (pl_gas_cost plan)"
      unfolding oc_def by blast
    from convert_collateral_value [OF c, folded oc_def] dollar_price_unique [OF bu'(1)] bu'(2) show ?thesis by blast
  qed
  have "available * max_liquidation_percentage (lq_strategy lq) div 100 \<le> available * 100 div 100"
    using S by (intro div_le_mono mult_le_mono2) simp
  then have "pl_liquidation_amount plan \<le> available" using S A by simp
  with S A prices check_status_liquidatable [OF p(1)] proceed_within_budget [OF assms(1)] show ?thesis by auto
qed

theorem proceed_is_justified_witness:
  "(\<exists>bu. dollar_price (\<lambda>_. Fin 1) sc_prices ''b'' bu) \<and> 0 < pl_liquidation_amount sc_plan
    \<and> pl_liquidation_amount sc_plan \<le> 1000"
  using proceed_is_justified [OF sc_evaluate [of "[]" "Inr None" False]]
  by (auto simp: sc_inventory_def sc_liquidator_def sc_config_def sc_params_def sc_world_def sc_ledger_ok [unfolded sc_inventory_def]
      get_available_balance_def entry_available_def sat_sub_def sc_plan_def)

text \<open>
  A transaction counts as attempted only if it was sent: when the strategy reports preparation errors
  only (as both built-in strategies do), a call that fails in the execution phase submitted a
  transaction. The round counts attempts by that phase.
\<close>

theorem execution_error_means_submitted:
  assumes "liquidate P lq a pos resp w = (Err e, w')" "env_ok (p_env P)" "ledger_ok (w_inventory w)"
    and "strategy_prepares (lq_strategy lq)" "phase e = Execution"
  shows "\<exists>new. extends w w' new \<and> submitted new \<noteq> []"
  using liquidate_effect [OF assms(1-3)] assms(4,5) by (auto simp: loop_effect_def)

theorem execution_error_means_submitted_witness:
  "\<exists>e w' new. liquidate sc_refusing (sc_liquidator False) ''alice.near'' sc_position sc_prices (sc_world [])
       = (Err e, w') \<and> phase e = Execution \<and> extends (sc_world []) w' new \<and> submitted new \<noteq> []"
proof -
  obtain e w' where run: "liquidate sc_refusing (sc_liquidator False) ''alice.near'' sc_position sc_prices
      (sc_world []) = (Err e, w')" "phase e = Execution" by (rule sc_run_refused)
  have "strategy_prepares (lq_strategy (sc_liquidator False))"
    by (simp add: sc_liquidator_def sc_strategy_def builtin_prepare)
  with execution_error_means_submitted [OF run(1) _ _ _ run(2)] run show ?thesis by auto
qed

section \<open>One transaction: \<open>execute_liquidation\<close>\<close>

text \<open>
  C8: Success is believed only on evidence. A live execution that returns \<open>Ok\<close> was given a reservation of
  this ledger that covers exactly the repayment, submitted the requested transaction, first and as the only one, and the
  gateway reported it succeeded with a transaction hash under which no receipt failed; the reservation
  was then consumed, and nothing else of the ledger changed but the refreshed borrow balance.
\<close>

theorem landed_only_on_evidence:
  assumes "execute_liquidation pow10 E ex acct b c req (Live r) w = (Ok (oc, issue), w')"
  shows "oc = Liquidated \<and> issued (w_inventory w) r \<and> \<not> ex_dry_run ex \<and> covers r b (liquidation_amount req)
    \<and> consumed_only E r b w w'
    \<and> (\<exists>post. extends w w' (post @ [EvLiquidate acct (liquidation_amount req) (collateral_amount req)])
         \<and> submitted post = [] \<and> pushes post = [])
    \<and> (\<exists>operation tx.
         e_liquidate E (w_trace w) acct (liquidation_amount req) (collateral_amount req) = Inr operation
         \<and> op_status operation = OpSucceeded \<and> op_latest_tx_hash operation = Some tx
         \<and> e_failed_receipts E (EvLiquidate acct (liquidation_amount req) (collateral_amount req) # w_trace w) tx
             (op_signer operation) = Inr [])"
proof -
  have own: "issued (w_inventory w) r"
    using assms execute_foreign [of w r pow10 E ex acct b c req] by (cases "issued (w_inventory w) r") auto
  from assms own show ?thesis
  proof (cases rule: execute_live_cases)
    case (landed issue' new operation)
    obtain post where "new = post @ [EvLiquidate acct (liquidation_amount req) (collateral_amount req)]" "submitted post = []"
      using landed(10) by blast
    with landed(3,4) have "extends w w' (post @ [EvLiquidate acct (liquidation_amount req) (collateral_amount req)])
        \<and> submitted post = [] \<and> pushes post = []" by simp
    with landed assms own show ?thesis by (auto dest: execute_clean_receipts)
  qed simp
qed

theorem landed_only_on_evidence_witness:
  "consumed_only (sc_env (Inr None)) sc_token ''usdc'' (sc_sending []) (sc_after [])
    \<and> get_total_balance (w_inventory (sc_after [])) ''usdc'' = 501"
  using landed_only_on_evidence [OF sc_landed [of "Inr None" "[]"]]
  by (simp add: sc_after_def get_total_balance_def)

text \<open>
  C9: Every failure gives the funds back. A live execution that fails leaves the ledger as a release of
  its token would (which is no change at all when the token was issued by another ledger), the error is
  in the execution phase exactly when a transaction was submitted, and none is submitted for a foreign
  token, by a dry-run executor, or beyond what the token covers.
\<close>

theorem failure_releases_reservation:
  assumes "execute_liquidation pow10 E ex acct b c req (Live r) w = (Err e, w')"
  shows "w_inventory w' = release (w_inventory w) r
    \<and> (\<exists>new. extends w w' new \<and> (phase e = Execution \<longleftrightarrow> submitted new \<noteq> [])
         \<and> (submitted new \<noteq> [] \<longrightarrow>
              issued (w_inventory w) r \<and> \<not> ex_dry_run ex \<and> covers r b (liquidation_amount req)))"
proof (cases "issued (w_inventory w) r")
  case True
  from assms True show ?thesis
  proof (cases rule: execute_live_cases)
    case (failed err new)
    with True show ?thesis by (auto simp: released_only_def)
  qed simp
next
  case False
  with execute_foreign [OF this, of pow10 E ex acct b c req] assms obtain m where "e = StrategyError m" "w' = w"
    by auto
  with False show ?thesis by (auto simp: foreign_refused extends_def intro!: exI [of _ "[]"])
qed

theorem failure_releases_reservation_witness:
  "\<exists>e w'. execute_liquidation (\<lambda>_. Fin 1) (p_env sc_refusing) (sc_executor False) ''alice.near'' ''usdc'' ''wnear''
       sc_request (Live sc_token) (sc_sending []) = (Err e, w')
     \<and> phase e = Execution \<and> w_inventory w' = release sc_held sc_token"
proof -
  obtain e w' where run: "execute_liquidation (\<lambda>_. Fin 1) (p_env sc_refusing) (sc_executor False) ''alice.near'' ''usdc'' ''wnear''
       sc_request (Live sc_token) (sc_sending []) = (Err e, w')" "phase e = Execution"
    using sc_token_ours
    by (auto simp: execute_liquidation_def sc_refusing_def sc_executor_def sc_liquidator_def sc_request_def sc_sending_def)
  from failure_releases_reservation [OF run(1)] run show ?thesis by (auto simp: sc_sending_def)
qed

section \<open>The ledger under every interleaving\<close>

text \<open>
  C10: In every state the shared inventory can reach, whatever tasks interleave their reserve, release,
  consume, refresh and discovery calls, the reserved amount of each asset is exactly the sum of the
  reservations that are out, every one of them was issued by this ledger, and balances stay in range.
\<close>

theorem ledger_accounts_for_every_reservation:
  assumes "ledger_reachable (m, T)"
  shows "get_reserved_balance m a = sum_mset (image_mset res_amount (filter_mset (\<lambda>t. res_asset t = a) T))
    \<and> (\<forall>t \<in># T. res_manager_id t = manager_id m) \<and> get_total_balance m a \<le> u128_max"
  using ledger_reachable_inv [OF assms] by (simp add: ledger_inv_def held_def issued_def)

theorem ledger_accounts_for_every_reservation_witness:
  "get_reserved_balance sc_held ''usdc'' = 499 \<and> res_manager_id sc_token = manager_id sc_held"
  using ledger_accounts_for_every_reservation [OF sc_reachable, of "''usdc''"]
  by (simp add: sc_token_def)



text \<open>
  A reservation round-trips: releasing it restores every balance and every reserved amount of the
  ledger, and consuming it takes exactly its amount out of the balance of its asset and restores the rest.
\<close>

theorem reservation_round_trip:
  assumes "reserve m a n = (Ok t, m')" "get_total_balance m a \<le> u128_max" "get_reserved_balance m a \<le> u128_max"
  shows "get_total_balance (release m' t) = get_total_balance m
    \<and> get_reserved_balance (release m' t) = get_reserved_balance m
    \<and> get_total_balance (consume m' t) = (get_total_balance m)(a := get_total_balance m a - n)
    \<and> get_reserved_balance (consume m' t) = get_reserved_balance m"
  using ledger.reserve_then_release [OF assms] ledger.reserve_then_consume [OF assms] by simp

theorem reservation_round_trip_witness:
  "get_reserved_balance (release sc_held sc_token) = get_reserved_balance sc_inventory
    \<and> get_total_balance (consume sc_held sc_token) ''usdc'' = 501"
  using reservation_round_trip [OF sc_reserve]
  by (simp add: sc_inventory_def get_total_balance_def get_reserved_balance_def u128_max_def)

text \<open>
  A reservation survives everything but its own settlement: a full refresh, the refresh of one asset,
  a collateral refresh and the discovery of assets change no reserved amount, whatever balances they read.
\<close>

theorem refreshes_keep_reservations:
  "get_reserved_balance (snd (refresh clk fetch m)) a = get_reserved_balance m a
    \<and> get_reserved_balance (snd (refresh_asset now fetch b m)) a = get_reserved_balance m a
    \<and> get_reserved_balance (snd (refresh_collateral clk fetch m)) a = get_reserved_balance m a
    \<and> get_reserved_balance (discover_assets now configs m) a = get_reserved_balance m a
    \<and> get_reserved_balance (discover_collateral_assets now configs m) a = get_reserved_balance m a"
  by (simp add: ledger_views)

section \<open>How much to liquidate\<close>

text \<open>
  C28: A percentage sizing is affordable and within the contract's limits: the repayment fits in the
  available balance and reaches the market minimum, the collateral is positive and, with partial
  liquidation, within 97 percent of the eligible collateral (without it, it is the whole deposit),
  and the repayment is the value of exactly that collateral plus half a percent.
\<close>

theorem percentage_sizing_bounds:
  assumes "percentage_calculate L s position resp cfg available version = Ok (Sized r c)"
  shows "r \<le> available \<and> borrow_range_minimum cfg \<le> r \<and> 0 < c
    \<and> (if supports_partial_liquidation version
       then c \<le> collateral_asset_deposit position * 9700 div 10000 else c = collateral_asset_deposit position)
    \<and> (\<exists>pp t. create_price_pair L (price_oracle_configuration cfg) resp = Inr pp
        \<and> (collateral_to_borrow L c pp (liquidation_maximum_spread cfg) :: (liquidator_error, nat option) outcome)
            = Ok (Some t)
        \<and> r = sat_add t (t * 50 div 10000))"
  using percentage_calculate_Sized [OF assms] unfolding target_within_cap_def by blast

theorem percentage_sizing_bounds_witness:
  "(499 :: nat) \<le> 1000 \<and> borrow_range_minimum sc_config \<le> 499 \<and> (552 :: nat) \<le> 2000 * 9700 div 10000"
  using percentage_sizing_bounds [OF sc_sizing]
  by (simp add: sc_position_def supports_partial_liquidation_def
      version_supports_partial_liquidation_def MIN_PARTIAL_LIQUIDATION_def less_eq_market_version_def)

text \<open>
  C29: A fixed-amount sizing never exceeds the configured budget, which fits in the available balance; the
  collateral is positive and within the same contract limits, and without partial liquidation the
  repayment is the value of the whole deposit plus its buffer, of at least one unit.
\<close>

theorem fixed_sizing_bounds:
  assumes "fixed_calculate pow10 L s position resp cfg available version = Ok (Sized r c)"
  shows "r \<le> usd_to_raw_units pow10 (fixed_amount_usd s) (borrow_asset_decimals (price_oracle_configuration cfg))
    \<and> usd_to_raw_units pow10 (fixed_amount_usd s) (borrow_asset_decimals (price_oracle_configuration cfg)) \<le> available
    \<and> 0 < c \<and> borrow_range_minimum cfg \<le> r
    \<and> (if supports_partial_liquidation version
       then c \<le> collateral_asset_deposit position * 9700 div 10000 else c = collateral_asset_deposit position)
    \<and> (\<not> supports_partial_liquidation version \<longrightarrow>
        (\<exists>pp t. create_price_pair L (price_oracle_configuration cfg) resp = Inr pp
          \<and> (collateral_to_borrow L c pp (liquidation_maximum_spread cfg) :: (liquidator_error, nat option) outcome)
              = Ok (Some t)
          \<and> r = sat_add t (max (t * 50 div 10000) 1)))"
  using fixed_calculate_Sized [OF assms] unfolding target_within_cap_def by blast

theorem fixed_sizing_bounds_witness:
  "borrow_range_minimum sc_config \<le> 495 \<and> (547 :: nat) \<le> 2000 * 9700 div 10000"
  using fixed_sizing_bounds [OF sc_fixed_sizing]
  by (simp add: sc_position_def supports_partial_liquidation_def
      version_supports_partial_liquidation_def MIN_PARTIAL_LIQUIDATION_def less_eq_market_version_def)

text \<open>
  The two built-in strategies honour the contract the liquidator checks them against: on a market with
  a positive minimum, every sizing either of them returns passes \<open>validate_sizing\<close> at the declared
  maximum of 100 percent.
\<close>

theorem builtin_sizings_pass_validation:
  assumes "percentage_calculate L s position resp cfg available version = Ok (Sized r c)
      \<or> fixed_calculate tens L f position resp cfg available version = Ok (Sized r c)"
    and "available \<le> u128_max" "0 < borrow_range_minimum cfg"
  shows "validate_sizing r c available 100 = Ok ()"
  using assms pct.validated_when_minimum_positive fixed.validated_when_minimum_positive by blast

theorem builtin_sizings_pass_validation_witness:
  "validate_sizing 499 552 1000 100 = Ok ()"
proof -
  let ?pct = "\<lparr>target_percentage = LiquidationPercentage 50, pct_min_profit_margin_bps = 50\<rparr>"
  have "percentage_calculate sc_lib ?pct sc_position sc_prices sc_config 1000 (Some (MarketVersion 1 1 0)) = Ok (Sized 499 552)
      \<or> fixed_calculate (\<lambda>_. Fin 1) sc_lib sc_fixed sc_position sc_prices sc_config 1000 (Some (MarketVersion 1 1 0))
          = Ok (Sized 499 552)"
    using sc_sizing by blast
  from builtin_sizings_pass_validation [OF this] show ?thesis by (simp add: u128_max_def sc_config_def)
qed

text \<open>
  The check itself is exact. For every balance a \<open>u128\<close> can hold it accepts a sizing exactly when both
  amounts are positive, the declared percentage is at most 100 and the repayment is at most the rounded
  down percentage of the balance; its quotient-and-remainder computation neither loses precision nor panics.
\<close>

theorem validate_sizing_exact:
  assumes "available \<le> u128_max"
  shows "validate_sizing r c available p =
    (if r = 0 \<or> c = 0 then Err ZeroAmount
     else if 100 < p then Err (InvalidDeclaredPercentage p)
     else if available * p div 100 < r then Err (ExceedsDeclaredMax (available * p div 100))
     else Ok ())"
  by (rule validate_sizing_eq [OF assms])

theorem validate_sizing_exact_witness:
  "validate_sizing (u128_max div 2 + 1) 1 u128_max 50 = Err (ExceedsDeclaredMax (u128_max div 2))"
  by (subst validate_sizing_exact) (simp_all add: u128_max_def)

text \<open>
  C30: The profitability gate decides exactly, with no rounding error and no panic: a liquidation is worth
  it when the collateral value covers repayment and gas with the required margin in basis points. When
  the scaled cost would not fit a \<open>u128\<close> it answers no.
\<close>

theorem profit_gate_exact:
  "default_should_liquidate margin_bps n revenue gas =
     Ok ((n + gas) * (10000 + margin_bps) \<le> u128_max
         \<and> (n + gas) * (10000 + margin_bps) \<le> revenue * 10000)"
proof -
  have "u128_max < (n + gas) * (10000 + margin_bps)" if "u128_max < n + gas"
  proof -
    have "(n + gas) * 1 \<le> (n + gas) * (10000 + margin_bps)" by (rule mult_le_mono2) simp
    with that show ?thesis unfolding mult_1_right by (rule less_le_trans)
  qed
  moreover have "u128_max < u128_max * (10000 + margin_bps)"
    by (simp add: u128_max_def)
  ultimately show ?thesis
    by (auto simp: default_should_liquidate_def sat_add_def checked_mul_def min_def div_ceil_le_iff Let_def)
qed

text \<open>
  The fixed strategy reports insufficient inventory exactly when the balance is below the configured
  budget. So its last check, that a full liquidation must not cost more than the balance, never fires.
\<close>

theorem fixed_insufficient_inventory_iff:
  "fixed_calculate pow10 L s position resp cfg available version = Ok (Decline InsufficientInventory) \<longleftrightarrow>
     available < usd_to_raw_units pow10 (fixed_amount_usd s) (borrow_asset_decimals (price_oracle_configuration cfg))"
proof -
  let ?budget = "usd_to_raw_units pow10 (fixed_amount_usd s) (borrow_asset_decimals (price_oracle_configuration cfg))"
  have "fixed_calculate pow10 L s position resp cfg available version \<noteq> Ok (Decline InsufficientInventory)"
    if "?budget \<le> available"
    using that by (auto simp: fixed_calculate_def Let_def split: option.splits if_splits)
  then show ?thesis by (force simp: fixed_calculate_def Let_def)
qed

text \<open>
  The percentage strategy panics on a balance it could serve: above \<open>u128::MAX / 9950\<close> its first
  multiplication overflows (the release profile keeps overflow checks and aborts), although the check
  applied to its result is exact over the whole range.
\<close>

theorem percentage_panics_on_large_balance:
  assumes "u128_max < available * 9950"
  shows "percentage_calculate L s position resp cfg available version = Panic"
  using assms by (simp add: percentage_calculate_def mul_u128_def SAFETY_BUFFER_BPS_def)

theorem percentage_panics_on_large_balance_witness:
  "percentage_calculate sc_lib \<lparr>target_percentage = LiquidationPercentage 50, pct_min_profit_margin_bps = 50\<rparr>
     sc_position sc_prices sc_config (10 ^ 35) (Some (MarketVersion 1 1 0)) = Panic"
  by (rule percentage_panics_on_large_balance) (simp add: u128_max_def)

text \<open>
  The signed profit of a plan is revenue minus cost, clamped to what an \<open>i128\<close> holds (the negative
  side at \<open>-i128::MAX\<close>); it never wraps.
\<close>

theorem signed_profit_exact:
  "signed_profit revenue cost = max (- i128_max) (min i128_max (int revenue - int cost))"
  by (simp add: signed_profit_def to_i128_def i128_max_def of_nat_diff max_def min_def)

text \<open>
  The conversion of a floating-point amount to raw units succeeds exactly on finite values of the
  range and then truncates: a non-number, an infinity, a negative value or a value of \<open>2^128\<close> or more is
  an error, never a saturated amount.
\<close>

theorem checked_conversion_exact:
  "checked_f64_to_u128 show_f64 x = Ok n \<longleftrightarrow> (\<exists>v. x = Fin v \<and> 0 \<le> v \<and> v < 2 ^ 128 \<and> n = nat \<lfloor>v\<rfloor>)"
  by (rule checked_f64_to_u128_Ok)

section \<open>A round over a market\<close>

text \<open>
  A round leaves no reservation behind, moves nothing in a dry run, and submits only against positions
  the market confirmed: whatever the outside answers and whatever the result (a panic included), for
  some list of candidates and the prices that were fetched.
\<close>

theorem round_is_safe:
  assumes "run_liquidations P lq w = (res, w')" "env_ok (p_env P)" "ledger_ok (w_inventory w)"
  shows "settled (borrow_asset (lq_config lq)) (w_inventory w) (w_inventory w')
    \<and> (\<exists>new. extends w w' new
         \<and> (dry_run_mode lq \<longrightarrow> money new = [] \<and> w_inventory w' = w_inventory w)
         \<and> (submitted new \<noteq> [] \<longrightarrow>
              (\<exists>resp A. e_oracle_prices (p_env P) (w_trace w) = Inr resp
                \<and> covers_all resp [borrow_asset_price_id (price_oracle_configuration (lq_config lq)),
                                   collateral_asset_price_id (price_oracle_configuration (lq_config lq))]
                \<and> confirmed (p_env P) A resp new (w_trace w))))"
  using assms
proof (cases rule: run_liquidations_cases)
  case (idle new)
  with assms(3) show ?thesis by (auto simp: settled_refl no_money intro!: exI [of _ new])
next
  case (processed resp candidates screened results w1 new old)
  have "extends w w' (new @ old)"
    using processed(3,6) by (simp add: round_effect_def extends_def)
  moreover have "confirmed (p_env P) (set (map fst candidates)) resp (new @ old) (w_trace w)"
    using processed(3,4,6) by (simp add: round_effect_def extends_def confirmed_quiet no_money)
  moreover have "settled (borrow_asset (lq_config lq)) (w_inventory w) (w_inventory w')"
    "dry_run_mode lq \<longrightarrow> money (new @ old) = [] \<and> w_inventory w' = w_inventory w"
    using processed(4-6) by (simp_all add: round_effect_def)
  ultimately show ?thesis using processed(1,2) by blast
qed

theorem round_is_safe_witness:
  "\<exists>s w' new. run_liquidations (sc_params (Inr (Some Healthy))) (sc_liquidator False) (sc_world []) = (Ok s, w')
     \<and> rs_succeeded s = 1 \<and> settled ''usdc'' sc_inventory (w_inventory w') \<and> extends (sc_world []) w' new"
proof -
  obtain s w' where run: "run_liquidations (sc_params (Inr (Some Healthy))) (sc_liquidator False) (sc_world []) = (Ok s, w')"
    "rs_succeeded s = 1" by (rule sc_round_healthy)
  from round_is_safe [OF run(1)] run show ?thesis
    by (auto simp: sc_liquidator_def sc_config_def)
qed

text \<open>
  The summary of a live round never claims a transaction that was not sent: the number of attempts it
  reports is at most the number of transactions submitted (for a strategy that reports preparation errors
  only), and attempts split into successes and failures within the candidates.
\<close>

theorem attempted_at_most_submitted:
  assumes "run_liquidations P lq w = (Ok s, w')" "env_ok (p_env P)" "ledger_ok (w_inventory w)"
    and "\<not> dry_run_mode lq" "strategy_prepares (lq_strategy lq)"
  shows "\<exists>new. extends w w' new \<and> rs_attempted s \<le> length (submitted new)
    \<and> rs_attempted s = rs_succeeded s + rs_failed s \<and> rs_attempted s \<le> rs_candidates s"
  using assms(1-3)
proof (cases rule: run_liquidations_cases)
  case (idle new)
  then have "s = round_summary_default" by auto
  with idle show ?thesis by (auto simp: round_summary_default_def intro!: exI [of _ new])
next
  case (processed resp candidates screened results w1 new old)
  have "extends w w' (new @ old)"
    using processed(3,6) by (simp add: round_effect_def extends_def)
  moreover have "rs_attempted s \<le> length (submitted new)"
    using processed(6,7) assms(4,5)
    by (simp add: round_effect_def round_summary_of_def fold_tally_counters split: if_splits)
  moreover have "rs_attempted s = rs_succeeded s + rs_failed s" "rs_attempted s \<le> rs_candidates s"
    using processed(7) by (auto simp: round_summary_of_def split: if_splits)
  ultimately show ?thesis by (auto intro!: exI [of _ "new @ old"])
qed

theorem attempted_at_most_submitted_witness:
  "\<exists>s w' new. run_liquidations (sc_params (Inr (Some Healthy))) (sc_liquidator False) (sc_world []) = (Ok s, w')
     \<and> extends (sc_world []) w' new \<and> 1 \<le> rs_attempted s \<and> rs_attempted s \<le> length (submitted new)"
proof -
  obtain s w' where run: "run_liquidations (sc_params (Inr (Some Healthy))) (sc_liquidator False) (sc_world []) = (Ok s, w')"
    "rs_succeeded s = 1" by (rule sc_round_healthy)
  have "\<not> dry_run_mode (sc_liquidator False)" "strategy_prepares (lq_strategy (sc_liquidator False))"
    by (simp_all add: dry_run_mode_def sc_liquidator_def sc_strategy_def builtin_prepare)
  with attempted_at_most_submitted [OF run(1)] run show ?thesis by auto
qed

text \<open>
  The summary counts results, in no particular order: each of its numbers is a count over the list of
  the positions' results, so processing positions concurrently, which only permutes that list, cannot
  change it.
\<close>

theorem round_summary_counts_results:
  "round_summary_of (fold tally_count results
      \<lparr>t_liquidated = 0, t_not_liquidatable = screened, t_skipped_unfunded = 0, t_unprofitable = 0,
       t_failed = 0, t_failed_execution = 0\<rparr>) =
    \<lparr>rs_candidates = results_of Liquidated results + results_of Unprofitable results + executions_failed results,
     rs_skipped_unfunded = results_of SkippedUnfunded results,
     rs_attempted = results_of Liquidated results + executions_failed results,
     rs_succeeded = results_of Liquidated results, rs_failed = executions_failed results,
     rs_markets_scanned_ok = 0, rs_markets_failed = 0\<rparr>"
  by (simp add: round_summary_of_def fold_tally_counters)

text \<open>
  The local screen is a filter: the candidates are exactly the positions whose locally computed status
  (at the forward-dated expiry time) is a liquidation, in their order; every other position is counted
  once; the failure memory is cleared exactly for the healthy ones; and nothing is read or sent.
\<close>

theorem screening_is_a_filter:
  "screen_positions P lq price_pair now positions n w =
     (filter (\<lambda>(a, p). position_screen P lq price_pair now p = Candidate) positions,
      n + length (filter (\<lambda>(a, p). position_screen P lq price_pair now p \<noteq> Candidate) positions),
      w\<lparr>w_trace := rev (map (\<lambda>(a, p). EvClearDedup (lq_market lq) a)
                       (filter (\<lambda>(a, p). position_screen P lq price_pair now p = SkipHealthy) positions))
                   @ w_trace w\<rparr>)"
  by (rule screen_positions_eq)

text \<open>
  A market without both prices fails its scan: the round returns an error of the scan phase whose text
  holds no rate-limit marker, after the price fetch and before any position is read.
\<close>

theorem missing_prices_fail_the_scan:
  assumes "e_oracle_prices (p_env P) (w_trace w) = Inr resp"
    and "\<not> covers_all resp [borrow_asset_price_id (price_oracle_configuration (lq_config lq)),
                            collateral_asset_price_id (price_oracle_configuration (lq_config lq))]"
  shows "\<exists>e ev. run_liquidations P lq w = (Err e, emit ev w) \<and> phase e = Scan \<and> is_money_event ev = False
    \<and> \<not> message_indicates_rate_limit (liquidator_error_to_string e)"
proof -
  let ?e = "PriceFetchError (WrongResponseKind ''oracle prices missing or stale for the market's feed pair'')"
  have "\<not> message_indicates_rate_limit (liquidator_error_to_string ?e)" by code_simp
  with assms show ?thesis
    by (intro exI [of _ ?e]) (auto simp: run_liquidations_unfold Let_def is_money_event_def)
qed

theorem missing_prices_fail_the_scan_witness:
  "\<exists>e ev. run_liquidations ((sc_params (Inr None))\<lparr>p_env := (sc_env (Inr None))\<lparr>e_oracle_prices := \<lambda>_. Inr Map.empty\<rparr>\<rparr>)
     (sc_liquidator False) (sc_world []) = (Err e, emit ev (sc_world [])) \<and> phase e = Scan"
  using missing_prices_fail_the_scan [of "(sc_params (Inr None))\<lparr>p_env := (sc_env (Inr None))\<lparr>e_oracle_prices := \<lambda>_. Inr Map.empty\<rparr>\<rparr>"
      "sc_world []" Map.empty "sc_liquidator False"]
  by (auto simp: covers_all_def)

text \<open>
  A liquidation that landed can go uncounted. There is a live round in which a transaction was submitted
  and settled successfully, but because the status of the position could not be read in the next
  iteration the whole position is a scan error and the summary reports no attempt and no success.
\<close>

theorem landed_liquidation_can_go_uncounted:
  "\<exists>(P :: (rat, rat) params) lq w s w'.
     run_liquidations P lq w = (Ok s, w') \<and> \<not> dry_run_mode lq
     \<and> submitted (w_trace w) = [] \<and> submitted (w_trace w') = [EvLiquidate ''alice.near'' 499 552]
     \<and> get_total_balance (w_inventory w') (borrow_asset (lq_config lq))
         = get_total_balance (w_inventory w) (borrow_asset (lq_config lq)) - 499
     \<and> rs_attempted s = 0 \<and> rs_succeeded s = 0 \<and> rs_candidates s = 0"
proof -
  obtain s w' where "run_liquidations (sc_params (Inl ''timeout'')) (sc_liquidator False) (sc_world []) = (Ok s, w')"
    "submitted (w_trace w') = [EvLiquidate ''alice.near'' 499 552]" "w_inventory w' = w_inventory (sc_after sc_scanned)"
    "rs_attempted s = 0" "rs_succeeded s = 0" "rs_candidates s = 0"
    by (rule sc_round_unread)
  then show ?thesis
    by (intro exI [of _ "sc_params (Inl ''timeout'')"] exI [of _ "sc_liquidator False"] exI [of _ "sc_world []"]
        exI [of _ s] exI [of _ w'])
       (simp add: dry_run_mode_def sc_liquidator_def sc_config_def sc_after_def sc_inventory_def get_total_balance_def)
qed

section \<open>Reading the market\<close>

text \<open>
  C31: The scan misses no position. Against a market that serves its pages from one list, of any length a
  \<open>u32\<close> offset can reach, the paging loop ends, and the map it returns holds for every account the last
  entry of that list, exactly.
\<close>

theorem scan_is_complete:
  assumes "serves E positions" "length positions \<le> u32_max"
  shows "\<exists>found w'. get_all_borrows E w = (Ok found, w') \<and> map_of found = map_of (rev positions)"
  using borrows_loop_complete [OF assms, of 0 "[]" w] map_of_extend [of "[]" positions]
  by (auto simp: get_all_borrows_def)

theorem scan_is_complete_witness:
  "\<exists>found w'. get_all_borrows ((sc_env (Inr None))\<lparr>e_list_positions := \<lambda>tr off n.
       Inr (take n (drop off (replicate 501 (''a'', sc_position) @ [(''b'', sc_position)])))\<rparr>) (sc_world []) = (Ok found, w')
     \<and> map_of found ''b'' = Some sc_position"
proof -
  let ?ps = "replicate 501 (''a'', sc_position) @ [(''b'', sc_position)]"
  let ?E = "(sc_env (Inr None))\<lparr>e_list_positions := \<lambda>tr off n. Inr (take n (drop off ?ps))\<rparr>"
  have "serves ?E ?ps" "length ?ps \<le> u32_max" by (simp_all add: serves_def u32_max_def)
  from scan_is_complete [OF this, of "sc_world []"] show ?thesis by auto
qed

text \<open>
  A contract version survives being shown and read: parsing the rendering of a version with \<open>u32\<close>
  parts gives that version, so admission decides on the version the contract declared.
\<close>

theorem version_round_trip:
  assumes "major v \<le> u32_max" "minor v \<le> u32_max" "patch v \<le> u32_max"
  shows "market_version_parse (market_version_display v) = Some v"
  by (rule parse_display [OF assms])

theorem version_round_trip_witness:
  "market_version_parse (market_version_display (MarketVersion 1 1 0)) = Some (MarketVersion 1 1 0)"
  by (rule version_round_trip) (simp_all add: u32_max_def)

section \<open>Swapping the collateral\<close>

text \<open>
  A swap is retried only while nothing was deposited. With at least one attempt configured, the run
  makes at most that many attempts; every attempt but the last failed before the deposit with a retryable
  error and waited at most the five-minute cap, no less than the attempt before it; and the result is
  that of the last attempt. So an error after the deposit, whose funds may be in flight, is never retried.
\<close>

theorem swap_retried_only_before_deposit:
  assumes "swap_with_retry config swap_name operation w = (r, w', lg)" "0 < max_attempts config"
  shows "lg \<noteq> [] \<and> length lg \<le> max_attempts config \<and> last lg = (r, None)
    \<and> (\<forall>x \<in> set (butlast lg). \<exists>e d pre. x = (Inl e, Some d) \<and> swap_kind e = PreDeposit pre
         \<and> pre_is_retryable pre \<and> d \<le> MAX_BACKOFF_DELAY)
    \<and> (\<forall>a b. a \<le> b \<longrightarrow> delay_for_attempt config a \<le> delay_for_attempt config b)"
  using swap_with_retry_log [OF assms] retryable_is_pre_deposit delay_mono
  by (simp add: retry_log_ok_def) blast

theorem swap_retried_only_before_deposit_witness:
  "\<exists>e r w' lg. swap_with_retry default_retry_config ''x''
       (\<lambda>n :: nat. (if n = 0 then Inl (swap_error_pre (NetworkError ''n'') ''x'') else Inr (), n + 1)) 0 = (r, w', lg)
     \<and> lg = [(Inl e, Some 2000), (Inr (), None)] \<and> last lg = (r, None) \<and> length lg \<le> 3"
proof -
  let ?op = "\<lambda>n :: nat. (if n = 0 then Inl (swap_error_pre (NetworkError ''n'') ''x'') else Inr (), n + 1)"
  let ?lg = "[(Inl (swap_error_pre (NetworkError ''n'') ''x''), Some 2000), (Inr (), None)]"
  have run: "swap_with_retry default_retry_config ''x'' ?op 0 = (Inr (), 2, ?lg)"
    by (simp add: swap_with_retry_def default_retry_config_def upt_rec is_retryable_def swap_error_pre_def
        delay_for_attempt_def checked_shl_1_def MAX_BACKOFF_DELAY_def u64_max_def)
  from swap_retried_only_before_deposit [OF run] run show ?thesis
    by (auto simp: default_retry_config_def)
qed

section \<open>Reading error messages\<close>

text \<open>
  Error markers are whole tokens: in a message that is a single alphanumeric run, such as a price feed
  id or a transaction hash, a marker is found only if it is the entire message, whatever the case, so
  the digits 429 inside a hex id are no rate limit.
\<close>

theorem error_tokens_are_anchored:
  assumes "list_all is_alnum message"
  shows "has_error_token message token \<longleftrightarrow> to_lower message = token"
  by (rule has_error_token_alnum [OF assms])

theorem error_tokens_are_anchored_witness:
  "\<not> has_error_token ''a1429ef0'' ''429'' \<and> has_error_token ''429'' ''429''"
  using error_tokens_are_anchored [of "''a1429ef0''" "''429''"] error_tokens_are_anchored [of "''429''" "''429''"]
  by (simp add: is_alnum_def is_digit_def byte_def to_lower_def to_lower_char_def)

end
